(* ===== verification/Prelude.thy ===== *)
theory Prelude
  imports Main "HOL-Library.Word"
begin

text \<open>
  What every component shares: the collections that carry the component proofs, results that may
  fail (\<open>'e + 'a\<close>, \<open>Inl\<close> an error), JavaScript number addition, ASCII strings as the regular
  expressions and \<open>toUpperCase\<close>/\<open>startsWith\<close> of the source see them, and tables kept as lists
  of rows.
\<close>

named_theorems wp_rules "weakest-precondition rules, one per operation"
named_theorems run_simps "evaluation rules for the deterministic runner, one per operation"

section \<open>Results that may fail\<close>

fun rbind :: "'e + 'a \<Rightarrow> ('a \<Rightarrow> 'e + 'b) \<Rightarrow> 'e + 'b" where
  "rbind (Inl e) f = Inl e"
| "rbind (Inr x) f = f x"

lemma rbind_eq_Inr_iff [simp]: "rbind m f = Inr y \<longleftrightarrow> (\<exists>x. m = Inr x \<and> f x = Inr y)"
  by (cases m) auto

lemma rbind_eq_Inl_iff: "rbind m f = Inl e \<longleftrightarrow> m = Inl e \<or> (\<exists>x. m = Inr x \<and> f x = Inl e)"
  by (cases m) auto

fun is_ok :: "'e + 'a \<Rightarrow> bool" where
  "is_ok (Inl e) = False"
| "is_ok (Inr x) = True"

section \<open>JavaScript numbers\<close>

text \<open>
  Every integer the service handles is a non-negative safe integer (\<open>\<le> 2 ^ 53 - 1\<close>) when it
  enters. A sum may leave that range: between \<open>2 ^ 53\<close> and \<open>2 ^ 54\<close> a double holds the even
  integers only and an odd result is rounded to the neighbour divisible by four.
\<close>

definition max_safe_integer :: nat where
  "max_safe_integer = 9007199254740991"

definition js_add :: "nat \<Rightarrow> nat \<Rightarrow> nat" where
  "js_add a b =
     (let s = a + b
      in if s \<le> max_safe_integer \<or> even s then s
         else if (s + 1) mod 4 = 0 then s + 1 else s - 1)"

lemma js_add_exact: "a + b \<le> max_safe_integer \<Longrightarrow> js_add a b = a + b"
  by (simp add: js_add_def)

lemma js_add_ge: "a + b \<le> js_add a b + 1"
  by (auto simp: js_add_def Let_def)

lemma js_add_gt: "2 \<le> b \<Longrightarrow> a < js_add a b"
  using js_add_ge[of a b] by linarith

section \<open>Strings\<close>

definition starts_with :: "string \<Rightarrow> string \<Rightarrow> bool" where
  "starts_with p s \<longleftrightarrow> take (length p) s = p"

definition upper_char :: "char \<Rightarrow> char" where
  "upper_char c =
     (let n = of_char c :: nat in if 97 \<le> n \<and> n \<le> 122 then char_of (n - 32) else c)"

definition upper :: "string \<Rightarrow> string" where
  "upper s = map upper_char s"

definition all_in :: "string \<Rightarrow> string \<Rightarrow> bool" where
  "all_in alphabet s \<longleftrightarrow> list_all (\<lambda>c. c \<in> set alphabet) s"

text \<open>The value of a string of decimal digits, as \<open>BigInt\<close> reads it.\<close>

definition digit_value :: "char \<Rightarrow> nat" where
  "digit_value c = of_char c - 48"

fun nat_of_digits_acc :: "nat \<Rightarrow> string \<Rightarrow> nat" where
  "nat_of_digits_acc acc [] = acc"
| "nat_of_digits_acc acc (c # cs) = nat_of_digits_acc (10 * acc + digit_value c) cs"

definition nat_of_digits :: "string \<Rightarrow> nat" where
  "nat_of_digits s = nat_of_digits_acc 0 s"

lemma upper_char_idem [simp]: "upper_char (upper_char c) = upper_char c"
proof (cases "97 \<le> (of_char c :: nat) \<and> (of_char c :: nat) \<le> 122")
  case True
  then have "upper_char c = char_of ((of_char c :: nat) - 32)"
    by (simp add: upper_char_def)
  moreover have "(of_char c :: nat) - 32 < 256"
    using True by linarith
  then have "(of_char (char_of ((of_char c :: nat) - 32) :: char) :: nat) = of_char c - 32"
    by simp
  moreover have "\<not> (97 \<le> (of_char c :: nat) - 32)"
    using True by linarith
  ultimately show ?thesis
    using True by (simp add: upper_char_def Let_def)
next
  case False
  then have "upper_char c = c" by (auto simp: upper_char_def Let_def)
  then show ?thesis by simp
qed

lemma upper_upper [simp]: "upper (upper s) = upper s"
  by (simp add: upper_def)

lemma length_upper [simp]: "length (upper s) = length s"
  by (simp add: upper_def)

lemma nat_of_digits_acc_ge: "acc \<le> nat_of_digits_acc acc s"
proof (induction s arbitrary: acc)
  case Nil
  then show ?case by simp
next
  case (Cons c cs)
  have "acc \<le> 10 * acc + digit_value c" by simp
  also have "\<dots> \<le> nat_of_digits_acc (10 * acc + digit_value c) cs" by (rule Cons.IH)
  finally show ?case by simp
qed

section \<open>Tables\<close>

text \<open>A table is a list of rows; an update by key rewrites every row with that key.\<close>

definition map_where :: "('r \<Rightarrow> bool) \<Rightarrow> ('r \<Rightarrow> 'r) \<Rightarrow> 'r list \<Rightarrow> 'r list" where
  "map_where P f rs = map (\<lambda>r. if P r then f r else r) rs"

lemma set_map_where: "set (map_where P f rs) = {if P r then f r else r | r. r \<in> set rs}"
  by (auto simp: map_where_def)

lemma find_map_where:
  assumes "\<And>r. Q (f r) = Q r"
  shows "find Q (map_where P f rs) = map_option (\<lambda>r. if P r then f r else r) (find Q rs)"
  using assms by (induction rs) (auto simp: map_where_def)

lemma map_map_where:
  assumes "\<And>r. g (f r) = g r"
  shows "map g (map_where P f rs) = map g rs"
  using assms by (induction rs) (auto simp: map_where_def)

lemma length_map_where [simp]: "length (map_where P f rs) = length rs"
  by (simp add: map_where_def)

lemma find_Some_in: "find P xs = Some x \<Longrightarrow> x \<in> set xs \<and> P x"
  by (induction xs) (auto split: if_splits)

lemma find_key_unique:
  "distinct (map key rs) \<Longrightarrow> r \<in> set rs \<Longrightarrow> find (\<lambda>x. key x = key r) rs = Some r"
  by (induction rs) (auto simp: image_iff)

text \<open>
  Pairwise compatible rows: with a symmetric relation that rows of one key never satisfy, the
  pairwise condition along the list is the condition on its set plus distinct keys.
\<close>

lemma sorted_wrt_iff_distinct_keys:
  assumes sym: "\<And>x y. P x y \<Longrightarrow> P y x" and key: "\<And>x y. P x y \<Longrightarrow> key x \<noteq> key y"
  shows "sorted_wrt P xs \<longleftrightarrow>
     distinct (map key xs) \<and> (\<forall>x \<in> set xs. \<forall>y \<in> set xs. key x \<noteq> key y \<longrightarrow> P x y)"
proof (induction xs)
  case Nil
  then show ?case by simp
next
  case (Cons x xs)
  show ?case
  proof
    assume "sorted_wrt P (x # xs)"
    then have *: "\<forall>y \<in> set xs. P x y" "sorted_wrt P xs" by simp_all
    then have "\<forall>y \<in> set xs. P y x" "\<forall>y \<in> set xs. key x \<noteq> key y" using sym key by blast+
    then show "distinct (map key (x # xs)) \<and>
        (\<forall>y \<in> set (x # xs). \<forall>z \<in> set (x # xs). key y \<noteq> key z \<longrightarrow> P y z)"
      using * Cons.IH by auto
  next
    assume *: "distinct (map key (x # xs)) \<and>
        (\<forall>y \<in> set (x # xs). \<forall>z \<in> set (x # xs). key y \<noteq> key z \<longrightarrow> P y z)"
    then have "\<forall>y \<in> set xs. key x \<noteq> key y" by force
    with * show "sorted_wrt P (x # xs)" using Cons.IH by simp
  qed
qed

end
