(* ===== verification/Effects.thy ===== *)
theory Effects
  imports Prelude
begin

text \<open>
  The async handlers of the service as programs. A handler runs without interruption from one
  \<open>await\<close> to the next; between two awaits any other handler, the clock and the network may move.
  A program is therefore a tree: an \<open>Atom\<close> is one awaited database statement (or one
  synchronous read of shared memory), a \<open>Call\<close> is one awaited request to the outside whose answer
  the environment chooses, \<open>Throw\<close> is a rejected promise.

  Two ways to execute a program are given and used: \<open>run\<close>, alone and against a deterministic
  environment, and the pool \<open>reachable\<close>, any number of programs interleaved step by step with
  lost database connections, clock steps and process crashes. \<open>wp\<close> is the proof rule for both:
  what a program guarantees under interference, together with what it has seen so far.
\<close>

section \<open>Programs\<close>

text \<open>
  A database statement may fail: before it took effect, or after the commit when only the
  acknowledgement was lost.
\<close>

datatype fault = NoFault | LostBefore | LostAfter

datatype ('w, 'e, 'q, 'a, 'r) io =
    Return 'r
  | Throw 'e
  | Atom "fault \<Rightarrow> 'w \<Rightarrow> 'w" "fault \<Rightarrow> 'w \<Rightarrow> ('w, 'e, 'q, 'a, 'r) io"
  | Call 'q "'a \<Rightarrow> ('w, 'e, 'q, 'a, 'r) io"

text \<open>Induction over a program: what holds of every continuation holds of the step.\<close>

lemma io_induct [case_names Return Throw Atom Call, induct type: io]:
  assumes "\<And>x. P (Return x)"
    and "\<And>e. P (Throw e)"
    and "\<And>g p. (\<And>fl w. P (p fl w)) \<Longrightarrow> P (Atom g p)"
    and "\<And>q p. (\<And>a. P (p a)) \<Longrightarrow> P (Call q p)"
  shows "P m"
proof (induction m rule: io.induct)
  case (Atom g p)
  then show ?case by (blast intro: assms(3))
next
  case (Call q p)
  then show ?case by (blast intro: assms(4))
qed (auto intro: assms)

primrec await ::
  "('w, 'e, 'q, 'a, 'r) io \<Rightarrow> ('r \<Rightarrow> ('w, 'e, 'q, 'a, 's) io) \<Rightarrow> ('w, 'e, 'q, 'a, 's) io" where
  "await (Return x) k = k x"
| "await (Throw e) k = Throw e"
| "await (Atom g p) k = Atom g (\<lambda>fl w. await (p fl w) k)"
| "await (Call q p) k = Call q (\<lambda>a. await (p a) k)"

primrec try_catch ::
  "('w, 'e, 'q, 'a, 'r) io \<Rightarrow> ('e \<Rightarrow> ('w, 'e, 'q, 'a, 'r) io) \<Rightarrow> ('w, 'e, 'q, 'a, 'r) io" where
  "try_catch (Return x) h = Return x"
| "try_catch (Throw e) h = h e"
| "try_catch (Atom g p) h = Atom g (\<lambda>fl w. try_catch (p fl w) h)"
| "try_catch (Call q p) h = Call q (\<lambda>a. try_catch (p a) h)"

definition lift_result :: "'e + 'r \<Rightarrow> ('w, 'e, 'q, 'a, 'r) io" where
  "lift_result x = (case x of Inl e \<Rightarrow> Throw e | Inr r \<Rightarrow> Return r)"

text \<open>One database transaction: all of \<open>f\<close> or, on an error, none of it.\<close>

definition db_result :: "'e \<Rightarrow> ('w \<Rightarrow> ('e + 'r) \<times> 'w) \<Rightarrow> fault \<Rightarrow> 'w \<Rightarrow> ('e + 'r) \<times> 'w" where
  "db_result lost f fl w =
     (case fl of
        NoFault \<Rightarrow> f w
      | LostBefore \<Rightarrow> (Inl lost, w)
      | LostAfter \<Rightarrow> (Inl lost, snd (f w)))"

definition transaction :: "'e \<Rightarrow> ('w \<Rightarrow> ('e + 'r) \<times> 'w) \<Rightarrow> ('w, 'e, 'q, 'a, 'r) io" where
  "transaction lost f =
     Atom (\<lambda>fl w. snd (db_result lost f fl w)) (\<lambda>fl w. lift_result (fst (db_result lost f fl w)))"

text \<open>A synchronous action on the memory of the process; nothing can fail it.\<close>

definition sync :: "('w \<Rightarrow> ('e + 'r) \<times> 'w) \<Rightarrow> ('w, 'e, 'q, 'a, 'r) io" where
  "sync f = Atom (\<lambda>fl w. snd (f w)) (\<lambda>fl w. lift_result (fst (f w)))"

lemma lift_result_simps [simp]:
  "lift_result (Inl e) = Throw e"
  "lift_result (Inr r) = Return r"
  by (simp_all add: lift_result_def)

lemma await_assoc: "await (await p k) h = await p (\<lambda>x. await (k x) h)"
  by (induction p) (auto simp: fun_eq_iff)

lemma await_Return_right [simp]: "await p Return = p"
  by (induction p) (auto simp: fun_eq_iff)

section \<open>Running alone\<close>

text \<open>
  The environment answers from the whole exchange so far, so it may change its mind between two
  equal requests. The result carries the exchange and the final state.
\<close>

type_synonym ('q, 'a) trace = "('q \<times> 'a) list"
type_synonym ('q, 'a) answers = "('q, 'a) trace \<Rightarrow> 'q \<Rightarrow> 'a"

primrec run ::
  "('q, 'a) answers \<Rightarrow> ('w, 'e, 'q, 'a, 'r) io \<Rightarrow> ('q, 'a) trace \<Rightarrow> 'w
    \<Rightarrow> ('e + 'r) \<times> ('q, 'a) trace \<times> 'w" where
  "run env (Return x) = (\<lambda>tr w. (Inr x, tr, w))"
| "run env (Throw e) = (\<lambda>tr w. (Inl e, tr, w))"
| "run env (Atom g p) = (\<lambda>tr w. run env (p NoFault w) tr (g NoFault w))"
| "run env (Call q p) = (\<lambda>tr w. run env (p (env tr q)) (tr @ [(q, env tr q)]) w)"

lemma run_await [run_simps]:
  "run env (await p k) tr w =
     (case run env p tr w of
        (Inl e, tr', w') \<Rightarrow> (Inl e, tr', w')
      | (Inr x, tr', w') \<Rightarrow> run env (k x) tr' w')"
  by (induction p arbitrary: tr w) auto

lemma run_try_catch [run_simps]:
  "run env (try_catch p h) tr w =
     (case run env p tr w of
        (Inl e, tr', w') \<Rightarrow> run env (h e) tr' w'
      | (Inr x, tr', w') \<Rightarrow> (Inr x, tr', w'))"
  by (induction p arbitrary: tr w) auto

lemma run_lift_result [run_simps]: "run env (lift_result x) tr w = (x, tr, w)"
  by (cases x) auto

lemma run_transaction [run_simps]:
  "run env (transaction lost f) tr w = (fst (f w), tr, snd (f w))"
  by (simp add: transaction_def db_result_def run_lift_result)

lemma run_sync [run_simps]: "run env (sync f) tr w = (fst (f w), tr, snd (f w))"
  by (simp add: sync_def run_lift_result)

lemma run_Call [run_simps]:
  "run env (Call q p) tr w = run env (p (env tr q)) (tr @ [(q, env tr q)]) w"
  by simp

section \<open>Weakest preconditions under interference\<close>

text \<open>
  \<open>wp I R G C p Q E tr w\<close>: the program \<open>p\<close>, which has seen \<open>tr\<close> and last observed the shared
  state as \<open>w\<close>, meets its contract from here on. Every state it will find satisfies \<open>I\<close> and is
  an \<open>R\<close>-descendant of the last one it left. Each of its own steps satisfies \<open>G\<close>, with the
  exchange so far as evidence; each request it sends satisfies \<open>C\<close>; it ends in \<open>Q\<close> or throws
  into \<open>E\<close>.
\<close>

primrec wp ::
  "('w \<Rightarrow> bool) \<Rightarrow> ('w \<Rightarrow> 'w \<Rightarrow> bool) \<Rightarrow> (('q, 'a) trace \<Rightarrow> 'w \<Rightarrow> 'w \<Rightarrow> bool)
    \<Rightarrow> ('q \<Rightarrow> 'w \<Rightarrow> bool) \<Rightarrow> ('w, 'e, 'q, 'a, 'r) io
    \<Rightarrow> ('r \<Rightarrow> ('q, 'a) trace \<Rightarrow> 'w \<Rightarrow> bool) \<Rightarrow> ('e \<Rightarrow> ('q, 'a) trace \<Rightarrow> 'w \<Rightarrow> bool)
    \<Rightarrow> ('q, 'a) trace \<Rightarrow> 'w \<Rightarrow> bool" where
  "wp I R G C (Return x) = (\<lambda>Q E tr w. Q x tr w)"
| "wp I R G C (Throw e) = (\<lambda>Q E tr w. E e tr w)"
| "wp I R G C (Atom g p) = (\<lambda>Q E tr w. \<forall>fl w1. R w w1 \<longrightarrow> I w1 \<longrightarrow>
     G tr w1 (g fl w1) \<and> wp I R G C (p fl w1) Q E tr (g fl w1))"
| "wp I R G C (Call q p) = (\<lambda>Q E tr w. (\<forall>w1. R w w1 \<longrightarrow> I w1 \<longrightarrow> C q w1) \<and>
     (\<forall>a. wp I R G C (p a) Q E (tr @ [(q, a)]) w))"

lemma wp_mono:
  assumes "wp I R G C p Q E tr w"
    and "\<And>x tr w. Q x tr w \<Longrightarrow> Q' x tr w"
    and "\<And>e tr w. E e tr w \<Longrightarrow> E' e tr w"
  shows "wp I R G C p Q' E' tr w"
  using assms(1) by (induction p arbitrary: tr w) (auto intro: assms(2,3))

lemma wp_await: "wp I R G C (await p k) Q E tr w = wp I R G C p (\<lambda>x. wp I R G C (k x) Q E) E tr w"
  by (induction p arbitrary: tr w) simp_all

lemma wp_try_catch:
  "wp I R G C (try_catch p h) Q E tr w = wp I R G C p Q (\<lambda>e. wp I R G C (h e) Q E) tr w"
  by (induction p arbitrary: tr w) simp_all

lemma wp_lift_result:
  "wp I R G C (lift_result x) Q E tr w = (case x of Inl e \<Rightarrow> E e tr w | Inr r \<Rightarrow> Q r tr w)"
  by (simp add: lift_result_def split: sum.split)

lemma wp_transaction:
  "wp I R G C (transaction lost f) Q E tr w \<longleftrightarrow>
     (\<forall>w1. R w w1 \<longrightarrow> I w1 \<longrightarrow>
        G tr w1 w1 \<and> E lost tr w1 \<and> G tr w1 (snd (f w1)) \<and> E lost tr (snd (f w1)) \<and>
        (case fst (f w1) of Inl e \<Rightarrow> E e tr (snd (f w1)) | Inr r \<Rightarrow> Q r tr (snd (f w1))))"
  (is "?L \<longleftrightarrow> ?R")
proof
  assume L: ?L
  show ?R
  proof (intro allI impI)
    fix w1 assume "R w w1" "I w1"
    with L have *: "\<And>fl. G tr w1 (snd (db_result lost f fl w1)) \<and>
        wp I R G C (lift_result (fst (db_result lost f fl w1))) Q E tr (snd (db_result lost f fl w1))"
      by (simp add: transaction_def)
    show "G tr w1 w1 \<and> E lost tr w1 \<and> G tr w1 (snd (f w1)) \<and> E lost tr (snd (f w1)) \<and>
        (case fst (f w1) of Inl e \<Rightarrow> E e tr (snd (f w1)) | Inr r \<Rightarrow> Q r tr (snd (f w1)))"
      using *[of NoFault] *[of LostBefore] *[of LostAfter]
      by (simp add: db_result_def wp_lift_result)
  qed
next
  assume ?R
  then show ?L
    by (auto simp: transaction_def db_result_def wp_lift_result split: fault.split)
qed

lemma wp_sync:
  "wp I R G C (sync f) Q E tr w \<longleftrightarrow>
     (\<forall>w1. R w w1 \<longrightarrow> I w1 \<longrightarrow> G tr w1 (snd (f w1)) \<and>
        (case fst (f w1) of Inl e \<Rightarrow> E e tr (snd (f w1)) | Inr r \<Rightarrow> Q r tr (snd (f w1))))"
  by (simp add: sync_def wp_lift_result)

lemma wp_if:
  "wp I R G C (if b then p else q) Q E tr w =
     (if b then wp I R G C p Q E tr w else wp I R G C q Q E tr w)"
  by simp

lemmas wp_structure = wp_await wp_try_catch wp_lift_result wp_if

end
