(* ===== verification/Pool.thy ===== *)
theory Pool
  imports Effects
begin

text \<open>
  A process that runs any number of handlers. Handlers start at any moment, advance one await at
  a time in any order, and vanish when the process crashes; what survives a crash is the shared
  state as \<open>reset\<close> leaves it. A handler is known by its place among those started since. Every
  committed statement and every request sent is logged with the state it found.

  \<open>owned_rely_guarantee\<close> is the contract between the handlers and the pool: what a handler may do
  depends on its number, and so does what it may expect of the others. Handlers that meet their
  \<open>wp\<close> from any good state make every reachable state good, every logged commit permitted and
  every logged request allowed. \<open>rely_guarantee\<close> is the case where all handlers are alike.
\<close>

datatype ('w, 'q, 'a) event =
    Committed "('q, 'a) trace" 'w 'w
  | Sent 'q 'w
  | Crashed

type_synonym ('w, 'e, 'q, 'a) task = "('q, 'a) trace \<times> ('w, 'e, 'q, 'a, unit) io"
type_synonym ('w, 'e, 'q, 'a) pool = "'w \<times> ('w, 'e, 'q, 'a) task list \<times> ('w, 'q, 'a) event list"

inductive pool_step ::
  "(nat \<Rightarrow> ('w, 'e, 'q, 'a, unit) io \<Rightarrow> bool) \<Rightarrow> ('w \<Rightarrow> 'w \<Rightarrow> bool) \<Rightarrow> ('w \<Rightarrow> 'w)
    \<Rightarrow> ('w, 'e, 'q, 'a) pool \<Rightarrow> ('w, 'e, 'q, 'a) pool \<Rightarrow> bool"
  for handlers ambient reset where
  Spawn: "handlers (length ts) p \<Longrightarrow>
     pool_step handlers ambient reset (w, ts, log) (w, ts @ [([], p)], log)"
| Commit: "i < length ts \<Longrightarrow> ts ! i = (tr, Atom g p) \<Longrightarrow>
     pool_step handlers ambient reset (w, ts, log)
       (g fl w, ts[i := (tr, p fl w)], log @ [Committed tr w (g fl w)])"
| Send: "i < length ts \<Longrightarrow> ts ! i = (tr, Call q p) \<Longrightarrow>
     pool_step handlers ambient reset (w, ts, log)
       (w, ts[i := (tr @ [(q, a)], p a)], log @ [Sent q w])"
| Ambient: "ambient w w' \<Longrightarrow> pool_step handlers ambient reset (w, ts, log) (w', ts, log)"
| Crash: "pool_step handlers ambient reset (w, ts, log) (reset w, [], log @ [Crashed])"

inductive reachable ::
  "(nat \<Rightarrow> ('w, 'e, 'q, 'a, unit) io \<Rightarrow> bool) \<Rightarrow> ('w \<Rightarrow> 'w \<Rightarrow> bool) \<Rightarrow> ('w \<Rightarrow> 'w) \<Rightarrow> ('w \<Rightarrow> bool)
    \<Rightarrow> ('w, 'e, 'q, 'a) pool \<Rightarrow> bool"
  for handlers ambient reset init where
  Start: "init w \<Longrightarrow> reachable handlers ambient reset init (w, [], [])"
| Step: "reachable handlers ambient reset init c \<Longrightarrow> pool_step handlers ambient reset c c' \<Longrightarrow>
     reachable handlers ambient reset init c'"

inductive_cases pool_stepE: "pool_step handlers ambient reset (w, ts, log) c'"

section \<open>Running one handler to its end is one way for the pool to move\<close>

text \<open>What a handler run alone adds to the log.\<close>

primrec run_events ::
  "('q, 'a) answers \<Rightarrow> ('w, 'e, 'q, 'a, 'r) io \<Rightarrow> ('q, 'a) trace \<Rightarrow> 'w \<Rightarrow> ('w, 'q, 'a) event list" where
  "run_events env (Return x) = (\<lambda>tr w. [])"
| "run_events env (Throw e) = (\<lambda>tr w. [])"
| "run_events env (Atom g p) = (\<lambda>tr w.
     Committed tr w (g NoFault w) # run_events env (p NoFault w) tr (g NoFault w))"
| "run_events env (Call q p) = (\<lambda>tr w.
     Sent q w # run_events env (p (env tr q)) (tr @ [(q, env tr q)]) w)"

lemma reachable_run:
  assumes "reachable handlers ambient reset init (w, ts @ [(tr, p)], log)"
    and "run env p tr w = (res, tr', w')"
  shows "\<exists>p'. reachable handlers ambient reset init
     (w', ts @ [(tr', p')], log @ run_events env p tr w)"
  using assms
proof (induction p arbitrary: tr w log)
  case (Atom g p)
  have "pool_step handlers ambient reset (w, ts @ [(tr, Atom g p)], log)
      (g NoFault w, (ts @ [(tr, Atom g p)])[length ts := (tr, p NoFault w)],
       log @ [Committed tr w (g NoFault w)])"
    by (rule Commit) simp_all
  then have "reachable handlers ambient reset init
      (g NoFault w, ts @ [(tr, p NoFault w)], log @ [Committed tr w (g NoFault w)])"
    using Atom.prems(1) by (auto intro: reachable.Step)
  from Atom.IH[OF this] Atom.prems(2) show ?case by simp
next
  case (Call q p)
  let ?a = "env tr q"
  have "pool_step handlers ambient reset (w, ts @ [(tr, Call q p)], log)
      (w, (ts @ [(tr, Call q p)])[length ts := (tr @ [(q, ?a)], p ?a)], log @ [Sent q w])"
    by (rule Send) simp_all
  then have "reachable handlers ambient reset init
      (w, ts @ [(tr @ [(q, ?a)], p ?a)], log @ [Sent q w])"
    using Call.prems(1) by (auto intro: reachable.Step)
  from Call.IH[OF this] Call.prems(2) show ?case by simp
qed auto

lemma reachable_handler:
  assumes "reachable handlers ambient reset init (w, ts, log)"
    and "handlers (length ts) p" and "run env p [] w = (res, tr, w')"
  shows "\<exists>ts'. reachable handlers ambient reset init (w', ts', log @ run_events env p [] w)"
proof -
  have "reachable handlers ambient reset init (w, ts @ [([], p)], log)"
    using assms(1,2) by (auto intro: reachable.Step pool_step.Spawn)
  from reachable_run[OF this assms(3)] show ?thesis by blast
qed

text \<open>Every answer in the exchange was asked for, and every change has its commit.\<close>

lemma run_events_sent:
  assumes "run env p tr w = (res, tr', w')" and "(q, a) \<in> set tr'" and "(q, a) \<notin> set tr"
  shows "\<exists>w1. Sent q w1 \<in> set (run_events env p tr w)"
  using assms
proof (induction p arbitrary: tr w)
  case (Atom g p)
  from Atom.IH[of NoFault w tr "g NoFault w"] Atom.prems show ?case by auto
next
  case (Call q' p)
  from Call.IH[of "env tr q'" "tr @ [(q', env tr q')]" w] Call.prems show ?case by auto
qed auto

lemma run_events_change:
  assumes "run env p tr w = (res, tr', w')" and "P w" and "\<not> P w'"
  shows "\<exists>tr1 w1 w2. Committed tr1 w1 w2 \<in> set (run_events env p tr w) \<and> P w1 \<and> \<not> P w2"
  using assms
proof (induction p arbitrary: tr w)
  case (Atom g p)
  show ?case
  proof (cases "P (g NoFault w)")
    case True
    from Atom.IH[of NoFault w tr "g NoFault w"] True Atom.prems show ?thesis by fastforce
  next
    case False
    then show ?thesis using Atom.prems(2) by auto
  qed
next
  case (Call q' p)
  from Call.IH[of "env tr q'" "tr @ [(q', env tr q')]" w] Call.prems show ?case by fastforce
qed auto

section \<open>The contract\<close>

fun event_ok :: "('w \<Rightarrow> bool) \<Rightarrow> (('q, 'a) trace \<Rightarrow> 'w \<Rightarrow> 'w \<Rightarrow> bool) \<Rightarrow> ('q \<Rightarrow> 'w \<Rightarrow> bool)
    \<Rightarrow> ('w, 'q, 'a) event \<Rightarrow> bool" where
  "event_ok I G C (Committed tr w w') = (I w \<and> G tr w w')"
| "event_ok I G C (Sent q w) = (I w \<and> C q w)"
| "event_ok I G C Crashed = True"

locale owned_rely_guarantee =
  fixes handlers :: "nat \<Rightarrow> ('w, 'e, 'q, 'a, unit) io \<Rightarrow> bool"
    and ambient :: "'w \<Rightarrow> 'w \<Rightarrow> bool"
    and reset :: "'w \<Rightarrow> 'w"
    and init :: "'w \<Rightarrow> bool"
    and I :: "'w \<Rightarrow> bool"
    and R :: "nat \<Rightarrow> 'w \<Rightarrow> 'w \<Rightarrow> bool"
    and G :: "nat \<Rightarrow> ('q, 'a) trace \<Rightarrow> 'w \<Rightarrow> 'w \<Rightarrow> bool"
    and C :: "'q \<Rightarrow> 'w \<Rightarrow> bool"
  assumes rely_refl: "R k w w"
    and rely_trans: "R k w w' \<Longrightarrow> R k w' w'' \<Longrightarrow> R k w w''"
    and init_inv: "init w \<Longrightarrow> I w"
    and reset_inv: "I w \<Longrightarrow> I (reset w)"
    and ambient_inv: "ambient w w' \<Longrightarrow> I w \<Longrightarrow> I w'"
    and ambient_rely: "ambient w w' \<Longrightarrow> I w \<Longrightarrow> R k w w'"
    and guarantee_inv: "I w \<Longrightarrow> G k tr w w' \<Longrightarrow> I w'"
    and guarantee_rely: "I w \<Longrightarrow> G k tr w w' \<Longrightarrow> j \<noteq> k \<Longrightarrow> R j w w'"
    and handler_wp: "handlers k p \<Longrightarrow> I w \<Longrightarrow> wp I (R k) (G k) C p (\<lambda>_ _ _. True) (\<lambda>_ _ _. True) [] w"
begin

lemma wp_weaken:
  "wp I (R k) (G k) C p (\<lambda>_ _ _. True) (\<lambda>_ _ _. True) tr w \<Longrightarrow> R k w w' \<Longrightarrow>
     wp I (R k) (G k) C p (\<lambda>_ _ _. True) (\<lambda>_ _ _. True) tr w'"
proof (induction p arbitrary: tr w w')
  case (Atom g p)
  then show ?case by (simp, blast intro: rely_trans)
next
  case (Call q p)
  then show ?case by (simp, blast intro: rely_trans)
qed simp_all

definition task_ok :: "nat \<Rightarrow> 'w \<Rightarrow> ('w, 'e, 'q, 'a) task \<Rightarrow> bool" where
  "task_ok k w t \<longleftrightarrow> wp I (R k) (G k) C (snd t) (\<lambda>_ _ _. True) (\<lambda>_ _ _. True) (fst t) w"

definition log_ok :: "('w, 'q, 'a) event list \<Rightarrow> bool" where
  "log_ok log \<longleftrightarrow> (\<forall>e \<in> set log. \<exists>k. event_ok I (G k) C e)"

definition pool_ok :: "('w, 'e, 'q, 'a) pool \<Rightarrow> bool" where
  "pool_ok c \<longleftrightarrow> (case c of (w, ts, log) \<Rightarrow>
     I w \<and> (\<forall>k < length ts. task_ok k w (ts ! k)) \<and> log_ok log)"

lemma task_ok_rely: "task_ok k w t \<Longrightarrow> R k w w' \<Longrightarrow> task_ok k w' t"
  by (auto simp: task_ok_def intro: wp_weaken)

lemma tasks_ok_update:
  assumes "\<forall>k < length ts. task_ok k w (ts ! k)" and "\<And>j. j \<noteq> i \<Longrightarrow> R j w w'"
    and "task_ok i w' t'"
  shows "\<forall>k < length (ts[i := t']). task_ok k w' (ts[i := t'] ! k)"
proof (intro allI impI)
  fix k assume k: "k < length (ts[i := t'])"
  show "task_ok k w' (ts[i := t'] ! k)"
  proof (cases "k = i")
    case True
    then show ?thesis using assms(3) k by simp
  next
    case False
    then show ?thesis using assms(1) k task_ok_rely[OF _ assms(2)[OF False]] by simp
  qed
qed

lemma pool_ok_step:
  assumes "pool_step handlers ambient reset c c'" and "pool_ok c"
  shows "pool_ok c'"
  using assms
proof (induction rule: pool_step.induct)
  case (Spawn ts p w log)
  then have "task_ok (length ts) w ([], p)" by (auto simp: pool_ok_def task_ok_def intro: handler_wp)
  with Spawn show ?case by (auto simp: pool_ok_def nth_append less_Suc_eq)
next
  case (Commit i ts tr g p w log fl)
  then have I: "I w" and "task_ok i w (tr, Atom g p)" by (auto simp: pool_ok_def)
  then have G: "G i tr w (g fl w)" and t: "task_ok i (g fl w) (tr, p fl w)"
    by (auto simp: task_ok_def rely_refl)
  have "\<forall>k < length (ts[i := (tr, p fl w)]). task_ok k (g fl w) (ts[i := (tr, p fl w)] ! k)"
    using Commit.prems by (intro tasks_ok_update[OF _ guarantee_rely[OF I G] t])
      (auto simp: pool_ok_def)
  moreover have "event_ok I (G i) C (Committed tr w (g fl w))" using I G by simp
  ultimately show ?case
    using Commit.prems guarantee_inv[OF I G] by (auto simp: pool_ok_def log_ok_def)
next
  case (Send i ts tr q p w log a)
  then have I: "I w" and "task_ok i w (tr, Call q p)" by (auto simp: pool_ok_def)
  then have C: "C q w" and t: "task_ok i w (tr @ [(q, a)], p a)"
    by (auto simp: task_ok_def rely_refl)
  have "\<forall>k < length (ts[i := (tr @ [(q, a)], p a)]). task_ok k w (ts[i := (tr @ [(q, a)], p a)] ! k)"
    using Send.prems by (intro tasks_ok_update[OF _ rely_refl t]) (auto simp: pool_ok_def)
  moreover have "event_ok I (G i) C (Sent q w)" using I C by simp
  ultimately show ?case using Send.prems I by (auto simp: pool_ok_def log_ok_def)
next
  case (Ambient w w' ts log)
  then show ?case
    by (auto simp: pool_ok_def intro: ambient_inv task_ok_rely ambient_rely)
next
  case (Crash w ts log)
  moreover have "event_ok I (G 0) C Crashed" by simp
  ultimately show ?case by (auto simp: pool_ok_def log_ok_def intro: reset_inv)
qed

lemma pool_safe: "reachable handlers ambient reset init c \<Longrightarrow> pool_ok c"
proof (induction rule: reachable.induct)
  case (Start w)
  then show ?case by (simp add: pool_ok_def log_ok_def init_inv)
next
  case (Step c c')
  then show ?case by (blast intro: pool_ok_step)
qed

lemma reachable_inv: "reachable handlers ambient reset init (w, ts, log) \<Longrightarrow> I w"
  by (drule pool_safe) (simp add: pool_ok_def)

lemma reachable_sent:
  "reachable handlers ambient reset init (w, ts, log) \<Longrightarrow> Sent q w1 \<in> set log \<Longrightarrow> I w1 \<and> C q w1"
  by (drule pool_safe) (auto simp: pool_ok_def log_ok_def)

lemma reachable_committed:
  "reachable handlers ambient reset init (w, ts, log) \<Longrightarrow> Committed tr w1 w2 \<in> set log \<Longrightarrow>
     I w1 \<and> (\<exists>k. G k tr w1 w2)"
  by (drule pool_safe) (fastforce simp: pool_ok_def log_ok_def)

end

text \<open>All handlers alike, and each may expect of itself what it expects of the others.\<close>

locale rely_guarantee =
  owned_rely_guarantee "\<lambda>k. handlers" ambient reset init I "\<lambda>k. R" "\<lambda>k. G" C
  for handlers :: "('w, 'e, 'q, 'a, unit) io \<Rightarrow> bool"
    and ambient :: "'w \<Rightarrow> 'w \<Rightarrow> bool"
    and reset :: "'w \<Rightarrow> 'w"
    and init :: "'w \<Rightarrow> bool"
    and I :: "'w \<Rightarrow> bool"
    and R :: "'w \<Rightarrow> 'w \<Rightarrow> bool"
    and G :: "('q, 'a) trace \<Rightarrow> 'w \<Rightarrow> 'w \<Rightarrow> bool"
    and C :: "'q \<Rightarrow> 'w \<Rightarrow> bool" +
  assumes own_rely: "I w \<Longrightarrow> G tr w w' \<Longrightarrow> R w w'"
begin

text \<open>The same rule for one handler run alone.\<close>

lemma wp_run:
  assumes "wp I R G C p Q E tr w" and "I w" and "run env p tr w = (res, tr', w')"
  shows "I w' \<and> R w w' \<and> (case res of Inl e \<Rightarrow> E e tr' w' | Inr x \<Rightarrow> Q x tr' w')"
  using assms
proof (induction p arbitrary: tr w)
  case (Atom g p)
  then have G: "G tr w (g NoFault w)" and p: "wp I R G C (p NoFault w) Q E tr (g NoFault w)"
    by (auto simp: rely_refl)
  from Atom.IH[OF p guarantee_inv[OF Atom.prems(2) G]] Atom.prems(3)
  show ?case by (auto intro: rely_trans own_rely[OF Atom.prems(2) G])
next
  case (Call q p)
  from Call.IH[of "env tr q" "tr @ [(q, env tr q)]" w] Call.prems show ?case by simp
qed (auto simp: rely_refl)

lemma wp_run_events:
  assumes "wp I R G C p Q E tr w" and "I w"
    and "Committed tr1 w1 w2 \<in> set (run_events env p tr w)"
  shows "R w w1"
  using assms
proof (induction p arbitrary: tr w)
  case (Atom g p)
  then have G: "G tr w (g NoFault w)" and p: "wp I R G C (p NoFault w) Q E tr (g NoFault w)"
    by (auto simp: rely_refl)
  from Atom.IH[OF p guarantee_inv[OF Atom.prems(2) G]] Atom.prems(3)
  show ?case by (auto intro: rely_refl rely_trans own_rely[OF Atom.prems(2) G])
next
  case (Call q p)
  from Call.IH[of "env tr q" "tr @ [(q, env tr q)]" w] Call.prems show ?case by simp
qed auto

end

end
