(* ===== verification/Js.thy ===== *)
theory Js
  imports Prelude
begin

unbundle bit_operations_syntax

text \<open>
  JavaScript values as the service meets them: what \<open>JSON.parse\<close> yields, the \<open>unknown\<close> of the
  TypeScript, and the narrowing helpers of \<open>src/xrpl/types.ts\<close>. An object is the list of its own
  entries in insertion order, with distinct keys; a lookup that finds nothing (\<open>undefined\<close>) is
  \<open>None\<close>. A number with no integral value is kept as the text it prints as: the service rejects
  it wherever it looks at one.
\<close>

datatype json =
    JNull
  | JBool bool
  | JNum int
  | JDec string
  | JStr string
  | JArr "json list"
  | JObj "(string \<times> json) list"

type_synonym object = "(string \<times> json) list"

definition field :: "object \<Rightarrow> string \<Rightarrow> json option" where
  "field ob k = map_of ob k"

definition has_field :: "object \<Rightarrow> string \<Rightarrow> bool" where
  "has_field ob k \<longleftrightarrow> k \<in> set (map fst ob)"

text \<open>Object rest and spread: \<open>const { k, ...rest } = ob\<close> and \<open>{ ...ob, k: v }\<close>.\<close>

definition without :: "string list \<Rightarrow> object \<Rightarrow> object" where
  "without ks ob = filter (\<lambda>kv. fst kv \<notin> set ks) ob"

fun put :: "string \<Rightarrow> json \<Rightarrow> object \<Rightarrow> object" where
  "put k v [] = [(k, v)]"
| "put k v ((k', v') # ob) = (if k' = k then (k, v) # ob else (k', v') # put k v ob)"

text \<open>\<open>a ?? b\<close>\<close>

definition nullish :: "json option \<Rightarrow> json option \<Rightarrow> json option" where
  "nullish a b = (case a of None \<Rightarrow> b | Some JNull \<Rightarrow> b | Some v \<Rightarrow> Some v)"

section \<open>Narrowing of \<open>unknown\<close>\<close>

text \<open>
  \<open>as_record\<close> and the checks below it; \<open>Inl\<close> is a thrown \<open>LedgerResponseFormatError\<close> with its
  message.
\<close>

definition as_record :: "json option \<Rightarrow> object option" where
  "as_record value = (case value of Some (JObj ob) \<Rightarrow> Some ob | _ \<Rightarrow> None)"

definition record_of :: "json option \<Rightarrow> string \<Rightarrow> string + object" where
  "record_of value what =
     (case as_record value of
        Some ob \<Rightarrow> Inr ob
      | None \<Rightarrow> Inl (what @ '' is not an object''))"

definition safe_uint :: "json option \<Rightarrow> string \<Rightarrow> string + nat" where
  "safe_uint value what =
     (case value of
        Some (JNum n) \<Rightarrow>
          if 0 \<le> n \<and> n \<le> int max_safe_integer then Inr (nat n)
          else Inl (what @ '' is not a non-negative integer'')
      | _ \<Rightarrow> Inl (what @ '' is not a non-negative integer''))"

definition optional_safe_uint :: "json option \<Rightarrow> string \<Rightarrow> string + nat option" where
  "optional_safe_uint value what =
     (case value of None \<Rightarrow> Inr None | Some v \<Rightarrow> rbind (safe_uint (Some v) what) (\<lambda>n. Inr (Some n)))"

definition str :: "json option \<Rightarrow> string \<Rightarrow> string + string" where
  "str value what =
     (case value of Some (JStr s) \<Rightarrow> Inr s | _ \<Rightarrow> Inl (what @ '' is not a string''))"

definition optional_str :: "json option \<Rightarrow> string option" where
  "optional_str value = (case value of Some (JStr s) \<Rightarrow> Some s | _ \<Rightarrow> None)"

text \<open>\<open>value === true\<close>, and a flag that is kept only when it is a boolean.\<close>

definition is_true :: "json option \<Rightarrow> bool" where
  "is_true value \<longleftrightarrow> value = Some (JBool True)"

definition optional_bool :: "json option \<Rightarrow> bool option" where
  "optional_bool value = (case value of Some (JBool b) \<Rightarrow> Some b | _ \<Rightarrow> None)"

text \<open>\<open>(flags & bit_mask) !== 0\<close>: both operands are truncated to 32 bits first.\<close>

definition js_has_bit :: "nat \<Rightarrow> nat \<Rightarrow> bool" where
  "js_has_bit flags bit_mask \<longleftrightarrow> ((of_nat flags :: 32 word) AND of_nat bit_mask) \<noteq> 0"

lemma safe_uint_bound: "safe_uint value what = Inr n \<Longrightarrow> n \<le> max_safe_integer"
  by (auto simp: safe_uint_def split: option.splits json.splits if_splits)

lemma safe_uint_Inr_iff: "safe_uint value what = Inr n \<longleftrightarrow> value = Some (JNum (int n)) \<and> n \<le> max_safe_integer"
  by (auto simp: safe_uint_def split: option.splits json.splits if_splits)

lemma optional_safe_uint_Inr_iff:
  "optional_safe_uint value what = Inr r \<longleftrightarrow>
     (case r of None \<Rightarrow> value = None | Some n \<Rightarrow> safe_uint value what = Inr n)"
  by (auto simp: optional_safe_uint_def safe_uint_Inr_iff split: option.splits)

lemma str_Inr_iff: "str value what = Inr s \<longleftrightarrow> value = Some (JStr s)"
  by (auto simp: str_def split: option.splits json.splits)

lemma record_of_Inr_iff: "record_of value what = Inr ob \<longleftrightarrow> value = Some (JObj ob)"
  by (auto simp: record_of_def as_record_def split: option.splits json.splits)

section \<open>Objects as finite maps\<close>

lemma field_put: "field (put k v ob) k' = (if k' = k then Some v else field ob k')"
  by (induction k v ob rule: put.induct) (auto simp: field_def)

lemma field_without: "field (without ks ob) k = (if k \<in> set ks then None else field ob k)"
  by (induction ob) (auto simp: field_def without_def)

lemma has_field_iff: "has_field ob k \<longleftrightarrow> field ob k \<noteq> None"
  by (auto simp: has_field_def field_def map_of_eq_None_iff)

lemma keys_put: "set (map fst (put k v ob)) = insert k (set (map fst ob))"
  by (induction k v ob rule: put.induct) auto

lemma distinct_put: "distinct (map fst ob) \<Longrightarrow> distinct (map fst (put k v ob))"
proof (induction k v ob rule: put.induct)
  case (2 k v k' v' ob)
  then show ?case using keys_put[of k v ob] by auto
qed simp

lemma distinct_without: "distinct (map fst ob) \<Longrightarrow> distinct (map fst (without ks ob))"
  unfolding without_def by (rule distinct_map_filter)

end
