(* ===== verification/Errors.thy ===== *)
theory Errors
  imports Js
begin

text \<open>
  The errors the service throws and their public rendering (\<open>src/common/errors\<close>). \<open>ApiError\<close> is
  the public contract; everything else becomes INTERNAL_ERROR. An error of the PostgreSQL driver
  carries its SQLSTATE and constraint and may arrive wrapped by the query builder (\<open>cause\<close>).
\<close>

datatype error_code =
    VALIDATION_ERROR | INVALID_IDEMPOTENCY_KEY
  | INTENT_NOT_FOUND
  | IDEMPOTENCY_KEY_REUSED | INVALID_INTENT_STATE | INTENT_EXPIRED
  | ACCOUNT_NOT_QUIESCENT | ACCOUNT_BUSY | SIGNATURE_ALREADY_ATTACHED
  | ACCOUNT_NOT_FOUND | TRANSACTION_BUILD_INVALID | SIMULATION_REJECTED
  | INVALID_SIGNED_TRANSACTION | SIGNED_TRANSACTION_MISMATCH
  | INVALID_SIGNATURE | SIGNER_NOT_AUTHORIZED
  | FEE_TOO_HIGH | XRPL_UNAVAILABLE | SERVICE_NOT_READY
  | INTERNAL_ERROR

fun http_status :: "error_code \<Rightarrow> nat" where
  "http_status VALIDATION_ERROR = 400"
| "http_status INVALID_IDEMPOTENCY_KEY = 400"
| "http_status INTENT_NOT_FOUND = 404"
| "http_status IDEMPOTENCY_KEY_REUSED = 409"
| "http_status INVALID_INTENT_STATE = 409"
| "http_status INTENT_EXPIRED = 409"
| "http_status ACCOUNT_NOT_QUIESCENT = 409"
| "http_status ACCOUNT_BUSY = 409"
| "http_status SIGNATURE_ALREADY_ATTACHED = 409"
| "http_status ACCOUNT_NOT_FOUND = 422"
| "http_status TRANSACTION_BUILD_INVALID = 422"
| "http_status SIMULATION_REJECTED = 422"
| "http_status INVALID_SIGNED_TRANSACTION = 422"
| "http_status SIGNED_TRANSACTION_MISMATCH = 422"
| "http_status INVALID_SIGNATURE = 422"
| "http_status SIGNER_NOT_AUTHORIZED = 422"
| "http_status FEE_TOO_HIGH = 503"
| "http_status XRPL_UNAVAILABLE = 503"
| "http_status SERVICE_NOT_READY = 503"
| "http_status INTERNAL_ERROR = 500"

text \<open>
  Thrown values. \<open>HttpError\<close> is a Nest \<open>HttpException\<close> with its status, the \<open>message\<close> property
  of its response (if any) and its own message; \<open>ClientTransportError\<close> any other thrown object
  with a numeric \<open>statusCode\<close>.
\<close>

datatype exn =
    ApiError error_code string "object option"
  | PlainError string
  | AccountBusyError
  | PgError string string
  | DrizzleError exn
  | ConnectionLost
  | HttpError nat "json option" string
  | ClientTransportError int

abbreviation api_error :: "error_code \<Rightarrow> string \<Rightarrow> exn" where
  "api_error c m \<equiv> ApiError c m None"

fun is_api_error :: "error_code \<Rightarrow> exn \<Rightarrow> bool" where
  "is_api_error c (ApiError c' m d) = (c' = c)"
| "is_api_error c e = False"

section \<open>The exception filter\<close>

record error_body =
  body_code :: error_code
  body_message :: string
  body_details :: "object option"

fun join :: "string \<Rightarrow> string list \<Rightarrow> string" where
  "join sep [] = []"
| "join sep [s] = s"
| "join sep (s # t # ss) = s @ sep @ join sep (t # ss)"

definition validation_message :: "json option \<Rightarrow> string \<Rightarrow> string" where
  "validation_message response_message own =
     (case response_message of
        Some (JArr items) \<Rightarrow>
          join ''; '' (map (\<lambda>v. case v of JStr s \<Rightarrow> s | _ \<Rightarrow> [])
            (filter (\<lambda>v. case v of JStr s \<Rightarrow> True | _ \<Rightarrow> False) items))
      | Some (JStr s) \<Rightarrow> s
      | _ \<Rightarrow> own)"

definition is_client_transport_error :: "exn \<Rightarrow> bool" where
  "is_client_transport_error e =
     (case e of ClientTransportError n \<Rightarrow> 400 \<le> n \<and> n < 500 | _ \<Rightarrow> False)"

definition internal_error_body :: error_body where
  "internal_error_body =
     \<lparr>body_code = INTERNAL_ERROR, body_message = ''An internal error occurred.'',
      body_details = None\<rparr>"

definition describe :: "exn \<Rightarrow> error_body" where
  "describe e =
     (case e of
        ApiError c m d \<Rightarrow> \<lparr>body_code = c, body_message = m, body_details = d\<rparr>
      | HttpError st rm own \<Rightarrow>
          if st < 500
          then \<lparr>body_code = VALIDATION_ERROR, body_message = validation_message rm own,
                body_details = None\<rparr>
          else internal_error_body
      | _ \<Rightarrow>
          if is_client_transport_error e
          then \<lparr>body_code = VALIDATION_ERROR,
                body_message = ''The request body could not be accepted.'', body_details = None\<rparr>
          else internal_error_body)"

text \<open>The reply: status line, request id (from the hook, never from the client) and body.\<close>

record error_reply =
  reply_status :: nat
  reply_request_id :: string
  reply_body :: error_body

definition filter_catch :: "exn \<Rightarrow> string \<Rightarrow> error_reply" where
  "filter_catch e request_id =
     (let b = describe e
      in \<lparr>reply_status = http_status (body_code b), reply_request_id = request_id,
          reply_body = b\<rparr>)"

section \<open>Unique violations\<close>

text \<open>
  The walk along \<open>cause\<close> that recognises a unique violation, at most five errors deep.
\<close>

fun unique_violation_within :: "nat \<Rightarrow> exn \<Rightarrow> string \<Rightarrow> bool" where
  "unique_violation_within 0 e c = False"
| "unique_violation_within (Suc n) (PgError sqlstate violated) c =
     (sqlstate = ''23505'' \<and> violated = c)"
| "unique_violation_within (Suc n) (DrizzleError e) c = unique_violation_within n e c"
| "unique_violation_within (Suc n) e c = False"

definition is_unique_violation :: "exn \<Rightarrow> string \<Rightarrow> bool" where
  "is_unique_violation e c = unique_violation_within 5 e c"

lemma is_unique_violation_simps [simp]:
  "is_unique_violation (PgError st v) c \<longleftrightarrow> st = ''23505'' \<and> v = c"
  "is_unique_violation (DrizzleError (PgError st v)) c \<longleftrightarrow> st = ''23505'' \<and> v = c"
  "\<not> is_unique_violation (PlainError m) c"
  "\<not> is_unique_violation ConnectionLost c"
  "\<not> is_unique_violation (ApiError k m d) c"
  by (simp_all add: is_unique_violation_def eval_nat_numeral)

end
