(* ===== verification/IntentState.thy ===== *)
theory IntentState
  imports Prelude
begin

text \<open>
  The intent state machine (\<open>src/intents/intent-state.ts\<close>): statuses, the transition table and
  the status groups, with what the table makes true of every path through it.
\<close>

datatype intent_type = PAYMENT | TRUST_SET

datatype intent_status =
    CREATED | PREPARED | SIMULATED | AWAITING_SIGNATURE | SIGNED | SUBMITTED
  | VALIDATED | REJECTED | EXPIRED | FAILED

definition intent_statuses :: "intent_status list" where
  "intent_statuses =
     [CREATED, PREPARED, SIMULATED, AWAITING_SIGNATURE, SIGNED, SUBMITTED,
      VALIDATED, REJECTED, EXPIRED, FAILED]"

definition terminal_statuses :: "intent_status list" where
  "terminal_statuses = [VALIDATED, REJECTED, EXPIRED, FAILED]"

definition sequence_active_statuses :: "intent_status list" where
  "sequence_active_statuses = [PREPARED, SIMULATED, AWAITING_SIGNATURE, SIGNED, SUBMITTED]"

definition unsigned_active_statuses :: "intent_status list" where
  "unsigned_active_statuses = [PREPARED, SIMULATED, AWAITING_SIGNATURE]"

definition signed_active_statuses :: "intent_status list" where
  "signed_active_statuses = [SIGNED, SUBMITTED]"

fun transitions :: "intent_status \<Rightarrow> intent_status list" where
  "transitions CREATED = [PREPARED]"
| "transitions PREPARED = [SIMULATED, EXPIRED, FAILED]"
| "transitions SIMULATED = [AWAITING_SIGNATURE, REJECTED, EXPIRED, FAILED]"
| "transitions AWAITING_SIGNATURE = [SIGNED, EXPIRED, FAILED]"
| "transitions SIGNED = [SUBMITTED, VALIDATED, REJECTED, EXPIRED, FAILED]"
| "transitions SUBMITTED = [VALIDATED, EXPIRED, FAILED]"
| "transitions VALIDATED = []"
| "transitions REJECTED = []"
| "transitions EXPIRED = []"
| "transitions FAILED = []"

definition can_transition :: "intent_status \<Rightarrow> intent_status \<Rightarrow> bool" where
  "can_transition s t \<longleftrightarrow> t \<in> set (transitions s)"

definition is_terminal :: "intent_status \<Rightarrow> bool" where
  "is_terminal s \<longleftrightarrow> s \<in> set terminal_statuses"

datatype transition_reason =
    INTENT_CREATED | TRANSACTION_PREPARED | SIMULATION_COMPLETED | SIMULATION_PASSED
  | SIMULATION_REJECTED_REASON | SIMULATION_ARTIFACT_MISMATCH | SIGNATURE_ACCEPTED
  | SIGNATURE_WINDOW_EXPIRED | TRANSACTION_SUBMITTED | MALFORMED_TRANSACTION
  | TRANSACTION_VALIDATED | LAST_LEDGER_SEQUENCE_EXPIRED | SEQUENCE_CONFLICT
  | SEQUENCE_REGRESSION | FINALITY_INTEGRITY_ERROR | UNEXPECTED_VALIDATED_RESULT

datatype failure_code =
    FC_SIMULATION_ARTIFACT_MISMATCH | FC_SEQUENCE_CONFLICT | FC_SEQUENCE_REGRESSION
  | FC_FINALITY_INTEGRITY_ERROR | FC_UNEXPECTED_VALIDATED_RESULT

text \<open>\<open>FailureCode & TransitionReason\<close>: every failure code is also a reason.\<close>

fun reason_of_failure :: "failure_code \<Rightarrow> transition_reason" where
  "reason_of_failure FC_SIMULATION_ARTIFACT_MISMATCH = SIMULATION_ARTIFACT_MISMATCH"
| "reason_of_failure FC_SEQUENCE_CONFLICT = SEQUENCE_CONFLICT"
| "reason_of_failure FC_SEQUENCE_REGRESSION = SEQUENCE_REGRESSION"
| "reason_of_failure FC_FINALITY_INTEGRITY_ERROR = FINALITY_INTEGRITY_ERROR"
| "reason_of_failure FC_UNEXPECTED_VALIDATED_RESULT = UNEXPECTED_VALIDATED_RESULT"

fun status_name :: "intent_status \<Rightarrow> string" where
  "status_name CREATED = ''CREATED''"
| "status_name PREPARED = ''PREPARED''"
| "status_name SIMULATED = ''SIMULATED''"
| "status_name AWAITING_SIGNATURE = ''AWAITING_SIGNATURE''"
| "status_name SIGNED = ''SIGNED''"
| "status_name SUBMITTED = ''SUBMITTED''"
| "status_name VALIDATED = ''VALIDATED''"
| "status_name REJECTED = ''REJECTED''"
| "status_name EXPIRED = ''EXPIRED''"
| "status_name FAILED = ''FAILED''"

fun failure_name :: "failure_code \<Rightarrow> string" where
  "failure_name FC_SIMULATION_ARTIFACT_MISMATCH = ''SIMULATION_ARTIFACT_MISMATCH''"
| "failure_name FC_SEQUENCE_CONFLICT = ''SEQUENCE_CONFLICT''"
| "failure_name FC_SEQUENCE_REGRESSION = ''SEQUENCE_REGRESSION''"
| "failure_name FC_FINALITY_INTEGRITY_ERROR = ''FINALITY_INTEGRITY_ERROR''"
| "failure_name FC_UNEXPECTED_VALIDATED_RESULT = ''UNEXPECTED_VALIDATED_RESULT''"

lemmas status_groups =
  intent_statuses_def terminal_statuses_def sequence_active_statuses_def
  unsigned_active_statuses_def signed_active_statuses_def can_transition_def is_terminal_def

section \<open>Machines whose steps climb\<close>

text \<open>
  A machine with a rank that every step raises has no cycle, and a path from \<open>s\<close> to \<open>t\<close> is no
  longer than the ranks between them.
\<close>

fun path :: "('s \<Rightarrow> 's \<Rightarrow> bool) \<Rightarrow> 's list \<Rightarrow> bool" where
  "path step [] = False"
| "path step [s] = True"
| "path step (s # t # ss) = (step s t \<and> path step (t # ss))"

lemma path_snoc: "path step ss \<Longrightarrow> step (last ss) t \<Longrightarrow> path step (ss @ [t])"
  by (induction step ss rule: path.induct) auto

locale ranked_machine =
  fixes step :: "'s \<Rightarrow> 's \<Rightarrow> bool" and rank :: "'s \<Rightarrow> nat"
  assumes step_climbs: "step s t \<Longrightarrow> rank s < rank t"
begin

lemma path_climbs: "path step ss \<Longrightarrow> rank (hd ss) + length ss \<le> rank (last ss) + 1"
proof (induction ss rule: induct_list012)
  case (3 s t ss)
  then have "rank s < rank t" by (simp add: step_climbs)
  with 3 show ?case by auto
qed auto

lemma path_ranks_increase: "path step ss \<Longrightarrow> sorted_wrt (<) (map rank ss)"
proof (induction "ss" rule: induct_list012)
  case (3 s t ss)
  then have "rank s < rank t" and "sorted_wrt (<) (map rank (t # ss))"
    using step_climbs by auto
  then show ?case by (auto intro: less_trans)
qed auto

lemma path_visits_once: "path step ss \<Longrightarrow> distinct ss"
  by (drule path_ranks_increase) (metis distinct_map strict_sorted_iff)

lemma no_cycle: "step\<^sup>+\<^sup>+ s t \<Longrightarrow> s \<noteq> t"
proof -
  assume "step\<^sup>+\<^sup>+ s t"
  then have "rank s < rank t"
    by (induction rule: tranclp_induct) (auto dest: step_climbs)
  then show "s \<noteq> t" by auto
qed

end

fun status_rank :: "intent_status \<Rightarrow> nat" where
  "status_rank CREATED = 0"
| "status_rank PREPARED = 1"
| "status_rank SIMULATED = 2"
| "status_rank AWAITING_SIGNATURE = 3"
| "status_rank SIGNED = 4"
| "status_rank SUBMITTED = 5"
| "status_rank VALIDATED = 6"
| "status_rank REJECTED = 6"
| "status_rank EXPIRED = 6"
| "status_rank FAILED = 6"

interpretation lifecycle: ranked_machine can_transition status_rank
proof unfold_locales
  fix s t assume "can_transition s t"
  then show "status_rank s < status_rank t"
    by (cases s; cases t) (simp_all add: can_transition_def)
qed

lemma status_rank_bound: "status_rank s \<le> 6"
  by (cases s) simp_all

section \<open>The groups against the table\<close>

lemma terminal_iff_no_transition: "is_terminal s \<longleftrightarrow> transitions s = []"
  by (cases s) (simp_all add: status_groups)

lemma sequence_active_iff: "s \<in> set sequence_active_statuses \<longleftrightarrow> s \<noteq> CREATED \<and> \<not> is_terminal s"
  by (cases s) (simp_all add: status_groups)

lemma active_split:
  "set sequence_active_statuses = set unsigned_active_statuses \<union> set signed_active_statuses"
  "set unsigned_active_statuses \<inter> set signed_active_statuses = {}"
  by (auto simp: status_groups)

lemma can_transition_simps [simp]:
  "can_transition CREATED t \<longleftrightarrow> t = PREPARED"
  "can_transition PREPARED t \<longleftrightarrow> t \<in> {SIMULATED, EXPIRED, FAILED}"
  "can_transition SIMULATED t \<longleftrightarrow> t \<in> {AWAITING_SIGNATURE, REJECTED, EXPIRED, FAILED}"
  "can_transition AWAITING_SIGNATURE t \<longleftrightarrow> t \<in> {SIGNED, EXPIRED, FAILED}"
  "can_transition SIGNED t \<longleftrightarrow> t \<in> {SUBMITTED, VALIDATED, REJECTED, EXPIRED, FAILED}"
  "can_transition SUBMITTED t \<longleftrightarrow> t \<in> {VALIDATED, EXPIRED, FAILED}"
  "\<not> can_transition VALIDATED t" "\<not> can_transition REJECTED t"
  "\<not> can_transition EXPIRED t" "\<not> can_transition FAILED t"
  by (auto simp: can_transition_def)

end
