(* ===== verification/Payload.thy ===== *)
theory Payload
  imports Errors IntentState
begin

text \<open>
  The canonical intent (\<open>src/intents/intent-payload.ts\<close>): its two shapes, the object stored in
  the \<open>intent_payload\<close> column and read back from it.
\<close>

datatype amount =
    XrpAmount (drops: string)
  | IssuedAmount (currency: string) (issuer: string) (amount_value: string)

datatype payload =
    PaymentIntent (account: string) (destination: string) (payment_amount: amount)
      (destination_tag: "nat option")
  | TrustSetIntent (account: string) (limit_currency: string) (limit_issuer: string)
      (limit_value: string)

fun payload_type :: "payload \<Rightarrow> intent_type" where
  "payload_type (PaymentIntent a d am t) = PAYMENT"
| "payload_type (TrustSetIntent a c i v) = TRUST_SET"

section \<open>The stored object\<close>

fun amount_object :: "amount \<Rightarrow> object" where
  "amount_object (XrpAmount d) = [(''type'', JStr ''XRP''), (''drops'', JStr d)]"
| "amount_object (IssuedAmount c i v) =
     [(''type'', JStr ''ISSUED_CURRENCY''), (''currency'', JStr c), (''issuer'', JStr i),
      (''value'', JStr v)]"

fun payload_object :: "payload \<Rightarrow> object" where
  "payload_object (PaymentIntent a d am tag) =
     [(''type'', JStr ''PAYMENT''), (''account'', JStr a), (''destination'', JStr d),
      (''amount'', JObj (amount_object am)),
      (''destinationTag'', case tag of None \<Rightarrow> JNull | Some n \<Rightarrow> JNum (int n))]"
| "payload_object (TrustSetIntent a c i v) =
     [(''type'', JStr ''TRUST_SET''), (''account'', JStr a),
      (''limitAmount'', JObj [(''currency'', JStr c), (''issuer'', JStr i), (''value'', JStr v)])]"

section \<open>Reading it back\<close>

text \<open>
  \<open>asIntentPayload\<close> checks that the stored value is an object whose \<open>type\<close> is known and then
  trusts its shape. The model reads the fields of that shape; a stored object of a known type
  with other fields, which no statement of the service writes, is refused with the same error.
\<close>

definition unknown_shape :: exn where
  "unknown_shape = PlainError ''stored intent payload has an unknown shape''"

definition as_amount :: "object \<Rightarrow> amount option" where
  "as_amount ob =
     (if field ob ''type'' = Some (JStr ''XRP'')
      then map_option XrpAmount (optional_str (field ob ''drops''))
      else case (optional_str (field ob ''currency''), optional_str (field ob ''issuer''),
                 optional_str (field ob ''value'')) of
             (Some c, Some i, Some v) \<Rightarrow> Some (IssuedAmount c i v)
           | _ \<Rightarrow> None)"

definition as_tag :: "json option \<Rightarrow> nat option option" where
  "as_tag v =
     (case v of
        Some JNull \<Rightarrow> Some None
      | Some (JNum n) \<Rightarrow> if 0 \<le> n then Some (Some (nat n)) else None
      | _ \<Rightarrow> None)"

definition as_payment :: "object \<Rightarrow> payload option" where
  "as_payment ob =
     (case (optional_str (field ob ''account''), optional_str (field ob ''destination''),
            as_record (field ob ''amount''), as_tag (field ob ''destinationTag'')) of
        (Some a, Some d, Some am, Some tag) \<Rightarrow>
          map_option (\<lambda>m. PaymentIntent a d m tag) (as_amount am)
      | _ \<Rightarrow> None)"

definition as_trust_set :: "object \<Rightarrow> payload option" where
  "as_trust_set ob =
     (case (optional_str (field ob ''account''), as_record (field ob ''limitAmount'')) of
        (Some a, Some l) \<Rightarrow>
          (case (optional_str (field l ''currency''), optional_str (field l ''issuer''),
                 optional_str (field l ''value'')) of
             (Some c, Some i, Some v) \<Rightarrow> Some (TrustSetIntent a c i v)
           | _ \<Rightarrow> None)
      | _ \<Rightarrow> None)"

definition as_intent_payload :: "json \<Rightarrow> exn + payload" where
  "as_intent_payload v =
     (case as_record (Some v) of
        None \<Rightarrow> Inl unknown_shape
      | Some ob \<Rightarrow>
          let p = (if field ob ''type'' = Some (JStr ''PAYMENT'') then as_payment ob
                   else if field ob ''type'' = Some (JStr ''TRUST_SET'') then as_trust_set ob
                   else None)
          in case p of None \<Rightarrow> Inl unknown_shape | Some x \<Rightarrow> Inr x)"

lemma as_amount_object [simp]: "as_amount (amount_object am) = Some am"
  by (cases am) (simp_all add: as_amount_def field_def optional_str_def)

lemma as_intent_payload_object [simp]: "as_intent_payload (JObj (payload_object p)) = Inr p"
proof (cases p)
  case (PaymentIntent a d am tag)
  then show ?thesis
    by (cases tag)
      (simp_all add: as_intent_payload_def as_payment_def as_record_def as_tag_def field_def
        optional_str_def)
next
  case (TrustSetIntent a c i v)
  then show ?thesis
    by (simp add: as_intent_payload_def as_trust_set_def as_record_def field_def optional_str_def)
qed

end
