(* ===== verification/Codec.thy ===== *)
theory Codec
  imports Payload
begin

text \<open>
  The transaction codec (\<open>src/xrpl/codec.ts\<close>) and the two builders (\<open>src/preparation\<close>).

  The XRPL library and Node's SHA-256 are outside the repository. They are the fields of a
  \<open>codec\<close> record, which every definition that calls them takes as an argument; \<open>Inl\<close> is a thrown
  error with its message.
\<close>

record codec =
  x_encode :: "object \<Rightarrow> string + string"
  x_decode :: "string \<Rightarrow> string + object"
  x_validate :: "object \<Rightarrow> string + unit"
  x_encode_for_signing :: "object \<Rightarrow> string + string"
  x_verify_signature :: "string \<Rightarrow> string \<Rightarrow> string \<Rightarrow> string + bool"
  x_hash_signed_tx :: "string \<Rightarrow> string + string"
  x_derive_address :: "string \<Rightarrow> string + string"
  x_is_classic_address :: "string \<Rightarrow> bool"
  x_sha256_hex :: "string \<Rightarrow> string"

section \<open>Canonical form\<close>

definition network_id_field_threshold :: nat where
  "network_id_field_threshold = 1024"

definition network_id_field :: "nat \<Rightarrow> object" where
  "network_id_field n =
     (if network_id_field_threshold < n then [(''NetworkID'', JNum (int n))] else [])"

text \<open>
  \<open>JSON.stringify\<close> prints two of these values alike exactly when they are equal, key order
  included, so the comparison of the two amounts is equality of values.
\<close>

definition to_canonical_form :: "object \<Rightarrow> string + object" where
  "to_canonical_form tx =
     (if field tx ''TransactionType'' \<noteq> Some (JStr ''Payment'') \<or> \<not> has_field tx ''DeliverMax''
      then Inr tx
      else
        let deliver_max = the (field tx ''DeliverMax''); rest = without [''DeliverMax''] tx
        in if has_field rest ''Amount'' \<and> field rest ''Amount'' \<noteq> Some deliver_max
           then Inl ''Payment has both Amount and DeliverMax with different values''
           else Inr (put ''Amount'' deliver_max rest))"

definition validate_transaction :: "codec \<Rightarrow> object \<Rightarrow> string + unit" where
  "validate_transaction X tx = rbind (to_canonical_form tx) (x_validate X)"

definition encode_transaction :: "codec \<Rightarrow> object \<Rightarrow> string + string" where
  "encode_transaction X tx =
     rbind (to_canonical_form tx) (\<lambda>c. rbind (x_encode X c) (\<lambda>b. Inr (upper b)))"

section \<open>Builders\<close>

definition last_ledger_offset :: nat where
  "last_ledger_offset = 20"

record preparation_params =
  param_fee :: string
  param_sequence :: nat
  param_last_ledger_sequence :: nat
  param_network_id :: nat

definition last_ledger_sequence_for :: "nat \<Rightarrow> nat" where
  "last_ledger_sequence_for prepared_ledger_index = js_add prepared_ledger_index last_ledger_offset"

fun deliver_max :: "amount \<Rightarrow> json" where
  "deliver_max (XrpAmount d) = JStr d"
| "deliver_max (IssuedAmount c i v) =
     JObj [(''currency'', JStr c), (''issuer'', JStr i), (''value'', JStr v)]"

definition build_payment ::
  "string \<Rightarrow> string \<Rightarrow> amount \<Rightarrow> nat option \<Rightarrow> preparation_params \<Rightarrow> object" where
  "build_payment acct dest am tag params =
     [(''TransactionType'', JStr ''Payment''),
      (''Account'', JStr acct),
      (''Destination'', JStr dest),
      (''DeliverMax'', deliver_max am)]
     @ (case tag of None \<Rightarrow> [] | Some t \<Rightarrow> [(''DestinationTag'', JNum (int t))])
     @ [(''Flags'', JNum 0),
        (''Fee'', JStr (param_fee params)),
        (''Sequence'', JNum (int (param_sequence params))),
        (''LastLedgerSequence'', JNum (int (param_last_ledger_sequence params)))]
     @ network_id_field (param_network_id params)"

definition build_trust_set ::
  "string \<Rightarrow> string \<Rightarrow> string \<Rightarrow> string \<Rightarrow> preparation_params \<Rightarrow> object" where
  "build_trust_set acct cur iss val params =
     [(''TransactionType'', JStr ''TrustSet''),
      (''Account'', JStr acct),
      (''LimitAmount'',
        JObj [(''currency'', JStr cur), (''issuer'', JStr iss), (''value'', JStr val)]),
      (''Flags'', JNum 0),
      (''Fee'', JStr (param_fee params)),
      (''Sequence'', JNum (int (param_sequence params))),
      (''LastLedgerSequence'', JNum (int (param_last_ledger_sequence params)))]
     @ network_id_field (param_network_id params)"

fun build_transaction :: "payload \<Rightarrow> preparation_params \<Rightarrow> object" where
  "build_transaction (PaymentIntent a d am tag) params = build_payment a d am tag params"
| "build_transaction (TrustSetIntent a c i v) params = build_trust_set a c i v params"

lemmas builder_defs = build_payment_def build_trust_set_def network_id_field_def

section \<open>What the builders can express\<close>

text \<open>The field names of a built transaction: a whitelist, in a fixed order.\<close>

definition payment_fields :: "string list" where
  "payment_fields =
     [''TransactionType'', ''Account'', ''Destination'', ''DeliverMax'', ''DestinationTag'',
      ''Flags'', ''Fee'', ''Sequence'', ''LastLedgerSequence'', ''NetworkID'']"

definition trust_set_fields :: "string list" where
  "trust_set_fields =
     [''TransactionType'', ''Account'', ''LimitAmount'', ''Flags'', ''Fee'', ''Sequence'',
      ''LastLedgerSequence'', ''NetworkID'']"

lemma keys_build_payment:
  "map fst (build_transaction (PaymentIntent a d am tag) params) =
     filter (\<lambda>k. (k = ''DestinationTag'' \<longrightarrow> tag \<noteq> None) \<and>
       (k = ''NetworkID'' \<longrightarrow> network_id_field_threshold < param_network_id params)) payment_fields"
  by (cases tag) (simp_all add: builder_defs payment_fields_def)

lemma keys_build_trust_set:
  "map fst (build_transaction (TrustSetIntent a c i v) params) =
     filter (\<lambda>k. k = ''NetworkID'' \<longrightarrow> network_id_field_threshold < param_network_id params)
       trust_set_fields"
  by (simp add: builder_defs trust_set_fields_def)

lemma distinct_build_transaction: "distinct (map fst (build_transaction p params))"
proof (cases p)
  case (PaymentIntent a d am tag)
  show ?thesis
    unfolding PaymentIntent keys_build_payment by (rule distinct_filter) (simp add: payment_fields_def)
next
  case (TrustSetIntent a c i v)
  show ?thesis
    unfolding TrustSetIntent keys_build_trust_set
    by (rule distinct_filter) (simp add: trust_set_fields_def)
qed

lemma build_transaction_field_simps:
  "field (build_transaction p params) ''Account'' = Some (JStr (account p))"
  "field (build_transaction p params) ''Flags'' = Some (JNum 0)"
  "field (build_transaction p params) ''Fee'' = Some (JStr (param_fee params))"
  "field (build_transaction p params) ''Sequence'' = Some (JNum (int (param_sequence params)))"
  "field (build_transaction p params) ''LastLedgerSequence'' =
     Some (JNum (int (param_last_ledger_sequence params)))"
  "field (build_transaction p params) ''NetworkID'' =
     (if network_id_field_threshold < param_network_id params
      then Some (JNum (int (param_network_id params))) else None)"
  by (cases p; simp add: builder_defs field_def split: option.split)+

text \<open>A built transaction always has a canonical form, with the amount under \<open>Amount\<close>.\<close>

lemma to_canonical_form_build:
  "to_canonical_form (build_transaction p params) =
     Inr (case p of
        PaymentIntent a d am tag \<Rightarrow>
          without [''DeliverMax''] (build_transaction p params) @ [(''Amount'', deliver_max am)]
      | TrustSetIntent a c i v \<Rightarrow> build_transaction p params)"
proof (cases p)
  case (PaymentIntent a d am tag)
  then show ?thesis
    by (cases tag)
      (simp_all add: to_canonical_form_def builder_defs field_def has_field_def without_def)
next
  case (TrustSetIntent a c i v)
  then show ?thesis
    by (simp add: to_canonical_form_def builder_defs field_def)
qed

text \<open>Canonical form only renames: every other field is the one of the transaction.\<close>

lemma to_canonical_form_fields:
  assumes "to_canonical_form tx = Inr c" and "k \<noteq> ''DeliverMax''" and "k \<noteq> ''Amount''"
  shows "field c k = field tx k"
  using assms by (auto simp: to_canonical_form_def Let_def field_put field_without split: if_splits)

lemma last_ledger_sequence_for_gt: "n < last_ledger_sequence_for n"
  by (simp add: last_ledger_sequence_for_def last_ledger_offset_def js_add_gt)

end
