(* ===== verification/Schema.thy ===== *)
theory Schema
  imports Effects Codec
begin

text \<open>
  The tables of \<open>src/database/schema.ts\<close> and the memory the services share: rows as records with
  the columns of the schema, the check constraints and unique indexes as the database enforces
  them. A nullable column is an \<open>option\<close>; time is a number of milliseconds read from \<open>clock\<close>.
\<close>

record intent_row =
  intent_id :: string
  idempotency_key :: string
  request_hash :: string
  network_id :: nat
  intent_type :: intent_type
  source_account :: string
  status :: intent_status
  intent_payload :: json
  prepared_tx_json :: "json option"
  prepared_tx_blob :: "string option"
  prepared_ledger_index :: "nat option"
  sequence :: "nat option"
  fee_drops :: "string option"
  last_ledger_sequence :: "nat option"
  simulation_engine_result :: "string option"
  simulation_result :: "json option"
  signed_tx_blob :: "string option"
  transaction_hash :: "string option"
  signing_pub_key :: "string option"
  submission_attempt_count :: nat
  submission_validated_ledger :: "nat option"
  submit_engine_result :: "string option"
  submit_response :: "json option"
  last_submit_attempt_at :: "nat option"
  final_result :: "string option"
  final_ledger_index :: "nat option"
  final_ledger_hash :: "string option"
  final_tx_json :: "json option"
  final_meta :: "json option"
  failure_code :: "failure_code option"
  created_at :: nat
  prepared_at :: "nat option"
  simulated_at :: "nat option"
  signed_at :: "nat option"
  submitted_at :: "nat option"
  finalized_at :: "nat option"
  updated_at :: nat

record transition_row =
  transition_id :: nat
  transition_intent :: string
  from_status :: "intent_status option"
  to_status :: intent_status
  reason_code :: transition_reason
  transition_details :: "object option"
  transition_created_at :: nat

datatype finality_health = STARTING | HEALTHY | DEGRADED

text \<open>
  What all handlers share: the two tables with the sequence behind the audit key, the wall clock,
  and the memory of the finality service, which a restart loses.
\<close>

record world =
  intents :: "intent_row list"
  trail :: "transition_row list"
  next_transition_id :: nat
  clock :: nat
  health :: finality_health
  recovered :: bool
  last_successful_cycle_at :: "nat option"

section \<open>Check constraints\<close>

definition hash64 :: "string \<Rightarrow> bool" where
  "hash64 s \<longleftrightarrow> length s = 64 \<and> all_in ''ABCDEF0123456789'' s"

definition uint32_max :: nat where
  "uint32_max = 4294967295"

definition optional_check :: "'a option \<Rightarrow> ('a \<Rightarrow> bool) \<Rightarrow> bool" where
  "optional_check v P = (case v of None \<Rightarrow> True | Some x \<Rightarrow> P x)"

text \<open>
  Column types first (\<open>varchar(128)\<close>, 32-bit \<open>integer\<close>), then the named checks. A comparison
  with NULL is unknown, and an unknown check passes.
\<close>

definition check_constraints :: "(string \<times> (intent_row \<Rightarrow> bool)) list" where
  "check_constraints =
     [(''idempotency_key'', \<lambda>r. length (idempotency_key r) \<le> 128),
      (''submission_attempt_count'', \<lambda>r. submission_attempt_count r \<le> 2147483647),
      (''transaction_intents_fee_drops_check'',
        \<lambda>r. optional_check (fee_drops r) (\<lambda>f. 0 < nat_of_digits f)),
      (''transaction_intents_last_ledger_sequence_check'',
        \<lambda>r. optional_check (last_ledger_sequence r)
             (\<lambda>l. optional_check (prepared_ledger_index r) (\<lambda>p. p < l))),
      (''transaction_intents_network_id_check'', \<lambda>r. network_id r \<le> uint32_max),
      (''transaction_intents_prepared_ledger_index_check'',
        \<lambda>r. optional_check (prepared_ledger_index r) (\<lambda>p. 0 < p)),
      (''transaction_intents_request_hash_check'', \<lambda>r. hash64 (request_hash r)),
      (''transaction_intents_transaction_hash_check'',
        \<lambda>r. optional_check (transaction_hash r) hash64)]"

definition row_checks :: "intent_row \<Rightarrow> bool" where
  "row_checks r \<longleftrightarrow> list_all (\<lambda>(n, ok). ok r) check_constraints"

section \<open>Unique indexes\<close>

definition is_sequence_active :: "intent_row \<Rightarrow> bool" where
  "is_sequence_active r \<longleftrightarrow> status r \<in> set sequence_active_statuses"

definition sequence_active_index :: string where
  "sequence_active_index = ''transaction_intents_sequence_active_account_key''"

definition same_sequence_owner :: "intent_row \<Rightarrow> intent_row \<Rightarrow> bool" where
  "same_sequence_owner p r \<longleftrightarrow>
     is_sequence_active p \<and> is_sequence_active r \<and>
     network_id p = network_id r \<and> source_account p = source_account r"

definition same_transaction_hash :: "intent_row \<Rightarrow> intent_row \<Rightarrow> bool" where
  "same_transaction_hash p r \<longleftrightarrow>
     transaction_hash p \<noteq> None \<and> transaction_hash p = transaction_hash r"

definition unique_indexes :: "(string \<times> (intent_row \<Rightarrow> intent_row \<Rightarrow> bool)) list" where
  "unique_indexes =
     [(''transaction_intents_pkey'', \<lambda>p r. intent_id p = intent_id r),
      (''transaction_intents_idempotency_key_key'', \<lambda>p r. idempotency_key p = idempotency_key r),
      (sequence_active_index, same_sequence_owner),
      (''transaction_intents_transaction_hash_key'', same_transaction_hash)]"

definition row_clash :: "intent_row \<Rightarrow> intent_row \<Rightarrow> bool" where
  "row_clash p r \<longleftrightarrow> list_ex (\<lambda>(n, c). c p r) unique_indexes"

text \<open>
  The verdict of the database on a candidate row against the other rows: \<open>None\<close>, or the error of
  the first violated check or index, as the query builder reports it.
\<close>

definition constraint_error :: "intent_row list \<Rightarrow> intent_row \<Rightarrow> exn option" where
  "constraint_error others r =
     (case find (\<lambda>(n, ok). \<not> ok r) check_constraints of
        Some (n, _) \<Rightarrow> Some (DrizzleError (PgError ''23514'' n))
      | None \<Rightarrow>
          (case find (\<lambda>(n, c). list_ex (\<lambda>p. c p r) others) unique_indexes of
             Some (n, _) \<Rightarrow> Some (DrizzleError (PgError ''23505'' n))
           | None \<Rightarrow> None))"

lemma constraint_error_None_iff:
  "constraint_error others r = None \<longleftrightarrow> row_checks r \<and> (\<forall>p \<in> set others. \<not> row_clash p r)"
proof -
  have checks: "find (\<lambda>(n, ok). \<not> ok r) check_constraints = None \<longleftrightarrow> row_checks r"
    by (auto simp: find_None_iff row_checks_def list_all_iff)
  have indexes: "find (\<lambda>(n, c). list_ex (\<lambda>p. c p r) others) unique_indexes = None \<longleftrightarrow>
      (\<forall>p \<in> set others. \<not> row_clash p r)"
    by (auto simp: find_None_iff row_clash_def list_ex_iff)
  show ?thesis
    using checks indexes by (auto simp: constraint_error_def split: option.splits)
qed

lemma row_clash_iff:
  "row_clash p r \<longleftrightarrow>
     intent_id p = intent_id r \<or> idempotency_key p = idempotency_key r \<or>
     same_sequence_owner p r \<or> same_transaction_hash p r"
  by (simp add: row_clash_def unique_indexes_def)

lemma row_clash_sym: "row_clash p r = row_clash r p"
  by (auto simp: row_clash_iff same_sequence_owner_def same_transaction_hash_def)

text \<open>The whole table is as the constraints demand.\<close>

definition table_ok :: "intent_row list \<Rightarrow> bool" where
  "table_ok rs \<longleftrightarrow> list_all row_checks rs \<and> sorted_wrt (\<lambda>p r. \<not> row_clash p r) rs"

lemma sorted_wrt_sym_iff:
  assumes "\<And>x y. P x y = P y x"
  shows "sorted_wrt P xs \<Longrightarrow> x \<in> set xs \<Longrightarrow> y \<in> set xs \<Longrightarrow> x = y \<or> P x y"
  using assms by (induction xs) auto

lemma table_ok_no_clash:
  "table_ok rs \<Longrightarrow> p \<in> set rs \<Longrightarrow> r \<in> set rs \<Longrightarrow> row_clash p r \<Longrightarrow> p = r"
  using sorted_wrt_sym_iff[of "\<lambda>p r. \<not> row_clash p r" rs p r]
  by (auto simp: table_ok_def row_clash_sym)

lemma table_ok_distinct_ids: "table_ok rs \<Longrightarrow> distinct (map intent_id rs)"
  unfolding table_ok_def by (induction rs) (auto simp: row_clash_iff)

lemma table_ok_snoc:
  "table_ok (rs @ [r]) \<longleftrightarrow> table_ok rs \<and> row_checks r \<and> (\<forall>p \<in> set rs. \<not> row_clash p r)"
  by (auto simp: table_ok_def sorted_wrt_append)

end
