(* ===== verification/Store.thy ===== *)
theory Store
  imports Schema "HOL-Library.Char_ord" "HOL-Library.List_Lexorder" "HOL-Library.Product_Lexorder"
begin

text \<open>
  The repositories (\<open>src/intents/intents.repository.ts\<close>, \<open>transitions.repository.ts\<close>,
  \<open>src/database/database.service.ts\<close>). A method is a function on the shared state that returns
  its result or the thrown error; \<open>db\<close> makes it one awaited transaction. A transaction that locks
  its row and relies on the unique indexes is atomic to every other one, so each is one step.
\<close>

definition db :: "(world \<Rightarrow> (exn + 'r) \<times> world) \<Rightarrow> (world, exn, 'q, 'a, 'r) io" where
  "db f = transaction ConnectionLost f"

text \<open>\<open>new Date()\<close>, and the \<open>required\<close> of the services: a column that must be set by now.\<close>

definition current_time :: "(world, exn, 'q, 'a, nat) io" where
  "current_time = sync (\<lambda>w. (Inr (clock w), w))"

definition missing_column :: "string \<Rightarrow> exn" where
  "missing_column col = PlainError (''intent column '' @ col @ '' is unexpectedly null'')"

definition required :: "'c option \<Rightarrow> string \<Rightarrow> (world, exn, 'q, 'a, 'c) io" where
  "required v col =
     lift_result (case v of None \<Rightarrow> Inl (missing_column col) | Some x \<Rightarrow> Inr x)"

lemma run_current_time [run_simps]: "run env current_time tr w = (Inr (clock w), tr, w)"
  by (simp add: current_time_def run_sync)

section \<open>Patches\<close>

text \<open>
  \<open>IntentPatch\<close>: the column assignments of a \<open>set\<close> clause. The identity columns and the status
  are not among them. \<open>IncrementAttemptCount\<close> is the SQL expression
  \<open>submission_attempt_count + 1\<close>.
\<close>

datatype column =
    PreparedTxJson json | PreparedTxBlob string | PreparedLedgerIndex nat | Sequence nat
  | FeeDrops string | LastLedgerSequence nat | PreparedAt nat
  | SimulationEngineResult string | SimulationResult json | SimulatedAt nat
  | SignedTxBlob string | TransactionHash string | SigningPubKey string | SignedAt nat
  | SubmissionValidatedLedger nat | SubmitEngineResult string | SubmitResponse json
  | IncrementAttemptCount | LastSubmitAttemptAt nat | SubmittedAt nat
  | FinalResult string | FinalLedgerIndex nat | FinalLedgerHash "string option"
  | FinalTxJson "json option" | FinalMeta "json option" | FinalizedAt nat
  | FailureCode failure_code

fun set_column :: "column \<Rightarrow> intent_row \<Rightarrow> intent_row" where
  "set_column (PreparedTxJson v) r = r\<lparr>prepared_tx_json := Some v\<rparr>"
| "set_column (PreparedTxBlob v) r = r\<lparr>prepared_tx_blob := Some v\<rparr>"
| "set_column (PreparedLedgerIndex v) r = r\<lparr>prepared_ledger_index := Some v\<rparr>"
| "set_column (Sequence v) r = r\<lparr>sequence := Some v\<rparr>"
| "set_column (FeeDrops v) r = r\<lparr>fee_drops := Some v\<rparr>"
| "set_column (LastLedgerSequence v) r = r\<lparr>last_ledger_sequence := Some v\<rparr>"
| "set_column (PreparedAt v) r = r\<lparr>prepared_at := Some v\<rparr>"
| "set_column (SimulationEngineResult v) r = r\<lparr>simulation_engine_result := Some v\<rparr>"
| "set_column (SimulationResult v) r = r\<lparr>simulation_result := Some v\<rparr>"
| "set_column (SimulatedAt v) r = r\<lparr>simulated_at := Some v\<rparr>"
| "set_column (SignedTxBlob v) r = r\<lparr>signed_tx_blob := Some v\<rparr>"
| "set_column (TransactionHash v) r = r\<lparr>transaction_hash := Some v\<rparr>"
| "set_column (SigningPubKey v) r = r\<lparr>signing_pub_key := Some v\<rparr>"
| "set_column (SignedAt v) r = r\<lparr>signed_at := Some v\<rparr>"
| "set_column (SubmissionValidatedLedger v) r = r\<lparr>submission_validated_ledger := Some v\<rparr>"
| "set_column (SubmitEngineResult v) r = r\<lparr>submit_engine_result := Some v\<rparr>"
| "set_column (SubmitResponse v) r = r\<lparr>submit_response := Some v\<rparr>"
| "set_column IncrementAttemptCount r =
     r\<lparr>submission_attempt_count := submission_attempt_count r + 1\<rparr>"
| "set_column (LastSubmitAttemptAt v) r = r\<lparr>last_submit_attempt_at := Some v\<rparr>"
| "set_column (SubmittedAt v) r = r\<lparr>submitted_at := Some v\<rparr>"
| "set_column (FinalResult v) r = r\<lparr>final_result := Some v\<rparr>"
| "set_column (FinalLedgerIndex v) r = r\<lparr>final_ledger_index := Some v\<rparr>"
| "set_column (FinalLedgerHash v) r = r\<lparr>final_ledger_hash := v\<rparr>"
| "set_column (FinalTxJson v) r = r\<lparr>final_tx_json := v\<rparr>"
| "set_column (FinalMeta v) r = r\<lparr>final_meta := v\<rparr>"
| "set_column (FinalizedAt v) r = r\<lparr>finalized_at := Some v\<rparr>"
| "set_column (FailureCode v) r = r\<lparr>failure_code := Some v\<rparr>"

definition apply_patch :: "column list \<Rightarrow> intent_row \<Rightarrow> intent_row" where
  "apply_patch cols r = fold set_column cols r"

lemma set_column_frame [simp]:
  "intent_id (set_column c r) = intent_id r" "idempotency_key (set_column c r) = idempotency_key r"
  "request_hash (set_column c r) = request_hash r" "network_id (set_column c r) = network_id r"
  "intent_type (set_column c r) = intent_type r" "source_account (set_column c r) = source_account r"
  "status (set_column c r) = status r" "intent_payload (set_column c r) = intent_payload r"
  "created_at (set_column c r) = created_at r" "updated_at (set_column c r) = updated_at r"
  by (cases c; simp)+

lemma apply_patch_frame [simp]:
  "intent_id (apply_patch cs r) = intent_id r"
  "idempotency_key (apply_patch cs r) = idempotency_key r"
  "request_hash (apply_patch cs r) = request_hash r" "network_id (apply_patch cs r) = network_id r"
  "intent_type (apply_patch cs r) = intent_type r"
  "source_account (apply_patch cs r) = source_account r"
  "status (apply_patch cs r) = status r" "intent_payload (apply_patch cs r) = intent_payload r"
  "created_at (apply_patch cs r) = created_at r" "updated_at (apply_patch cs r) = updated_at r"
  unfolding apply_patch_def by (induction cs arbitrary: r) simp_all

lemma apply_patch_simps [simp]:
  "apply_patch [] r = r"
  "apply_patch (c # cs) r = apply_patch cs (set_column c r)"
  by (simp_all add: apply_patch_def)

section \<open>Transitions\<close>

definition find_row :: "string \<Rightarrow> world \<Rightarrow> intent_row option" where
  "find_row i w = find (\<lambda>r. intent_id r = i) (intents w)"

definition insert_transition ::
  "string \<Rightarrow> intent_status option \<Rightarrow> intent_status \<Rightarrow> transition_reason \<Rightarrow> object option
    \<Rightarrow> world \<Rightarrow> world" where
  "insert_transition i from to reason details w =
     w\<lparr>trail := trail w @
          [\<lparr>transition_id = next_transition_id w, transition_intent = i, from_status = from,
            to_status = to, reason_code = reason, transition_details = details,
            transition_created_at = clock w\<rparr>],
       next_transition_id := next_transition_id w + 1\<rparr>"

text \<open>
  An UPDATE of the row with one id: the constraints are checked against the other rows, and a
  violated one leaves the table as it was.
\<close>

definition update_row :: "intent_row \<Rightarrow> world \<Rightarrow> exn + world" where
  "update_row new w =
     (case constraint_error (filter (\<lambda>p. intent_id p \<noteq> intent_id new) (intents w)) new of
        Some e \<Rightarrow> Inl e
      | None \<Rightarrow>
          Inr (w\<lparr>intents := map_where (\<lambda>p. intent_id p = intent_id new) (\<lambda>_. new) (intents w)\<rparr>))"

record transition_request =
  request_from :: "intent_status list"
  request_to :: intent_status
  request_reason :: transition_reason
  request_details :: "object option"
  request_patch :: "column list"

definition transition_tx ::
  "string \<Rightarrow> transition_request \<Rightarrow> world \<Rightarrow> (exn + intent_row option) \<times> world" where
  "transition_tx i req w =
     (case find_row i w of
        None \<Rightarrow> (Inr None, w)
      | Some current \<Rightarrow>
          if status current \<notin> set (request_from req) then (Inr None, w)
          else if \<not> can_transition (status current) (request_to req)
          then (Inl (PlainError (''illegal transition '' @ status_name (status current) @ '' -> ''
                                 @ status_name (request_to req))), w)
          else
            let updated = (apply_patch (request_patch req) current)
                            \<lparr>status := request_to req, updated_at := clock w\<rparr>
            in case update_row updated w of
                 Inl e \<Rightarrow> (Inl e, w)
               | Inr w1 \<Rightarrow>
                   (Inr (Some updated),
                    insert_transition i (Some (status current)) (request_to req)
                      (request_reason req) (request_details req) w1))"

definition transition ::
  "string \<Rightarrow> transition_request \<Rightarrow> (world, exn, 'q, 'a, intent_row option) io" where
  "transition i req =
     try_catch (db (transition_tx i req))
       (\<lambda>e. if is_unique_violation e sequence_active_index then Throw AccountBusyError else Throw e)"

text \<open>Non-status columns, while the intent is still in one of the given statuses.\<close>

definition update_in_status_tx ::
  "string \<Rightarrow> intent_status list \<Rightarrow> column list \<Rightarrow> world \<Rightarrow> (exn + intent_row option) \<times> world" where
  "update_in_status_tx i statuses patch w =
     (case find_row i w of
        None \<Rightarrow> (Inr None, w)
      | Some current \<Rightarrow>
          if status current \<notin> set statuses then (Inr None, w)
          else
            let updated = (apply_patch patch current)\<lparr>updated_at := clock w\<rparr>
            in case update_row updated w of
                 Inl e \<Rightarrow> (Inl e, w)
               | Inr w1 \<Rightarrow> (Inr (Some updated), w1))"

definition update_in_status ::
  "string \<Rightarrow> intent_status list \<Rightarrow> column list \<Rightarrow> (world, exn, 'q, 'a, intent_row option) io" where
  "update_in_status i statuses patch = db (update_in_status_tx i statuses patch)"

section \<open>Creation and reads\<close>

text \<open>
  \<open>ON CONFLICT (idempotency_key) DO NOTHING\<close> skips the insert when another row has the key; any
  other violation is an error.
\<close>

definition create_idempotent_tx ::
  "intent_row \<Rightarrow> world \<Rightarrow> (exn + bool \<times> intent_row) \<times> world" where
  "create_idempotent_tx row w =
     (case find (\<lambda>r. idempotency_key r = idempotency_key row) (intents w) of
        Some existing \<Rightarrow> (Inr (False, existing), w)
      | None \<Rightarrow>
          (case constraint_error (intents w) row of
             Some e \<Rightarrow> (Inl e, w)
           | None \<Rightarrow>
               (Inr (True, row),
                insert_transition (intent_id row) None CREATED INTENT_CREATED None
                  (w\<lparr>intents := intents w @ [row]\<rparr>))))"

definition create_idempotent ::
  "intent_row \<Rightarrow> (world, exn, 'q, 'a, bool \<times> intent_row) io" where
  "create_idempotent row = db (create_idempotent_tx row)"

definition find_by_id :: "string \<Rightarrow> (world, exn, 'q, 'a, intent_row option) io" where
  "find_by_id i = db (\<lambda>w. (Inr (find_row i w), w))"

text \<open>The private \<open>load\<close> of the services.\<close>

definition load :: "string \<Rightarrow> (world, exn, 'q, 'a, intent_row) io" where
  "load i =
     await (find_by_id i) (\<lambda>row.
       case row of
         None \<Rightarrow> Throw (api_error INTENT_NOT_FOUND ''Intent not found.'')
       | Some r \<Rightarrow> Return r)"

definition find_by_statuses ::
  "intent_status list \<Rightarrow> (world, exn, 'q, 'a, intent_row list) io" where
  "find_by_statuses statuses =
     db (\<lambda>w. (Inr (sort_key (\<lambda>r. (created_at r, intent_id r))
                (filter (\<lambda>r. status r \<in> set statuses) (intents w))), w))"

text \<open>The keyset filter of \<open>list\<close>: newest first, strictly older than the cursor.\<close>

record list_filter =
  filter_type :: "intent_type option"
  filter_status :: "intent_status option"
  filter_account :: "string option"
  filter_before :: "(int \<times> string) option"
  filter_limit :: nat

definition list_matches :: "list_filter \<Rightarrow> intent_row \<Rightarrow> bool" where
  "list_matches f r \<longleftrightarrow>
     optional_check (filter_type f) (\<lambda>t. intent_type r = t) \<and>
     optional_check (filter_status f) (\<lambda>s. status r = s) \<and>
     optional_check (filter_account f) (\<lambda>a. source_account r = a) \<and>
     optional_check (filter_before f)
       (\<lambda>(t, i). int (created_at r) < t \<or> (int (created_at r) = t \<and> intent_id r < i))"

definition list_rows :: "list_filter \<Rightarrow> world \<Rightarrow> intent_row list" where
  "list_rows f w =
     take (filter_limit f)
       (rev (sort_key (\<lambda>r. (created_at r, intent_id r)) (filter (list_matches f) (intents w))))"

definition list_intents :: "list_filter \<Rightarrow> (world, exn, 'q, 'a, intent_row list) io" where
  "list_intents f = db (\<lambda>w. (Inr (list_rows f w), w))"

definition trail_of :: "string \<Rightarrow> world \<Rightarrow> transition_row list" where
  "trail_of i w = filter (\<lambda>t. transition_intent t = i) (trail w)"

definition list_by_intent :: "string \<Rightarrow> (world, exn, 'q, 'a, transition_row list) io" where
  "list_by_intent i = db (\<lambda>w. (Inr (sort_key transition_id (trail_of i w)), w))"

definition count_by_status :: "(world, exn, 'q, 'a, intent_status \<Rightarrow> nat option) io" where
  "count_by_status =
     db (\<lambda>w. (Inr (\<lambda>s. let n = length (filter (\<lambda>r. status r = s) (intents w))
                       in if n = 0 then None else Some n), w))"

end
