(* ===== verification/StoreLaws.thy ===== *)
theory StoreLaws
  imports Store
begin

text \<open>
  What the repositories keep true whatever their callers ask: the constraints of the schema, and
  an audit trail that is, for every intent, a path of the state machine from CREATED to its
  current status. The contract the services rely on is the locale \<open>intent_store\<close>; the store above
  is its interpretation.
\<close>

section \<open>Rows and updates\<close>

lemma table_ok_iff:
  "table_ok rs \<longleftrightarrow> (\<forall>r \<in> set rs. row_checks r) \<and> distinct (map intent_id rs) \<and>
     (\<forall>p \<in> set rs. \<forall>r \<in> set rs. row_clash p r \<longrightarrow> intent_id p = intent_id r)"
proof -
  have "sorted_wrt (\<lambda>p r. \<not> row_clash p r) rs \<longleftrightarrow> distinct (map intent_id rs) \<and>
      (\<forall>p \<in> set rs. \<forall>r \<in> set rs. intent_id p \<noteq> intent_id r \<longrightarrow> \<not> row_clash p r)"
    by (rule sorted_wrt_iff_distinct_keys) (simp_all add: row_clash_sym, simp add: row_clash_iff)
  then show ?thesis by (auto simp: table_ok_def list_all_iff)
qed

lemma find_row_Some_iff:
  "table_ok (intents w) \<Longrightarrow> find_row i w = Some r \<longleftrightarrow> r \<in> set (intents w) \<and> intent_id r = i"
  unfolding find_row_def
  by (auto dest: find_Some_in table_ok_distinct_ids intro: find_key_unique)

lemma find_row_SomeD: "find_row i w = Some r \<Longrightarrow> r \<in> set (intents w) \<and> intent_id r = i"
  unfolding find_row_def by (rule find_Some_in)

lemma map_key_replace:
  "map key (map_where (\<lambda>p. key p = key new) (\<lambda>_. new) rs) = map key rs"
  by (induction rs) (auto simp: map_where_def)

lemma update_row_InrD:
  assumes "update_row new w = Inr w1"
  shows "w1 = w\<lparr>intents := map_where (\<lambda>p. intent_id p = intent_id new) (\<lambda>_. new) (intents w)\<rparr>"
    and "row_checks new"
    and "\<And>p. p \<in> set (intents w) \<Longrightarrow> intent_id p \<noteq> intent_id new \<Longrightarrow> \<not> row_clash p new"
  using assms
  by (auto simp: update_row_def constraint_error_None_iff split: option.splits)

lemma update_row_table_ok:
  assumes "table_ok (intents w)" and "update_row new w = Inr w1"
  shows "table_ok (intents w1)"
proof -
  note u = update_row_InrD[OF assms(2)]
  have set1: "r = new \<or> r \<in> set (intents w) \<and> intent_id r \<noteq> intent_id new"
    if "r \<in> set (intents w1)" for r
    using that by (auto simp: u(1) set_map_where split: if_splits)
  have "distinct (map intent_id (intents w1))"
    using table_ok_distinct_ids[OF assms(1)] by (simp add: u(1) map_key_replace)
  moreover have "\<forall>r \<in> set (intents w1). row_checks r"
    using set1 u(2) assms(1) unfolding table_ok_iff by blast
  moreover have "intent_id p = intent_id r"
    if "p \<in> set (intents w1)" "r \<in> set (intents w1)" "row_clash p r" for p r
    using set1[OF that(1)] set1[OF that(2)] that(3) u(3)[of p] u(3)[of r] row_clash_sym[of p r]
      assms(1) unfolding table_ok_iff by blast
  ultimately show ?thesis unfolding table_ok_iff by blast
qed

lemma find_row_update:
  assumes "update_row new w = Inr w1" and "find_row (intent_id new) w = Some old"
  shows "find_row j w1 = (if j = intent_id new then Some new else find_row j w)"
proof -
  have "find (\<lambda>r. intent_id r = j) (map_where (\<lambda>p. intent_id p = intent_id new) (\<lambda>_. new) rs) =
      (if j = intent_id new \<and> (\<exists>r \<in> set rs. intent_id r = j) then Some new
       else find (\<lambda>r. intent_id r = j) rs)" for rs
    by (induction rs) (auto simp: map_where_def)
  with assms(2) find_row_SomeD[OF assms(2)] show ?thesis
    by (auto simp: find_row_def update_row_InrD(1)[OF assms(1)])
qed

lemma find_row_insert_transition [simp]:
  "find_row j (insert_transition i from to reason details w) = find_row j w"
  by (simp add: find_row_def insert_transition_def)

lemma intents_insert_transition [simp]:
  "intents (insert_transition i from to reason details w) = intents w"
  by (simp add: insert_transition_def)

lemma trail_of_insert_transition:
  "trail_of j (insert_transition i from to reason details w) =
     trail_of j w @
     (if j = i then [\<lparr>transition_id = next_transition_id w, transition_intent = i,
        from_status = from, to_status = to, reason_code = reason, transition_details = details,
        transition_created_at = clock w\<rparr>] else [])"
  by (auto simp: trail_of_def insert_transition_def)

section \<open>Cases of the three writing methods\<close>

lemma transition_tx_cases:
  obtains (Stale) "transition_tx i req w = (Inr None, w)"
      "\<And>r. find_row i w = Some r \<Longrightarrow> status r \<notin> set (request_from req)"
  | (Refused) e where "transition_tx i req w = (Inl e, w)"
  | (Moved) r r' w1 where "find_row i w = Some r" "status r \<in> set (request_from req)"
      "can_transition (status r) (request_to req)"
      "r' = (apply_patch (request_patch req) r)\<lparr>status := request_to req, updated_at := clock w\<rparr>"
      "update_row r' w = Inr w1"
      "transition_tx i req w =
         (Inr (Some r'), insert_transition i (Some (status r)) (request_to req)
            (request_reason req) (request_details req) w1)"
proof (cases "find_row i w")
  case None
  then show ?thesis using Stale by (simp add: transition_tx_def)
next
  case (Some r)
  let ?r' = "(apply_patch (request_patch req) r)\<lparr>status := request_to req, updated_at := clock w\<rparr>"
  consider "status r \<notin> set (request_from req)"
    | "status r \<in> set (request_from req)" "\<not> can_transition (status r) (request_to req)"
    | "status r \<in> set (request_from req)" "can_transition (status r) (request_to req)"
    by blast
  then show ?thesis
  proof cases
    case 1
    then show ?thesis using Some Stale by (simp add: transition_tx_def)
  next
    case 2
    then show ?thesis using Some Refused by (simp add: transition_tx_def)
  next
    case 3
    show ?thesis
    proof (cases "update_row ?r' w")
      case (Inl e)
      then show ?thesis using Some 3 Refused by (simp add: transition_tx_def)
    next
      case (Inr w1)
      then show ?thesis
        using Some 3 by (intro Moved[of r ?r' w1]) (simp_all add: transition_tx_def)
    qed
  qed
qed

lemma update_in_status_tx_cases:
  obtains (Stale) "update_in_status_tx i ss cols w = (Inr None, w)"
      "\<And>r. find_row i w = Some r \<Longrightarrow> status r \<notin> set ss"
  | (Refused) e where "update_in_status_tx i ss cols w = (Inl e, w)"
  | (Updated) r r' w1 where "find_row i w = Some r" "status r \<in> set ss"
      "r' = (apply_patch cols r)\<lparr>updated_at := clock w\<rparr>"
      "update_row r' w = Inr w1" "update_in_status_tx i ss cols w = (Inr (Some r'), w1)"
proof (cases "find_row i w")
  case None
  then show ?thesis using Stale by (simp add: update_in_status_tx_def)
next
  case (Some r)
  let ?r' = "(apply_patch cols r)\<lparr>updated_at := clock w\<rparr>"
  show ?thesis
  proof (cases "status r \<in> set ss")
    case False
    then show ?thesis using Some Stale by (simp add: update_in_status_tx_def)
  next
    case True
    show ?thesis
    proof (cases "update_row ?r' w")
      case (Inl e)
      then show ?thesis using Some True Refused by (simp add: update_in_status_tx_def)
    next
      case (Inr w1)
      then show ?thesis
        using Some True by (intro Updated[of r ?r' w1]) (simp_all add: update_in_status_tx_def)
    qed
  qed
qed

lemma create_idempotent_tx_cases:
  obtains (Existing) r where "r \<in> set (intents w)" "idempotency_key r = idempotency_key row"
      "create_idempotent_tx row w = (Inr (False, r), w)"
  | (Refused) e where "create_idempotent_tx row w = (Inl e, w)"
  | (Inserted) "row_checks row" "\<forall>p \<in> set (intents w). \<not> row_clash p row"
      "create_idempotent_tx row w =
         (Inr (True, row), insert_transition (intent_id row) None CREATED INTENT_CREATED None
            (w\<lparr>intents := intents w @ [row]\<rparr>))"
proof (cases "find (\<lambda>r. idempotency_key r = idempotency_key row) (intents w)")
  case (Some r)
  then show ?thesis
    using Existing[of r] find_Some_in[OF Some] by (simp add: create_idempotent_tx_def)
next
  case None
  show ?thesis
  proof (cases "constraint_error (intents w) row")
    case (Some e)
    then show ?thesis using None Refused by (simp add: create_idempotent_tx_def)
  next
    case None': None
    then have "row_checks row \<and> (\<forall>p \<in> set (intents w). \<not> row_clash p row)"
      by (simp add: constraint_error_None_iff)
    with None None' show ?thesis using Inserted by (simp add: create_idempotent_tx_def)
  qed
qed

section \<open>The audit trail\<close>

definition intent_trail_ok :: "world \<Rightarrow> intent_row \<Rightarrow> bool" where
  "intent_trail_ok w r \<longleftrightarrow>
     (let ts = trail_of (intent_id r) w
      in path can_transition (map to_status ts) \<and> hd (map to_status ts) = CREATED \<and>
         last (map to_status ts) = status r \<and>
         map from_status ts = None # map Some (butlast (map to_status ts)))"

definition trail_ok :: "world \<Rightarrow> bool" where
  "trail_ok w \<longleftrightarrow>
     (\<forall>r \<in> set (intents w). intent_trail_ok w r) \<and>
     (\<forall>t \<in> set (trail w). transition_intent t \<in> set (map intent_id (intents w))) \<and>
     sorted_wrt (<) (map transition_id (trail w)) \<and>
     (\<forall>t \<in> set (trail w). transition_id t < next_transition_id w)"

definition store_ok :: "world \<Rightarrow> bool" where
  "store_ok w \<longleftrightarrow> table_ok (intents w) \<and> trail_ok w"

lemma path_nonempty: "path step ss \<Longrightarrow> ss \<noteq> []"
  by (cases ss) auto

text \<open>Only the trail and the table matter, and of a row only its id and status.\<close>

lemma intent_trail_ok_cong:
  "trail_of (intent_id r) w = trail_of (intent_id r') w' \<Longrightarrow> status r = status r' \<Longrightarrow>
     intent_trail_ok w r = intent_trail_ok w' r'"
  by (simp add: intent_trail_ok_def)

lemma intent_trail_ok_snoc:
  assumes "intent_trail_ok w r" and "can_transition (status r) (status r')"
    and "trail_of (intent_id r') w' =
      trail_of (intent_id r) w @ [t]" and "from_status t = Some (status r)" "to_status t = status r'"
  shows "intent_trail_ok w' r'"
proof -
  let ?ts = "trail_of (intent_id r) w"
  from assms(1) have p: "path can_transition (map to_status ?ts)"
    and h: "hd (map to_status ?ts) = CREATED" and l: "last (map to_status ?ts) = status r"
    and f: "map from_status ?ts = None # map Some (butlast (map to_status ?ts))"
    by (simp_all add: intent_trail_ok_def Let_def)
  from path_nonempty[OF p] have ne: "map to_status ?ts \<noteq> []" .
  have "path can_transition (map to_status ?ts @ [status r'])"
    by (rule path_snoc) (use p l assms(2) in simp_all)
  moreover have "butlast (map to_status ?ts) @ [status r] = map to_status ?ts"
    using ne l append_butlast_last_id by metis
  then have "map Some (butlast (map to_status ?ts)) @ [Some (status r)] = map Some (map to_status ?ts)"
    by (metis list.simps(8,9) map_append)
  ultimately show ?thesis
    using h f ne assms(3-5) by (simp add: intent_trail_ok_def butlast_append hd_append)
qed

lemma trail_ok_insert_transition:
  assumes "trail_ok w" and u: "update_row new w = Inr w1"
    and old: "find_row (intent_id new) w = Some old"
    and step: "can_transition (status old) (status new)"
  shows "trail_ok (insert_transition (intent_id new) (Some (status old)) (status new) reason d w1)"
    (is "trail_ok ?w")
proof -
  note eq = update_row_InrD(1)[OF u]
  have t1: "trail w1 = trail w" "next_transition_id w1 = next_transition_id w"
    by (simp_all add: eq)
  have rows: "r = new \<or> r \<in> set (intents w) \<and> intent_id r \<noteq> intent_id new"
    if "r \<in> set (intents ?w)" for r
    using that by (auto simp: eq set_map_where split: if_splits)
  have ids: "map intent_id (intents ?w) = map intent_id (intents w)"
    by (simp add: eq map_key_replace)
  have trail_of1: "trail_of j w1 = trail_of j w" for j by (simp add: trail_of_def t1)
  have "intent_trail_ok ?w r" if "r \<in> set (intents ?w)" for r
    using rows[OF that]
  proof
    assume "r = new"
    have oid: "intent_id old = intent_id new" and ok: "intent_trail_ok w old"
      using assms(1) find_row_SomeD[OF old] by (simp_all add: trail_ok_def)
    have "trail_of (intent_id new) ?w = trail_of (intent_id old) w @
        [\<lparr>transition_id = next_transition_id w1, transition_intent = intent_id new,
          from_status = Some (status old), to_status = status new, reason_code = reason,
          transition_details = d, transition_created_at = clock w1\<rparr>]"
      by (simp add: trail_of_insert_transition trail_of1 oid)
    from intent_trail_ok_snoc[OF ok step this] show ?thesis by (simp add: \<open>r = new\<close>)
  next
    assume r: "r \<in> set (intents w) \<and> intent_id r \<noteq> intent_id new"
    then have "intent_trail_ok w r" using assms(1) by (simp add: trail_ok_def)
    moreover have "trail_of (intent_id r) ?w = trail_of (intent_id r) w"
      using r by (simp add: trail_of_insert_transition trail_of1)
    ultimately show ?thesis using intent_trail_ok_cong[OF _ refl] by blast
  qed
  moreover have "transition_intent t \<in> set (map intent_id (intents ?w))"
    if "t \<in> set (trail ?w)" for t
  proof -
    have "intent_id new \<in> set (map intent_id (intents w))"
      using find_row_SomeD[OF old] by (metis image_eqI set_map)
    with that assms(1) show ?thesis
      unfolding ids by (auto simp: insert_transition_def t1 trail_ok_def simp del: set_map)
  qed
  ultimately show ?thesis
    using assms(1) by (auto simp: trail_ok_def insert_transition_def t1 sorted_wrt_append)
qed

lemma trail_ok_update:
  assumes "trail_ok w" and u: "update_row new w = Inr w1"
    and old: "find_row (intent_id new) w = Some old" and "status new = status old"
  shows "trail_ok w1"
proof -
  note eq = update_row_InrD(1)[OF u]
  have t1: "trail w1 = trail w" "next_transition_id w1 = next_transition_id w"
    by (simp_all add: eq)
  have ids: "map intent_id (intents w1) = map intent_id (intents w)"
    by (simp add: eq map_key_replace)
  have "intent_trail_ok w1 r" if "r \<in> set (intents w1)" for r
  proof -
    have "\<exists>q \<in> set (intents w). intent_id q = intent_id r \<and> status q = status r"
      using that find_row_SomeD[OF old] assms(4)
      by (auto simp: eq set_map_where split: if_splits)
    then show ?thesis
      using assms(1) by (auto simp: trail_ok_def trail_of_def intent_trail_ok_def t1)
  qed
  moreover have "transition_intent t \<in> set (map intent_id (intents w1))"
    if "t \<in> set (trail w1)" for t
    using that assms(1) unfolding ids by (auto simp: t1 trail_ok_def)
  ultimately show ?thesis using assms(1) by (auto simp: trail_ok_def t1)
qed

section \<open>Every method keeps the store\<close>

lemma store_ok_transition_tx: "store_ok w \<Longrightarrow> store_ok (snd (transition_tx i req w))"
proof (cases rule: transition_tx_cases[of i req w])
  case (Moved r r' w1)
  assume ok: "store_ok w"
  have r': "intent_id r' = i" "status r' = request_to req"
    using find_row_SomeD[OF Moved(1)] by (simp_all add: Moved(4))
  have "table_ok (intents w1)"
    using ok by (intro update_row_table_ok[OF _ Moved(5)]) (simp add: store_ok_def)
  moreover have "trail_ok (insert_transition (intent_id r') (Some (status r)) (status r')
      (request_reason req) (request_details req) w1)"
    using ok Moved(1,3) by (intro trail_ok_insert_transition[OF _ Moved(5)])
      (simp_all add: store_ok_def r')
  ultimately show ?thesis by (simp add: Moved(6) store_ok_def r')
qed simp_all

lemma store_ok_update_in_status_tx: "store_ok w \<Longrightarrow> store_ok (snd (update_in_status_tx i ss cols w))"
proof (cases rule: update_in_status_tx_cases[of i ss cols w])
  case (Updated r r' w1)
  assume ok: "store_ok w"
  have r': "intent_id r' = i" "status r' = status r"
    using find_row_SomeD[OF Updated(1)] by (simp_all add: Updated(3))
  have "table_ok (intents w1)"
    using ok by (intro update_row_table_ok[OF _ Updated(4)]) (simp add: store_ok_def)
  moreover have "trail_ok w1"
    using ok Updated(1) by (intro trail_ok_update[OF _ Updated(4)]) (simp_all add: store_ok_def r')
  ultimately show ?thesis by (simp add: Updated(5) store_ok_def)
qed simp_all

lemma trail_of_fresh:
  assumes "trail_ok w" and "\<forall>p \<in> set (intents w). intent_id p \<noteq> i"
  shows "trail_of i w = []"
  using assms by (fastforce simp: trail_ok_def trail_of_def filter_empty_conv)

lemma store_ok_create_idempotent_tx:
  assumes "store_ok w" and "status row = CREATED"
  shows "store_ok (snd (create_idempotent_tx row w))"
proof (cases rule: create_idempotent_tx_cases[of w row])
  case Inserted
  let ?w = "insert_transition (intent_id row) None CREATED INTENT_CREATED None
              (w\<lparr>intents := intents w @ [row]\<rparr>)"
  from assms(1) have t: "table_ok (intents w)" and tr: "trail_ok w" by (simp_all add: store_ok_def)
  have fresh: "\<forall>p \<in> set (intents w). intent_id p \<noteq> intent_id row"
    using Inserted(2) by (auto simp: row_clash_iff)
  have trail: "trail_of j ?w = (if j = intent_id row then
      [\<lparr>transition_id = next_transition_id w, transition_intent = intent_id row, from_status = None,
        to_status = CREATED, reason_code = INTENT_CREATED, transition_details = None,
        transition_created_at = clock w\<rparr>] else trail_of j w)" for j
    using trail_of_fresh[OF tr fresh]
    by (auto simp: trail_of_def insert_transition_def)
  have "intent_trail_ok ?w r" if "r \<in> set (intents w)" for r
    using that tr fresh intent_trail_ok_cong[of r ?w r w] by (auto simp: trail trail_ok_def)
  moreover have "intent_trail_ok ?w row"
    using assms(2) by (simp add: intent_trail_ok_def trail)
  moreover have "table_ok (intents ?w)"
    using t Inserted(1,2) by (simp add: table_ok_snoc)
  ultimately show ?thesis
    using tr Inserted(3)
    by (auto simp: store_ok_def trail_ok_def insert_transition_def sorted_wrt_append)
qed (use assms in simp_all)

section \<open>The contract of the repository\<close>

text \<open>
  What the services may rely on: a change of status is a compare-and-set. It applies only in one
  of the expected states and along the table, touches one row, and a change that does not apply
  leaves everything as it was. What follows is that of two requests that expect the same state,
  only the first is applied.
\<close>

locale intent_store =
  fixes find_by :: "'i \<Rightarrow> 'w \<Rightarrow> 'row option"
    and change :: "'i \<Rightarrow> 'req \<Rightarrow> 'w \<Rightarrow> ('e + 'row option) \<times> 'w"
    and status_of :: "'row \<Rightarrow> 's"
    and expects :: "'req \<Rightarrow> 's set"
    and target :: "'req \<Rightarrow> 's"
    and allowed :: "'s \<Rightarrow> 's \<Rightarrow> bool"
    and ok :: "'w \<Rightarrow> bool"
  assumes change_ok: "ok w \<Longrightarrow> ok (snd (change i q w))"
    and change_applied: "change i q w = (Inr (Some r'), w') \<Longrightarrow>
      \<exists>r. find_by i w = Some r \<and> status_of r \<in> expects q \<and> allowed (status_of r) (target q) \<and>
          status_of r' = target q \<and> find_by i w' = Some r'"
    and change_refused: "fst (change i q w) = Inr None \<or> fst (change i q w) = Inl e \<Longrightarrow>
      snd (change i q w) = w"
    and change_stale: "find_by i w = None \<or> (find_by i w = Some r \<and> status_of r \<notin> expects q) \<Longrightarrow>
      change i q w = (Inr None, w)"
    and change_frame: "j \<noteq> i \<Longrightarrow> find_by j (snd (change i q w)) = find_by j w"
begin

text \<open>First wins: the loser of a race for the same state finds it gone and changes nothing.\<close>

lemma first_change_wins:
  assumes "change i q w = (Inr (Some r'), w')" and "target q \<notin> expects q2"
  shows "change i q2 w' = (Inr None, w')"
  using change_applied[OF assms(1)] assms(2) by (intro change_stale[of _ _ r']) auto

lemma change_is_step:
  assumes "find_by i w = Some r" and "find_by i (snd (change i q w)) = Some r''"
  shows "status_of r'' = status_of r \<or>
     (status_of r \<in> expects q \<and> allowed (status_of r) (status_of r'') \<and> status_of r'' = target q)"
proof (cases "change i q w")
  case (Pair res w')
  show ?thesis
  proof (cases res)
    case (Inl e)
    then show ?thesis using assms change_refused[of i q w e] Pair by simp
  next
    case (Inr o')
    then show ?thesis
      using assms change_refused[of i q w] change_applied[of i q w _ w'] Pair
      by (cases o') fastforce+
  qed
qed

lemma change_other_untouched:
  "find_by j w = Some r \<Longrightarrow> j \<noteq> i \<Longrightarrow> find_by j (snd (change i q w)) = Some r"
  by (simp add: change_frame)

end

lemma transition_tx_find_row:
  "find_row j (snd (transition_tx i req w)) =
     (case fst (transition_tx i req w) of
        Inr (Some r') \<Rightarrow> if j = i then Some r' else find_row j w
      | _ \<Rightarrow> find_row j w)"
proof (cases rule: transition_tx_cases[of i req w])
  case (Moved r r' w1)
  have "intent_id r' = i" using find_row_SomeD[OF Moved(1)] by (simp add: Moved(4))
  with Moved show ?thesis using find_row_update[OF Moved(5)] by simp
qed simp_all

interpretation store: intent_store find_row transition_tx status "\<lambda>req. set (request_from req)"
  request_to can_transition store_ok
proof unfold_locales
  fix w :: world and i j q r r' w' and e :: exn
  show "store_ok w \<Longrightarrow> store_ok (snd (transition_tx i q w))" by (rule store_ok_transition_tx)
  show "transition_tx i q w = (Inr (Some r'), w') \<Longrightarrow>
      \<exists>r. find_row i w = Some r \<and> status r \<in> set (request_from q) \<and>
          can_transition (status r) (request_to q) \<and> status r' = request_to q \<and>
          find_row i w' = Some r'"
    using transition_tx_find_row[of i i q w]
    by (cases rule: transition_tx_cases[of i q w]) auto
  show "fst (transition_tx i q w) = Inr None \<or> fst (transition_tx i q w) = Inl e \<Longrightarrow>
      snd (transition_tx i q w) = w"
    by (cases rule: transition_tx_cases[of i q w]) auto
  show "find_row i w = None \<or> (find_row i w = Some r \<and> status r \<notin> set (request_from q)) \<Longrightarrow>
      transition_tx i q w = (Inr None, w)"
    by (auto simp: transition_tx_def)
  show "j \<noteq> i \<Longrightarrow> find_row j (snd (transition_tx i q w)) = find_row j w"
    by (simp add: transition_tx_find_row split: sum.split option.split)
qed

end
