(* ===== verification/Ledger.thy ===== *)
theory Ledger
  imports Schema
begin

text \<open>
  The typed XRPL commands (\<open>src/xrpl/ledger.service.ts\<close>) over the connection, and the narrowing of
  their answers (\<open>src/xrpl/types.ts\<close>). To the services the connection manager is the environment:
  a request is answered by a response of some server or refused with an error.
\<close>

section \<open>Requests and answers\<close>

record ledger_request =
  command :: string
  request_fields :: object

datatype ledger_response =
    RespOk object
  | RespErr string "string option" object

datatype env_call = Request ledger_request | SwitchEndpoint string
datatype env_answer = Response ledger_response | Refused exn

type_synonym 'r svc = "(world, exn, env_call, env_answer, 'r) io"

definition connection_request :: "ledger_request \<Rightarrow> ledger_response svc" where
  "connection_request r =
     Call (Request r) (\<lambda>a. case a of Response x \<Rightarrow> Return x | Refused e \<Rightarrow> Throw e)"

definition switch_endpoint :: "string \<Rightarrow> unit svc" where
  "switch_endpoint reason =
     Call (SwitchEndpoint reason) (\<lambda>a. case a of Response x \<Rightarrow> Return () | Refused e \<Rightarrow> Throw e)"

section \<open>Errors\<close>

definition server_error :: "string \<Rightarrow> string \<Rightarrow> exn" where
  "server_error cmd err =
     api_error XRPL_UNAVAILABLE (''XRPL '' @ cmd @ '' request failed: '' @ err @ ''.'')"

definition format_error :: "string \<Rightarrow> exn" where
  "format_error m = api_error XRPL_UNAVAILABLE (''Unexpected XRPL response: '' @ m @ ''.'')"

fun parsed :: "string + 'a \<Rightarrow> exn + 'a" where
  "parsed (Inl m) = Inl (format_error m)"
| "parsed (Inr x) = Inr x"

lemma parsed_eq_Inr_iff [simp]: "parsed m = Inr x \<longleftrightarrow> m = Inr x"
  by (cases m) auto

fun successful :: "string \<Rightarrow> ledger_response \<Rightarrow> exn + object" where
  "successful cmd (RespOk result) = Inr result"
| "successful cmd (RespErr err m data) = Inl (server_error cmd err)"

lemma successful_eq_Inr_iff [simp]: "successful cmd r = Inr ob \<longleftrightarrow> r = RespOk ob"
  by (cases r) auto

text \<open>\<open>call\<close>: a server error is XRPL_UNAVAILABLE.\<close>

definition ledger_call :: "ledger_request \<Rightarrow> object svc" where
  "ledger_call r = await (connection_request r) (\<lambda>resp. lift_result (successful (command r) resp))"

section \<open>account_info\<close>

record account_info =
  ai_validated :: bool
  ai_ledger_index :: "nat option"
  ai_sequence :: nat
  ai_regular_key :: "string option"
  ai_disable_master_key :: bool
  ai_queued_transaction_count :: nat

definition lsf_disable_master :: nat where
  "lsf_disable_master = 1048576"

definition parse_disable_master :: "object \<Rightarrow> object option \<Rightarrow> string + bool" where
  "parse_disable_master account_data account_flags =
     (case account_flags of
        None \<Rightarrow>
          rbind (safe_uint (nullish (field account_data ''Flags'') (Some (JNum 0)))
                   ''account_data.Flags'')
            (\<lambda>flags. Inr (js_has_bit flags lsf_disable_master))
      | Some af \<Rightarrow>
          (case optional_bool (field af ''disableMasterKey'') of
             Some b \<Rightarrow> Inr b
           | None \<Rightarrow>
               rbind (safe_uint (nullish (field account_data ''Flags'') (Some (JNum 0)))
                        ''account_data.Flags'')
                 (\<lambda>flags. Inr (js_has_bit flags lsf_disable_master))))"

definition parse_ledger_index :: "object \<Rightarrow> string + nat option" where
  "parse_ledger_index result =
     rbind (optional_safe_uint (field result ''ledger_index'') ''account_info.ledger_index'')
       (\<lambda>i. case i of
          Some n \<Rightarrow> Inr (Some n)
        | None \<Rightarrow> optional_safe_uint (field result ''ledger_current_index'')
                    ''account_info.ledger_current_index'')"

definition parse_account_info :: "object \<Rightarrow> string + account_info" where
  "parse_account_info result =
     rbind (record_of (field result ''account_data'') ''account_info.account_data'')
       (\<lambda>account_data.
          rbind (parse_disable_master account_data (as_record (field result ''account_flags'')))
            (\<lambda>disable_master.
          rbind (parse_ledger_index result) (\<lambda>ledger_index.
          rbind (safe_uint (field account_data ''Sequence'') ''account_data.Sequence'') (\<lambda>sequence.
          rbind (case as_record (field result ''queue_data'') of
                   None \<Rightarrow> Inr 0
                 | Some qd \<Rightarrow> safe_uint (nullish (field qd ''txn_count'') (Some (JNum 0)))
                                ''queue_data.txn_count'') (\<lambda>queued.
          Inr \<lparr>ai_validated = is_true (field result ''validated''),
               ai_ledger_index = ledger_index,
               ai_sequence = sequence,
               ai_regular_key = optional_str (field account_data ''RegularKey''),
               ai_disable_master_key = disable_master,
               ai_queued_transaction_count = queued\<rparr>)))))"

definition validated_account_request :: "string \<Rightarrow> ledger_request" where
  "validated_account_request acct =
     \<lparr>command = ''account_info'',
      request_fields = [(''api_version'', JNum 2), (''account'', JStr acct),
        (''ledger_index'', JStr ''validated'')]\<rparr>"

definition current_account_request :: "string \<Rightarrow> ledger_request" where
  "current_account_request acct =
     \<lparr>command = ''account_info'',
      request_fields = [(''api_version'', JNum 2), (''account'', JStr acct),
        (''ledger_index'', JStr ''current''), (''queue'', JBool True)]\<rparr>"

text \<open>What \<open>validatedAccountInfo\<close> makes of a response: \<open>None\<close> is "no such account".\<close>

fun read_validated_account :: "ledger_response \<Rightarrow> exn + account_info option" where
  "read_validated_account (RespErr err m data) =
     (if err = ''actNotFound'' then Inr None else Inl (server_error ''account_info'' err))"
| "read_validated_account (RespOk result) =
     rbind (parsed (parse_account_info result))
       (\<lambda>info. if \<not> ai_validated info
               then Inl (format_error ''account_info did not return validated data'')
               else Inr (Some info))"

definition validated_account_info :: "string \<Rightarrow> account_info option svc" where
  "validated_account_info acct =
     await (connection_request (validated_account_request acct))
       (\<lambda>resp. lift_result (read_validated_account resp))"

definition read_current_account :: "ledger_response \<Rightarrow> exn + account_info" where
  "read_current_account resp =
     rbind (successful ''account_info'' resp) (\<lambda>result. parsed (parse_account_info result))"

definition current_account_info :: "string \<Rightarrow> account_info svc" where
  "current_account_info acct =
     await (connection_request (current_account_request acct))
       (\<lambda>resp. lift_result (read_current_account resp))"

section \<open>fee and ledger\<close>

definition parse_open_ledger_fee :: "object \<Rightarrow> string + string" where
  "parse_open_ledger_fee result =
     rbind (record_of (field result ''drops'') ''fee.drops'')
       (\<lambda>ds. str (field ds ''open_ledger_fee'') ''fee.drops.open_ledger_fee'')"

definition fee_request :: ledger_request where
  "fee_request = \<lparr>command = ''fee'', request_fields = [(''api_version'', JNum 2)]\<rparr>"

definition read_open_ledger_fee :: "ledger_response \<Rightarrow> exn + string" where
  "read_open_ledger_fee resp =
     rbind (successful ''fee'' resp) (\<lambda>result. parsed (parse_open_ledger_fee result))"

definition open_ledger_fee :: "string svc" where
  "open_ledger_fee =
     await (connection_request fee_request) (\<lambda>resp. lift_result (read_open_ledger_fee resp))"

record ledger_header =
  lh_index :: nat
  lh_hash :: "string option"
  lh_validated :: bool

definition is_digits :: "string \<Rightarrow> bool" where
  "is_digits s \<longleftrightarrow> s \<noteq> [] \<and> all_in ''0123456789'' s"

definition numeric_index :: "json option \<Rightarrow> json option" where
  "numeric_index v =
     (case v of
        Some (JStr s) \<Rightarrow> if is_digits s then Some (JNum (int (nat_of_digits s))) else v
      | _ \<Rightarrow> v)"

definition parse_ledger :: "object \<Rightarrow> string + ledger_header" where
  "parse_ledger result =
     (let ledger = as_record (field result ''ledger'');
          inner = (\<lambda>k. case ledger of None \<Rightarrow> None | Some l \<Rightarrow> field l k);
          index = nullish (field result ''ledger_index'') (inner ''ledger_index'')
      in rbind (safe_uint (numeric_index index) ''ledger.ledger_index'')
           (\<lambda>n. Inr \<lparr>lh_index = n,
                     lh_hash = (case optional_str (field result ''ledger_hash'') of
                        Some h \<Rightarrow> Some h
                      | None \<Rightarrow> optional_str (inner ''ledger_hash'')),
                     lh_validated = is_true (field result ''validated'')\<rparr>))"

definition validated_ledger_request :: ledger_request where
  "validated_ledger_request =
     \<lparr>command = ''ledger'',
      request_fields = [(''api_version'', JNum 2), (''ledger_index'', JStr ''validated''),
        (''transactions'', JBool False), (''expand'', JBool False)]\<rparr>"

definition read_validated_ledger :: "ledger_response \<Rightarrow> exn + nat" where
  "read_validated_ledger resp =
     rbind (successful ''ledger'' resp) (\<lambda>result.
     rbind (parsed (parse_ledger result)) (\<lambda>h.
       if \<not> lh_validated h then Inl (format_error ''ledger did not return a validated ledger'')
       else Inr (lh_index h)))"

definition validated_ledger_index :: "nat svc" where
  "validated_ledger_index =
     await (connection_request validated_ledger_request)
       (\<lambda>resp. lift_result (read_validated_ledger resp))"

section \<open>simulate and submit\<close>

record simulation_outcome =
  sim_engine_result :: string
  sim_engine_result_message :: "string option"
  sim_tx_json :: "object option"

definition parse_simulation :: "object \<Rightarrow> string + simulation_outcome" where
  "parse_simulation result =
     rbind (str (field result ''engine_result'') ''simulate.engine_result'')
       (\<lambda>er. Inr \<lparr>sim_engine_result = er,
                  sim_engine_result_message = optional_str (field result ''engine_result_message''),
                  sim_tx_json = as_record (field result ''tx_json'')\<rparr>)"

definition simulate_request :: "object \<Rightarrow> ledger_request" where
  "simulate_request tx_json =
     \<lparr>command = ''simulate'',
      request_fields = [(''api_version'', JNum 2), (''binary'', JBool False),
        (''tx_json'', JObj tx_json)]\<rparr>"

definition read_simulation :: "ledger_response \<Rightarrow> exn + simulation_outcome \<times> object" where
  "read_simulation resp =
     rbind (successful ''simulate'' resp)
       (\<lambda>raw. rbind (parsed (parse_simulation raw)) (\<lambda>result. Inr (result, raw)))"

definition ledger_simulate :: "object \<Rightarrow> (simulation_outcome \<times> object) svc" where
  "ledger_simulate tx_json =
     await (connection_request (simulate_request tx_json))
       (\<lambda>resp. lift_result (read_simulation resp))"

record submit_outcome =
  sub_engine_result :: string
  sub_engine_result_message :: "string option"
  sub_accepted :: "bool option"
  sub_applied :: "bool option"
  sub_broadcast :: "bool option"
  sub_kept :: "bool option"
  sub_queued :: "bool option"

definition parse_submit :: "object \<Rightarrow> string + submit_outcome" where
  "parse_submit result =
     rbind (str (field result ''engine_result'') ''submit.engine_result'')
       (\<lambda>er. Inr \<lparr>sub_engine_result = er,
                  sub_engine_result_message = optional_str (field result ''engine_result_message''),
                  sub_accepted = optional_bool (field result ''accepted''),
                  sub_applied = optional_bool (field result ''applied''),
                  sub_broadcast = optional_bool (field result ''broadcast''),
                  sub_kept = optional_bool (field result ''kept''),
                  sub_queued = optional_bool (field result ''queued'')\<rparr>)"

definition submit_request :: "string \<Rightarrow> ledger_request" where
  "submit_request tx_blob =
     \<lparr>command = ''submit'',
      request_fields = [(''api_version'', JNum 2), (''tx_blob'', JStr tx_blob),
        (''fail_hard'', JBool False)]\<rparr>"

definition read_submit :: "ledger_response \<Rightarrow> exn + submit_outcome \<times> object" where
  "read_submit resp =
     rbind (successful ''submit'' resp)
       (\<lambda>raw. rbind (parsed (parse_submit raw)) (\<lambda>result. Inr (result, raw)))"

definition ledger_submit :: "string \<Rightarrow> (submit_outcome \<times> object) svc" where
  "ledger_submit tx_blob =
     await (connection_request (submit_request tx_blob)) (\<lambda>resp. lift_result (read_submit resp))"

section \<open>tx\<close>

record tx_lookup =
  lk_hash :: "string option"
  lk_validated :: bool
  lk_ledger_index :: "nat option"
  lk_ledger_hash :: "string option"
  lk_transaction_result :: "string option"
  lk_tx_json :: "object option"
  lk_meta :: "object option"

definition parse_tx :: "object \<Rightarrow> string + tx_lookup" where
  "parse_tx result =
     (let meta = as_record (field result ''meta'')
      in rbind (optional_safe_uint (field result ''ledger_index'') ''tx.ledger_index'')
           (\<lambda>index. Inr \<lparr>lk_hash = optional_str (field result ''hash''),
                         lk_validated = is_true (field result ''validated''),
                         lk_ledger_index = index,
                         lk_ledger_hash = optional_str (field result ''ledger_hash''),
                         lk_transaction_result = (case meta of None \<Rightarrow> None
                           | Some m \<Rightarrow> optional_str (field m ''TransactionResult'')),
                         lk_tx_json = as_record (field result ''tx_json''),
                         lk_meta = meta\<rparr>))"

datatype tx_search = Found tx_lookup object | NotFound bool

definition tx_request :: "string \<Rightarrow> nat \<Rightarrow> nat \<Rightarrow> ledger_request" where
  "tx_request h min_ledger max_ledger =
     \<lparr>command = ''tx'',
      request_fields = [(''api_version'', JNum 2), (''transaction'', JStr h),
        (''binary'', JBool False), (''min_ledger'', JNum (int min_ledger)),
        (''max_ledger'', JNum (int max_ledger))]\<rparr>"

fun read_tx :: "ledger_response \<Rightarrow> exn + tx_search" where
  "read_tx (RespErr err m data) =
     (if err = ''txnNotFound'' then Inr (NotFound (is_true (field data ''searched_all'')))
      else Inl (server_error ''tx'' err))"
| "read_tx (RespOk result) = rbind (parsed (parse_tx result)) (\<lambda>l. Inr (Found l result))"

definition ledger_tx :: "string \<Rightarrow> nat \<Rightarrow> nat \<Rightarrow> tx_search svc" where
  "ledger_tx h min_ledger max_ledger =
     await (connection_request (tx_request h min_ledger max_ledger))
       (\<lambda>resp. lift_result (read_tx resp))"

section \<open>Evidence\<close>

text \<open>
  A handler knows of the ledger what it was answered. \<open>answered tr q f x\<close>: in the exchange \<open>tr\<close>
  the request \<open>q\<close> was answered by a response that \<open>f\<close> reads as \<open>x\<close>.
\<close>

definition answered ::
  "(env_call, env_answer) trace \<Rightarrow> ledger_request \<Rightarrow> (ledger_response \<Rightarrow> exn + 'x) \<Rightarrow> 'x \<Rightarrow> bool" where
  "answered tr q f x \<longleftrightarrow> (\<exists>resp. (Request q, Response resp) \<in> set tr \<and> f resp = Inr x)"

definition extends :: "('q, 'a) trace \<Rightarrow> ('q, 'a) trace \<Rightarrow> bool" where
  "extends tr tr' \<longleftrightarrow> set tr \<subseteq> set tr'"

lemma extends_refl [simp]: "extends tr tr"
  by (simp add: extends_def)

lemma extends_append [simp]: "extends tr (tr @ new)"
  by (simp add: extends_def)

lemma extends_trans: "extends tr tr' \<Longrightarrow> extends tr' tr'' \<Longrightarrow> extends tr tr''"
  by (auto simp: extends_def)

lemma answered_extends: "answered tr q f x \<Longrightarrow> extends tr tr' \<Longrightarrow> answered tr' q f x"
  by (auto simp: answered_def extends_def)

lemma wp_ask:
  assumes "\<And>w1. R w w1 \<Longrightarrow> I w1 \<Longrightarrow> C (Request q) w1"
    and "\<And>x tr'. extends tr tr' \<Longrightarrow> answered tr' q f x \<Longrightarrow> Q x tr' w"
    and "\<And>e tr'. extends tr tr' \<Longrightarrow> E e tr' w"
  shows "wp I R G C (await (connection_request q) (\<lambda>resp. lift_result (f resp))) Q E tr w"
proof -
  have "wp I R G C (lift_result (f resp)) Q E (tr @ [(Request q, Response resp)]) w" for resp
  proof (cases "f resp")
    case (Inl e)
    then show ?thesis by (simp add: assms(3))
  next
    case (Inr x)
    then have "answered (tr @ [(Request q, Response resp)]) q f x"
      by (auto simp: answered_def)
    with Inr show ?thesis by (simp add: assms(2))
  qed
  then show ?thesis
    using assms(1,3) by (auto simp: connection_request_def wp_await split: env_answer.split)
qed

lemma wp_switch_endpoint:
  assumes "\<And>w1. R w w1 \<Longrightarrow> I w1 \<Longrightarrow> C (SwitchEndpoint reason) w1"
    and "\<And>tr'. extends tr tr' \<Longrightarrow> Q () tr' w" and "\<And>e tr'. extends tr tr' \<Longrightarrow> E e tr' w"
  shows "wp I R G C (switch_endpoint reason) Q E tr w"
  using assms by (auto simp: switch_endpoint_def split: env_answer.split)

lemma run_connection_request [run_simps]:
  "run env (connection_request q) tr w =
     (case env tr (Request q) of
        Response resp \<Rightarrow> (Inr resp, tr @ [(Request q, Response resp)], w)
      | Refused e \<Rightarrow> (Inl e, tr @ [(Request q, Refused e)], w))"
  by (cases "env tr (Request q)") (simp_all add: connection_request_def)

end
