(* ===== verification/Artifacts.thy ===== *)
theory Artifacts
  imports Ledger
begin

text \<open>
  The pure decisions about artifacts: the fee cap (\<open>src/preparation/fee.service.ts\<close>), the
  comparison of a simulated transaction with the prepared one
  (\<open>src/preparation/simulation.service.ts\<close>), the integrity check of a signed blob
  (\<open>src/signing/signed-blob.service.ts\<close>) and the authority of its key
  (\<open>src/signing/signer-authorization.service.ts\<close>).
\<close>

section \<open>The fee cap\<close>

definition max_fee_drops :: nat where
  "max_fee_drops = 1000"

definition positive_drops :: "string \<Rightarrow> bool" where
  "positive_drops s =
     (case s of [] \<Rightarrow> False | c # cs \<Rightarrow> c \<in> set ''123456789'' \<and> all_in ''0123456789'' cs)"

definition check_fee :: "string \<Rightarrow> exn + string" where
  "check_fee fee =
     (if \<not> positive_drops fee
      then Inl (api_error XRPL_UNAVAILABLE ''The XRPL endpoint returned an invalid fee.'')
      else if max_fee_drops < nat_of_digits fee
      then Inl (ApiError FEE_TOO_HIGH ''The open ledger fee is above the 1000 drop cap.''
                  (Some [(''openLedgerFee'', JStr fee),
                         (''maxFeeDrops'', JNum (int max_fee_drops))]))
      else Inr fee)"

lemma check_fee_Inr_iff:
  "check_fee fee = Inr f \<longleftrightarrow> f = fee \<and> positive_drops fee \<and> nat_of_digits fee \<le> max_fee_drops"
  by (auto simp: check_fee_def)

lemma positive_drops_positive: "positive_drops s \<Longrightarrow> 0 < nat_of_digits s"
proof (cases s)
  case (Cons c cs)
  assume "positive_drops s"
  with Cons have "c \<in> set ''123456789''" by (simp add: positive_drops_def)
  then have "0 < digit_value c" by (auto simp: digit_value_def)
  also have "digit_value c \<le> nat_of_digits s"
    using nat_of_digits_acc_ge[of "digit_value c" cs] Cons by (simp add: nat_of_digits_def)
  finally show ?thesis .
qed (simp add: positive_drops_def)

section \<open>Simulated against prepared\<close>

definition encode_comparable_transaction :: "codec \<Rightarrow> object \<Rightarrow> string + string" where
  "encode_comparable_transaction X tx =
     x_encode X (without [''SigningPubKey'', ''TxnSignature'', ''hash''] tx)"

text \<open>Anything thrown on the way, by the canonical form or the codec, means "no match".\<close>

definition simulation_matches_prepared :: "codec \<Rightarrow> object \<Rightarrow> object option \<Rightarrow> bool" where
  "simulation_matches_prepared X prepared simulated =
     (case simulated of
        None \<Rightarrow> False
      | Some s \<Rightarrow>
          (case (rbind (to_canonical_form prepared) (encode_comparable_transaction X),
                 rbind (to_canonical_form s) (encode_comparable_transaction X)) of
             (Inr a, Inr b) \<Rightarrow> a = b
           | _ \<Rightarrow> False))"

lemma simulation_matches_preparedD:
  assumes "simulation_matches_prepared X prepared simulated"
  shows "\<exists>s c d b. simulated = Some s \<and> to_canonical_form prepared = Inr c \<and>
     to_canonical_form s = Inr d \<and> encode_comparable_transaction X c = Inr b \<and>
     encode_comparable_transaction X d = Inr b"
  using assms
  by (auto simp: simulation_matches_prepared_def rbind_eq_Inl_iff split: option.splits sum.splits)

section \<open>The signed blob\<close>

definition signed_tx_max_hex_chars :: nat where
  "signed_tx_max_hex_chars = 32768"

definition hex_alphabet :: string where
  "hex_alphabet = ''0123456789abcdefABCDEF''"

definition is_hex :: "string \<Rightarrow> bool" where
  "is_hex s \<longleftrightarrow> s \<noteq> [] \<and> all_in hex_alphabet s"

definition forbidden_signed_fields :: "string list" where
  "forbidden_signed_fields =
     [''Signers'', ''Sponsor'', ''SponsorFlags'', ''SponsorSignature'', ''Delegate'',
      ''TicketSequence'', ''AccountTxnID'']"

definition signature_fields :: "string list" where
  "signature_fields = [''SigningPubKey'', ''TxnSignature'']"

record verified_blob =
  vb_tx_blob :: string
  vb_transaction_hash :: string
  vb_signing_pub_key :: string

definition invalid_signed :: "string \<Rightarrow> exn" where
  "invalid_signed m = api_error INVALID_SIGNED_TRANSACTION m"

definition mismatch :: exn where
  "mismatch =
     api_error SIGNED_TRANSACTION_MISMATCH
       ''The signed transaction differs from the prepared transaction.''"

text \<open>A thrown error of the library that no \<open>catch\<close> of the service sees.\<close>

fun uncaught :: "string + 'a \<Rightarrow> exn + 'a" where
  "uncaught (Inl m) = Inl (PlainError m)"
| "uncaught (Inr x) = Inr x"

lemma uncaught_eq_Inr_iff [simp]: "uncaught m = Inr x \<longleftrightarrow> m = Inr x"
  by (cases m) auto

definition well_formed_hex :: "string \<Rightarrow> bool" where
  "well_formed_hex b \<longleftrightarrow> length b \<le> signed_tx_max_hex_chars \<and> even (length b) \<and> is_hex b"

text \<open>A non-empty string under the name, or the error.\<close>

definition required_string :: "object \<Rightarrow> string \<Rightarrow> string \<Rightarrow> exn + string" where
  "required_string decoded k m =
     (case field decoded k of
        Some (JStr s) \<Rightarrow> if s = [] then Inl (invalid_signed m) else Inr s
      | _ \<Rightarrow> Inl (invalid_signed m))"

definition decode_signed :: "codec \<Rightarrow> string \<Rightarrow> exn + object" where
  "decode_signed X b =
     (case x_decode X b of
        Inl m \<Rightarrow> Inl (invalid_signed ''txBlob is not a decodable XRPL transaction'')
      | Inr decoded \<Rightarrow> Inr decoded)"

definition refuse_forbidden :: "object \<Rightarrow> exn + unit" where
  "refuse_forbidden decoded =
     (case find (has_field decoded) forbidden_signed_fields of
        Some f \<Rightarrow> Inl (invalid_signed (''txBlob must not contain '' @ f))
      | None \<Rightarrow> Inr ())"

text \<open>
  Without its signature fields the blob has only fields of the prepared transaction and
  serializes to the prepared blob.
\<close>

definition same_as_prepared :: "codec \<Rightarrow> object \<Rightarrow> string \<Rightarrow> exn + unit" where
  "same_as_prepared X decoded prepared_blob =
     rbind (uncaught (x_decode X prepared_blob)) (\<lambda>prepared.
       let unsigned = without signature_fields decoded
       in if \<not> list_all (\<lambda>kv. has_field prepared (fst kv)) unsigned then Inl mismatch
          else rbind (uncaught (x_encode X unsigned)) (\<lambda>b.
            if upper b \<noteq> prepared_blob then Inl mismatch else Inr ()))"

definition signature_valid :: "codec \<Rightarrow> object \<Rightarrow> string \<Rightarrow> string \<Rightarrow> bool" where
  "signature_valid X decoded signature pub_key \<longleftrightarrow>
     rbind (x_encode_for_signing X (without [''TxnSignature''] decoded))
       (\<lambda>m. x_verify_signature X m signature pub_key) = Inr True"

definition verify :: "codec \<Rightarrow> string \<Rightarrow> string \<Rightarrow> exn + verified_blob" where
  "verify X tx_blob prepared_blob =
     (if \<not> well_formed_hex tx_blob
      then Inl (invalid_signed
             ''txBlob must be an even-length hex string of at most 32768 characters'')
      else
        let normalized = upper tx_blob
        in rbind (decode_signed X normalized) (\<lambda>decoded.
           rbind (required_string decoded ''TxnSignature''
                    ''txBlob must carry a single TxnSignature'') (\<lambda>signature.
           rbind (required_string decoded ''SigningPubKey''
                    ''txBlob must carry a SigningPubKey'') (\<lambda>pub_key.
           rbind (refuse_forbidden decoded) (\<lambda>_.
           rbind (same_as_prepared X decoded prepared_blob) (\<lambda>_.
             if \<not> signature_valid X decoded signature pub_key
             then Inl (api_error INVALID_SIGNATURE ''The transaction signature is not valid.'')
             else rbind (uncaught (x_hash_signed_tx X normalized)) (\<lambda>h.
                    Inr \<lparr>vb_tx_blob = normalized, vb_transaction_hash = upper h,
                         vb_signing_pub_key = upper pub_key\<rparr>)))))))"

lemma required_string_Inr_iff:
  "required_string ob k m = Inr s \<longleftrightarrow> field ob k = Some (JStr s) \<and> s \<noteq> []"
  by (auto simp: required_string_def split: option.splits json.splits)

lemma decode_signed_Inr_iff: "decode_signed X b = Inr d \<longleftrightarrow> x_decode X b = Inr d"
  by (auto simp: decode_signed_def split: sum.splits)

lemma refuse_forbidden_Inr_iff:
  "refuse_forbidden d = Inr u \<longleftrightarrow> (\<forall>f \<in> set forbidden_signed_fields. \<not> has_field d f)"
  by (auto simp: refuse_forbidden_def find_None_iff split: option.splits dest: find_Some_in)

lemma same_as_prepared_Inr_iff:
  "same_as_prepared X d pb = Inr u \<longleftrightarrow>
     (\<exists>p b. x_decode X pb = Inr p \<and>
        (\<forall>k. has_field d k \<longrightarrow> k \<in> set signature_fields \<or> has_field p k) \<and>
        x_encode X (without signature_fields d) = Inr b \<and> upper b = pb)"
proof -
  have fields: "list_all (\<lambda>kv. has_field p (fst kv)) (without signature_fields d) \<longleftrightarrow>
      (\<forall>k. has_field d k \<longrightarrow> k \<in> set signature_fields \<or> has_field p k)" for p
  proof -
    have "(\<forall>k. has_field d k \<longrightarrow> k \<in> set signature_fields \<or> has_field p k) \<longleftrightarrow>
        (\<forall>kv \<in> set d. fst kv \<in> set signature_fields \<or> has_field p (fst kv))"
      unfolding has_field_def[of d] by auto
    then show ?thesis by (auto simp: list_all_iff without_def)
  qed
  show ?thesis
    unfolding same_as_prepared_def Let_def fields
    by (cases "x_decode X pb"; cases "x_encode X (without signature_fields d)")
      (auto split: if_splits)
qed

lemmas verify_parts =
  required_string_Inr_iff decode_signed_Inr_iff refuse_forbidden_Inr_iff same_as_prepared_Inr_iff

lemma verify_Inr_iff:
  "verify X t pb = Inr v \<longleftrightarrow>
     well_formed_hex t \<and>
     (\<exists>d s k h. decode_signed X (upper t) = Inr d \<and>
        required_string d ''TxnSignature'' ''txBlob must carry a single TxnSignature'' = Inr s \<and>
        required_string d ''SigningPubKey'' ''txBlob must carry a SigningPubKey'' = Inr k \<and>
        refuse_forbidden d = Inr () \<and> same_as_prepared X d pb = Inr () \<and>
        signature_valid X d s k \<and> x_hash_signed_tx X (upper t) = Inr h \<and>
        v = \<lparr>vb_tx_blob = upper t, vb_transaction_hash = upper h, vb_signing_pub_key = upper k\<rparr>)"
  by (auto simp: verify_def Let_def)

lemma upper_hex_alphabet: "list_all (\<lambda>c. upper_char c \<in> set hex_alphabet) hex_alphabet"
  by code_simp

lemma upper_hex_char: "c \<in> set hex_alphabet \<Longrightarrow> upper_char c \<in> set hex_alphabet"
  using upper_hex_alphabet unfolding list_all_iff by blast

lemma well_formed_hex_upper: "well_formed_hex t \<Longrightarrow> well_formed_hex (upper t)"
  by (auto simp: well_formed_hex_def is_hex_def all_in_def upper_def list_all_iff
      intro: upper_hex_char)

text \<open>What is stored verifies again, to the same artifact.\<close>

lemma verify_normalized: "verify X t pb = Inr v \<Longrightarrow> verify X (vb_tx_blob v) pb = Inr v"
  unfolding verify_Inr_iff by (auto intro: well_formed_hex_upper)

lemma verify_tx_blob: "verify X t pb = Inr v \<Longrightarrow> vb_tx_blob v = upper t"
  unfolding verify_Inr_iff by auto

section \<open>Authority of the signing key\<close>

definition not_authorized :: exn where
  "not_authorized =
     api_error SIGNER_NOT_AUTHORIZED
       ''The signing key is not authorized for the source account.''"

definition master_key_disabled :: exn where
  "master_key_disabled =
     api_error SIGNER_NOT_AUTHORIZED ''The master key of the source account is disabled.''"

definition assert_authorized ::
  "codec \<Rightarrow> string \<Rightarrow> string \<Rightarrow> account_info \<Rightarrow> exn + unit" where
  "assert_authorized X pub_key source acct =
     (case x_derive_address X pub_key of
        Inl m \<Rightarrow> Inl not_authorized
      | Inr signer \<Rightarrow>
          if signer = source
          then if ai_disable_master_key acct then Inl master_key_disabled else Inr ()
          else if ai_regular_key acct \<noteq> Some signer then Inl not_authorized else Inr ())"

lemma assert_authorized_Inr_iff:
  "assert_authorized X k source acct = Inr u \<longleftrightarrow>
     (x_derive_address X k = Inr source \<and> \<not> ai_disable_master_key acct) \<or>
     (\<exists>a. x_derive_address X k = Inr a \<and> a \<noteq> source \<and> ai_regular_key acct = Some a)"
  by (auto simp: assert_authorized_def split: sum.splits)

end
