(* ===== verification/Requests.thy ===== *)
theory Requests
  imports Codec
begin

text \<open>
  From a validated request to its hash (\<open>src/intents/intent-payload.ts\<close>): the canonical payload
  of a create request, its JSON text and the SHA-256 of that text. The text determines the
  payload, so two requests share a hash only if they are the same request or SHA-256 collides.
\<close>

section \<open>Canonical payload\<close>

text \<open>
  The validated body of \<open>POST /v1/intents\<close>. \<open>destinationTag\<close> may be absent or \<open>null\<close>; both are
  the canonical "no tag".
\<close>

datatype tag_field = TagAbsent | TagNull | TagNumber nat

datatype amount_dto =
    XrpAmountDto string
  | IssuedAmountDto string string string

datatype create_intent_dto =
    PaymentIntentDto string string amount_dto tag_field
  | TrustSetIntentDto string string string string

fun canonical_amount :: "amount_dto \<Rightarrow> amount" where
  "canonical_amount (XrpAmountDto d) = XrpAmount d"
| "canonical_amount (IssuedAmountDto c i v) = IssuedAmount c i v"

fun canonical_tag :: "tag_field \<Rightarrow> nat option" where
  "canonical_tag TagAbsent = None"
| "canonical_tag TagNull = None"
| "canonical_tag (TagNumber n) = Some n"

fun to_canonical_intent :: "create_intent_dto \<Rightarrow> payload" where
  "to_canonical_intent (PaymentIntentDto a d am tag) =
     PaymentIntent a d (canonical_amount am) (canonical_tag tag)"
| "to_canonical_intent (TrustSetIntentDto a c i v) = TrustSetIntent a c i v"

section \<open>\<open>JSON.stringify\<close>\<close>

definition hex_digit :: "nat \<Rightarrow> char" where
  "hex_digit n = ''0123456789abcdef'' ! n"

definition escape_char :: "char \<Rightarrow> string" where
  "escape_char c =
     (let n = of_char c :: nat
      in if n = 34 then [CHR 0x5C, CHR 0x22]
         else if n = 92 then [CHR 0x5C, CHR 0x5C]
         else if n = 8 then [CHR 0x5C, CHR ''b'']
         else if n = 9 then [CHR 0x5C, CHR ''t'']
         else if n = 10 then [CHR 0x5C, CHR ''n'']
         else if n = 12 then [CHR 0x5C, CHR ''f'']
         else if n = 13 then [CHR 0x5C, CHR ''r'']
         else if n < 32
         then [CHR 0x5C, CHR ''u'', CHR ''0'', CHR ''0'', hex_digit (n div 16),
               hex_digit (n mod 16)]
         else [c])"

definition quote :: "string \<Rightarrow> string" where
  "quote s = CHR 0x22 # concat (map escape_char s) @ [CHR 0x22]"

fun decimal :: "nat \<Rightarrow> string" where
  "decimal n = (if n < 10 then [char_of (48 + n)] else decimal (n div 10) @ [char_of (48 + n mod 10)])"

declare decimal.simps [simp del]

fun stringify :: "json \<Rightarrow> string" where
  "stringify JNull = ''null''"
| "stringify (JBool b) = (if b then ''true'' else ''false'')"
| "stringify (JNum n) = (if n < 0 then ''-'' @ decimal (nat (- n)) else decimal (nat n))"
| "stringify (JDec t) = t"
| "stringify (JStr s) = quote s"
| "stringify (JArr vs) = ''['' @ join '','' (map stringify vs) @ '']''"
| "stringify (JObj kvs) = ''{'' @ join '','' (map (\<lambda>(k, v). quote k @ '':'' @ stringify v) kvs) @ ''}''"

definition request_hash_of :: "codec \<Rightarrow> payload \<Rightarrow> string" where
  "request_hash_of X p = upper (x_sha256_hex X (stringify (JObj (payload_object p))))"

section \<open>The text determines the payload\<close>

text \<open>Reading one character back; what \<open>escape_char\<close> wrote is a prefix code.\<close>

definition hex_value :: "char \<Rightarrow> nat" where
  "hex_value c = (if (of_char c :: nat) < 58 then of_char c - 48 else of_char c - 87)"

fun unescape_at :: "char \<Rightarrow> string \<Rightarrow> char \<times> string" where
  "unescape_at k r =
     (if k = CHR ''b'' then (CHR 0x08, r)
      else if k = CHR ''t'' then (CHR 0x09, r)
      else if k = CHR ''n'' then (CHR 0x0A, r)
      else if k = CHR ''f'' then (CHR 0x0C, r)
      else if k = CHR ''r'' then (CHR 0x0D, r)
      else if k = CHR ''u''
      then (char_of (16 * hex_value (r ! 2) + hex_value (r ! 3)), drop 4 r)
      else (k, r))"

fun read_char :: "string \<Rightarrow> char \<times> string" where
  "read_char (c # k # r) =
     (if (of_char c :: nat) = 92 then unescape_at k r else (c, k # r))"
| "read_char [c] = (c, [])"
| "read_char [] = (CHR 0x00, [])"

lemma hex_digits: "list_all (\<lambda>m. hex_value (hex_digit m) = m) [0..<16]"
  by code_simp

lemma hex_value_digit: "m < 16 \<Longrightarrow> hex_value (hex_digit m) = m"
  using hex_digits by (simp add: list_all_iff)

lemma read_char_escape: "read_char (escape_char c @ d # u) = (c, d # u)"
proof -
  define n where "n = (of_char c :: nat)"
  have c: "c = char_of n" by (simp add: n_def)
  have n: "of_char c = n" by (simp add: n_def)
  consider "n = 34" | "n = 92" | "n = 8" | "n = 9" | "n = 10" | "n = 12" | "n = 13"
    | "n < 32" "n \<notin> {8, 9, 10, 12, 13}" | "32 \<le> n" "n \<noteq> 34" "n \<noteq> 92"
    by force
  then show ?thesis
  proof cases
    case 8
    have "escape_char c = [CHR 0x5C, CHR ''u'', CHR ''0'', CHR ''0'',
        hex_digit (n div 16), hex_digit (n mod 16)]"
      using 8 by (simp add: escape_char_def Let_def n)
    moreover have "hex_value (hex_digit (n div 16)) = n div 16"
      using 8 by (intro hex_value_digit) simp
    moreover have "hex_value (hex_digit (n mod 16)) = n mod 16"
      by (intro hex_value_digit) simp
    ultimately show ?thesis using c by simp
  next
    case 9
    then show ?thesis by (simp add: escape_char_def n)
  qed (simp_all add: escape_char_def n, simp_all add: c char_of_def bit_0)
qed

lemma escape_char_start: "\<exists>k r. escape_char c = k # r \<and> k \<noteq> CHR 0x22"
proof -
  have "c \<noteq> CHR 0x22" if "of_char c \<noteq> (34::nat)"
    using that by auto
  then show ?thesis by (auto simp: escape_char_def Let_def)
qed

lemma quote_body_inj:
  "concat (map escape_char s) @ CHR 0x22 # x = concat (map escape_char t) @ CHR 0x22 # y
     \<Longrightarrow> s = t \<and> x = y"
proof (induction s arbitrary: t)
  case Nil
  then show ?case
    using escape_char_start by (cases t) (auto, metis list.sel(1) append_Cons)
next
  case (Cons c s)
  show ?case
  proof (cases t)
    case Nil
    with Cons.prems escape_char_start[of c] show ?thesis by auto
  next
    case (Cons d t')
    let ?f = "\<lambda>s x. concat (map escape_char s) @ CHR 0x22 # x"
    have ne: "\<exists>e u. ?f s x = e # u" for s x by (cases "?f s x") auto
    have "escape_char c @ ?f s x = escape_char d @ ?f t' y"
      using Cons.prems Cons by simp
    then have "read_char (escape_char c @ ?f s x) = read_char (escape_char d @ ?f t' y)"
      by (rule arg_cong)
    then have "c = d" "?f s x = ?f t' y"
      using ne[of s x] ne[of t' y] by (auto simp: read_char_escape)
    with Cons.IH[of t'] Cons show ?thesis by simp
  qed
qed

lemma quote_inj: "quote s @ x = quote t @ y \<longleftrightarrow> s = t \<and> x = y"
  using quote_body_inj[of s x t y] by (auto simp: quote_def)

lemma quote_eq_iff [simp]: "quote s = quote t \<longleftrightarrow> s = t"
  using quote_inj[of s "[]" t "[]"] by simp

lemma decimal_digits: "all_in ''0123456789'' (decimal n)"
proof (induction n rule: decimal.induct)
  case (1 n)
  have d: "(char_of (48 + m) :: char) \<in> set ''0123456789''" if "m < 10" for m :: nat
  proof -
    have "list_all (\<lambda>m. (char_of (48 + m) :: char) \<in> set ''0123456789'') [0..<10]" by code_simp
    with that show ?thesis by (simp add: list_all_iff del: list.set)
  qed
  show ?case
    using 1 d by (subst decimal.simps) (auto simp: all_in_def simp del: list.set)
qed

lemma nat_of_digits_acc_append:
  "nat_of_digits_acc a (s @ [c]) = 10 * nat_of_digits_acc a s + digit_value c"
  by (induction a s rule: nat_of_digits_acc.induct) auto

lemma nat_of_digits_decimal [simp]: "nat_of_digits (decimal n) = n"
proof (induction n rule: decimal.induct)
  case (1 n)
  have d: "digit_value (char_of (48 + m)) = m" if "m < 10" for m
    using that by (simp add: digit_value_def)
  show ?case
    using 1 d by (subst decimal.simps) (auto simp: nat_of_digits_def nat_of_digits_acc_append)
qed

lemma decimal_inj: "decimal m = decimal n \<longleftrightarrow> m = n"
  by (metis nat_of_digits_decimal)

lemma decimal_not_null: "decimal m @ x \<noteq> ''null'' @ y"
proof -
  have "decimal m \<noteq> []" by (subst decimal.simps) simp
  moreover have "hd (decimal m) \<noteq> CHR ''n''" if "decimal m \<noteq> []"
    using decimal_digits[of m] that by (cases "decimal m") (auto simp: all_in_def)
  ultimately show ?thesis by (cases "decimal m") auto
qed


lemma stringify_tag_inj:
  "stringify (case tag of None \<Rightarrow> JNull | Some n \<Rightarrow> JNum (int n)) @ ''}'' =
     stringify (case tag' of None \<Rightarrow> JNull | Some n \<Rightarrow> JNum (int n)) @ ''}'' \<longleftrightarrow> tag = tag'"
  using decimal_not_null[of _ "[]" "[]"]
  by (auto simp: decimal_inj split: option.splits) (metis append_Nil2)+

lemma key_texts:
  "quote ''type'' = CHR 0x22 # ''type'' @ [CHR 0x22]"
  "quote ''account'' = CHR 0x22 # ''account'' @ [CHR 0x22]"
  "quote ''destination'' = CHR 0x22 # ''destination'' @ [CHR 0x22]"
  "quote ''amount'' = CHR 0x22 # ''amount'' @ [CHR 0x22]"
  "quote ''destinationTag'' = CHR 0x22 # ''destinationTag'' @ [CHR 0x22]"
  "quote ''limitAmount'' = CHR 0x22 # ''limitAmount'' @ [CHR 0x22]"
  "quote ''drops'' = CHR 0x22 # ''drops'' @ [CHR 0x22]"
  "quote ''currency'' = CHR 0x22 # ''currency'' @ [CHR 0x22]"
  "quote ''issuer'' = CHR 0x22 # ''issuer'' @ [CHR 0x22]"
  "quote ''value'' = CHR 0x22 # ''value'' @ [CHR 0x22]"
  "quote ''PAYMENT'' = CHR 0x22 # ''PAYMENT'' @ [CHR 0x22]"
  "quote ''TRUST_SET'' = CHR 0x22 # ''TRUST_SET'' @ [CHR 0x22]"
  "quote ''XRP'' = CHR 0x22 # ''XRP'' @ [CHR 0x22]"
  "quote ''ISSUED_CURRENCY'' = CHR 0x22 # ''ISSUED_CURRENCY'' @ [CHR 0x22]"
  by (simp_all add: quote_def escape_char_def)

lemma stringify_amount_inj:
  "stringify (JObj (amount_object a)) @ x = stringify (JObj (amount_object b)) @ y \<longleftrightarrow>
     a = b \<and> x = y"
  by (cases a; cases b) (auto simp: key_texts quote_inj quote_inj[of _ "[]" _ "[]", simplified])

lemma payment_text:
  "stringify (JObj (payload_object (PaymentIntent a d am t))) =
     ''{'' @ quote ''type'' @ '':'' @ quote ''PAYMENT'' @ '','' @ quote ''account'' @ '':'' @ quote a
     @ '','' @ quote ''destination'' @ '':'' @ quote d @ '','' @ quote ''amount'' @ '':''
     @ stringify (JObj (amount_object am)) @ '','' @ quote ''destinationTag'' @ '':''
     @ stringify (case t of None \<Rightarrow> JNull | Some n \<Rightarrow> JNum (int n)) @ ''}''"
  by simp

lemma stringify_payload_inj:
  "stringify (JObj (payload_object p)) = stringify (JObj (payload_object q)) \<longleftrightarrow> p = q"
proof (cases p; cases q)
  fix a d am t a' d' am' t'
  assume "p = PaymentIntent a d am t" "q = PaymentIntent a' d' am' t'"
  then show ?thesis
    by (simp only: payment_text append.assoc quote_inj same_append_eq stringify_amount_inj
        stringify_tag_inj payload.inject)
qed (simp_all add: key_texts quote_inj)
end
