(* ===== verification/Lifecycle.thy ===== *)
theory Lifecycle
  imports StoreLaws Artifacts Requests
begin

text \<open>
  The abstract specification of an intent: what its row holds in each status (\<open>row_ok\<close>), the
  changes a row may undergo and the evidence each needs (\<open>row_step\<close>, \<open>row_touch\<close>), and what no
  change ever undoes (\<open>row_evolves\<close>). Evidence is what the handler that commits the change was
  answered by the ledger; the row is the one found at the commit, not the one the handler once
  read. The services refine this specification; nothing here mentions their control flow.
\<close>

section \<open>What a row holds\<close>

text \<open>\<open>X\<close> is the codec, \<open>N\<close> the configured network id.\<close>

definition identity_ok :: "codec \<Rightarrow> nat \<Rightarrow> intent_row \<Rightarrow> bool" where
  "identity_ok X N r \<longleftrightarrow>
     (\<exists>p. intent_payload r = JObj (payload_object p) \<and> request_hash r = request_hash_of X p \<and>
        intent_type r = payload_type p \<and> source_account r = account p \<and> network_id r = N)"

definition unprepared :: "intent_row \<Rightarrow> bool" where
  "unprepared r \<longleftrightarrow>
     prepared_tx_json r = None \<and> prepared_tx_blob r = None \<and> prepared_ledger_index r = None \<and>
     sequence r = None \<and> fee_drops r = None \<and> last_ledger_sequence r = None"

text \<open>The prepared columns are the built transaction, its encoding and its parameters.\<close>

definition prepared_as ::
  "codec \<Rightarrow> nat \<Rightarrow> payload \<Rightarrow> string \<Rightarrow> nat \<Rightarrow> nat \<Rightarrow> object \<Rightarrow> string \<Rightarrow> bool" where
  "prepared_as X N p fee seq ledger tx blob \<longleftrightarrow>
     tx = build_transaction p
            \<lparr>param_fee = fee, param_sequence = seq,
             param_last_ledger_sequence = last_ledger_sequence_for ledger, param_network_id = N\<rparr> \<and>
     check_fee fee = Inr fee \<and> validate_transaction X tx = Inr () \<and>
     encode_transaction X tx = Inr blob"

definition prepared_ok :: "codec \<Rightarrow> nat \<Rightarrow> intent_row \<Rightarrow> bool" where
  "prepared_ok X N r \<longleftrightarrow>
     (\<exists>p fee seq ledger tx blob.
        intent_payload r = JObj (payload_object p) \<and> prepared_as X N p fee seq ledger tx blob \<and>
        prepared_tx_json r = Some (JObj tx) \<and> prepared_tx_blob r = Some blob \<and>
        prepared_ledger_index r = Some ledger \<and> sequence r = Some seq \<and> fee_drops r = Some fee \<and>
        last_ledger_sequence r = Some (last_ledger_sequence_for ledger))"

definition simulated_ok :: "codec \<Rightarrow> intent_row \<Rightarrow> bool" where
  "simulated_ok X r \<longleftrightarrow>
     (\<exists>tx raw sim.
        prepared_tx_json r = Some (JObj tx) \<and> simulation_result r = Some (JObj raw) \<and>
        parse_simulation raw = Inr sim \<and>
        simulation_engine_result r = Some (sim_engine_result sim) \<and>
        simulation_matches_prepared X tx (sim_tx_json sim))"

definition signed_ok :: "codec \<Rightarrow> intent_row \<Rightarrow> bool" where
  "signed_ok X r \<longleftrightarrow>
     (\<exists>pb v. prepared_tx_blob r = Some pb \<and> verify X (vb_tx_blob v) pb = Inr v \<and>
        signed_tx_blob r = Some (vb_tx_blob v) \<and>
        transaction_hash r = Some (vb_transaction_hash v) \<and>
        signing_pub_key r = Some (vb_signing_pub_key v))"

definition unsigned_row :: "intent_row \<Rightarrow> bool" where
  "unsigned_row r \<longleftrightarrow> signed_tx_blob r = None \<and> transaction_hash r = None \<and> signing_pub_key r = None"

definition tes_or_tec :: "string \<Rightarrow> bool" where
  "tes_or_tec res \<longleftrightarrow> starts_with ''tes'' res \<or> starts_with ''tec'' res"

definition validated_ok :: "intent_row \<Rightarrow> bool" where
  "validated_ok r \<longleftrightarrow>
     (\<exists>res idx low high.
        final_result r = Some res \<and> tes_or_tec res \<and> final_ledger_index r = Some idx \<and>
        prepared_ledger_index r = Some low \<and> last_ledger_sequence r = Some high \<and>
        low < idx \<and> idx \<le> high)"

definition row_ok :: "codec \<Rightarrow> nat \<Rightarrow> intent_row \<Rightarrow> bool" where
  "row_ok X N r \<longleftrightarrow>
     identity_ok X N r \<and>
     (if status r = CREATED then unprepared r else prepared_ok X N r) \<and>
     (if simulation_engine_result r = None
      then status r \<in> {CREATED, PREPARED, EXPIRED, FAILED}
      else simulated_ok X r \<and> status r \<notin> {CREATED, PREPARED}) \<and>
     (status r \<in> {CREATED, PREPARED} \<longrightarrow> simulation_result r = None) \<and>
     (if signed_tx_blob r = None
      then unsigned_row r \<and> status r \<notin> {SIGNED, SUBMITTED, VALIDATED}
      else signed_ok X r \<and> simulation_engine_result r = Some ''tesSUCCESS'' \<and>
           status r \<in> {SIGNED, SUBMITTED, VALIDATED, REJECTED, EXPIRED, FAILED}) \<and>
     (status r = AWAITING_SIGNATURE \<longrightarrow> simulation_engine_result r = Some ''tesSUCCESS'') \<and>
     (status r = REJECTED \<longrightarrow>
        (if signed_tx_blob r = None
         then \<exists>er. simulation_engine_result r = Some er \<and> er \<noteq> ''tesSUCCESS''
         else \<exists>er. submit_engine_result r = Some er \<and> starts_with ''tem'' er)) \<and>
     (if status r = VALIDATED then validated_ok r
      else final_result r = None \<and> final_ledger_index r = None) \<and>
     (failure_code r \<noteq> None \<longleftrightarrow> status r = FAILED)"

lemmas row_ok_defs =
  row_ok_def identity_ok_def unprepared_def prepared_ok_def simulated_ok_def signed_ok_def
  unsigned_row_def validated_ok_def

section \<open>What may happen to a row\<close>

definition moved :: "column list \<Rightarrow> intent_status \<Rightarrow> nat \<Rightarrow> intent_row \<Rightarrow> intent_row" where
  "moved cols s now r = (apply_patch cols r)\<lparr>status := s, updated_at := now\<rparr>"

definition touched :: "column list \<Rightarrow> nat \<Rightarrow> intent_row \<Rightarrow> intent_row" where
  "touched cols now r = (apply_patch cols r)\<lparr>updated_at := now\<rparr>"

text \<open>Some validated answer named ledger \<open>n\<close>.\<close>

definition seen_ledger :: "(env_call, env_answer) trace \<Rightarrow> nat \<Rightarrow> bool" where
  "seen_ledger tr n \<longleftrightarrow>
     answered tr validated_ledger_request read_validated_ledger n \<or>
     (\<exists>acct a. answered tr (validated_account_request acct) read_validated_account (Some a) \<and>
        ai_ledger_index a = Some n)"

definition sequence_failure :: "nat \<Rightarrow> nat \<Rightarrow> failure_code" where
  "sequence_failure current prepared =
     (if prepared < current then FC_SEQUENCE_CONFLICT else FC_SEQUENCE_REGRESSION)"

text \<open>The question asked about a signed intent, and the answer that settles absence.\<close>

definition lookup_request :: "intent_row \<Rightarrow> ledger_request option" where
  "lookup_request r =
     (case (transaction_hash r, prepared_ledger_index r, last_ledger_sequence r) of
        (Some h, Some low, Some high) \<Rightarrow> Some (tx_request h (js_add low 1) high)
      | _ \<Rightarrow> None)"

definition consistent_lookup :: "intent_row \<Rightarrow> tx_lookup \<Rightarrow> bool" where
  "consistent_lookup r lk \<longleftrightarrow>
     map_option upper (lk_hash lk) = transaction_hash r \<and>
     (\<exists>low high idx. prepared_ledger_index r = Some low \<and> last_ledger_sequence r = Some high \<and>
        lk_ledger_index lk = Some idx \<and> low < idx \<and> idx \<le> high)"

definition found_validated ::
  "(env_call, env_answer) trace \<Rightarrow> intent_row \<Rightarrow> tx_lookup \<Rightarrow> object \<Rightarrow> bool" where
  "found_validated tr r lk raw \<longleftrightarrow>
     (\<exists>q. lookup_request r = Some q \<and> answered tr q read_tx (Found lk raw)) \<and> lk_validated lk"

definition proven_absent :: "(env_call, env_answer) trace \<Rightarrow> intent_row \<Rightarrow> nat \<Rightarrow> bool" where
  "proven_absent tr r high \<longleftrightarrow>
     last_ledger_sequence r = Some high \<and>
     (\<exists>q. lookup_request r = Some q \<and> answered tr q read_tx (NotFound True)) \<and>
     (\<exists>n. seen_ledger tr n \<and> high < n)"

definition account_beyond ::
  "(env_call, env_answer) trace \<Rightarrow> intent_row \<Rightarrow> nat \<Rightarrow> account_info \<Rightarrow> bool" where
  "account_beyond tr r high a \<longleftrightarrow>
     answered tr (validated_account_request (source_account r)) read_validated_account (Some a) \<and>
     (\<exists>n. ai_ledger_index a = Some n \<and> high < n)"

inductive row_step ::
  "codec \<Rightarrow> nat \<Rightarrow> (env_call, env_answer) trace \<Rightarrow> transition_reason \<Rightarrow> intent_row \<Rightarrow> intent_row
    \<Rightarrow> bool"
  for X N tr where
  Prepare: "status r = CREATED \<Longrightarrow> intent_payload r = JObj (payload_object p) \<Longrightarrow>
     answered tr (validated_account_request (account p)) read_validated_account (Some v) \<Longrightarrow>
     answered tr (current_account_request (account p)) read_current_account c \<Longrightarrow>
     ai_sequence c = ai_sequence v \<Longrightarrow> ai_queued_transaction_count c = 0 \<Longrightarrow>
     answered tr validated_ledger_request read_validated_ledger ledger \<Longrightarrow>
     answered tr fee_request read_open_ledger_fee fee \<Longrightarrow>
     prepared_as X N p fee (ai_sequence v) ledger tx blob \<Longrightarrow>
     row_step X N tr TRANSACTION_PREPARED r
       (moved [PreparedTxJson (JObj tx), PreparedTxBlob blob, PreparedLedgerIndex ledger,
               Sequence (ai_sequence v), FeeDrops fee,
               LastLedgerSequence (last_ledger_sequence_for ledger), PreparedAt t] PREPARED now r)"
| Simulate: "status r = PREPARED \<Longrightarrow> prepared_tx_json r = Some (JObj tx) \<Longrightarrow>
     last_ledger_sequence r = Some high \<Longrightarrow>
     answered tr validated_ledger_request read_validated_ledger n \<Longrightarrow> n \<le> high \<Longrightarrow>
     to_canonical_form tx = Inr c \<Longrightarrow> answered tr (simulate_request c) read_simulation (sim, raw) \<Longrightarrow>
     simulation_matches_prepared X tx (sim_tx_json sim) \<Longrightarrow>
     row_step X N tr SIMULATION_COMPLETED r
       (moved [SimulationEngineResult (sim_engine_result sim), SimulationResult (JObj raw),
               SimulatedAt t] SIMULATED now r)"
| Mismatch: "status r = PREPARED \<Longrightarrow> prepared_tx_json r = Some (JObj tx) \<Longrightarrow>
     to_canonical_form tx = Inr c \<Longrightarrow> answered tr (simulate_request c) read_simulation (sim, raw) \<Longrightarrow>
     \<not> simulation_matches_prepared X tx (sim_tx_json sim) \<Longrightarrow>
     row_step X N tr SIMULATION_ARTIFACT_MISMATCH r
       (moved [FailureCode FC_SIMULATION_ARTIFACT_MISMATCH, SimulationResult (JObj raw)]
          FAILED now r)"
| Pass: "status r = SIMULATED \<Longrightarrow> simulation_engine_result r = Some ''tesSUCCESS'' \<Longrightarrow>
     row_step X N tr SIMULATION_PASSED r (moved [] AWAITING_SIGNATURE now r)"
| Reject: "status r = SIMULATED \<Longrightarrow> simulation_engine_result r = Some er \<Longrightarrow> er \<noteq> ''tesSUCCESS'' \<Longrightarrow>
     row_step X N tr SIMULATION_REJECTED_REASON r (moved [] REJECTED now r)"
| Sign: "status r = AWAITING_SIGNATURE \<Longrightarrow> prepared_tx_blob r = Some pb \<Longrightarrow>
     verify X b pb = Inr v \<Longrightarrow>
     answered tr (validated_account_request (source_account r)) read_validated_account (Some a) \<Longrightarrow>
     assert_authorized X (vb_signing_pub_key v) (source_account r) a = Inr () \<Longrightarrow>
     sequence r = Some (ai_sequence a) \<Longrightarrow>
     last_ledger_sequence r = Some high \<Longrightarrow> seen_ledger tr n \<Longrightarrow> n \<le> high \<Longrightarrow>
     row_step X N tr SIGNATURE_ACCEPTED r
       (moved [SignedTxBlob (vb_tx_blob v), TransactionHash (vb_transaction_hash v),
               SigningPubKey (vb_signing_pub_key v), SignedAt t] SIGNED now r)"
| Sequence_lost: "status r = AWAITING_SIGNATURE \<Longrightarrow> sequence r = Some seq \<Longrightarrow>
     answered tr (validated_account_request (source_account r)) read_validated_account (Some a) \<Longrightarrow>
     ai_sequence a \<noteq> seq \<Longrightarrow> code = sequence_failure (ai_sequence a) seq \<Longrightarrow>
     row_step X N tr (reason_of_failure code) r (moved [FailureCode code] FAILED now r)"
| Expire_unsigned: "status r \<in> set unsigned_active_statuses \<Longrightarrow>
     last_ledger_sequence r = Some high \<Longrightarrow> seen_ledger tr n \<Longrightarrow> high < n \<Longrightarrow>
     row_step X N tr SIGNATURE_WINDOW_EXPIRED r (moved [] EXPIRED now r)"
| Submit: "status r = SIGNED \<Longrightarrow> signed_tx_blob r = Some b \<Longrightarrow>
     answered tr (submit_request b) read_submit (res, raw) \<Longrightarrow>
     \<not> starts_with ''tem'' (sub_engine_result res) \<Longrightarrow>
     row_step X N tr TRANSACTION_SUBMITTED r
       (moved [SubmitEngineResult (sub_engine_result res), SubmitResponse (JObj raw),
               IncrementAttemptCount, LastSubmitAttemptAt t, SubmittedAt t] SUBMITTED now r)"
| Malformed: "status r = SIGNED \<Longrightarrow> signed_tx_blob r = Some b \<Longrightarrow>
     answered tr (submit_request b) read_submit (res, raw) \<Longrightarrow>
     starts_with ''tem'' (sub_engine_result res) \<Longrightarrow>
     row_step X N tr MALFORMED_TRANSACTION r
       (moved [SubmitEngineResult (sub_engine_result res), SubmitResponse (JObj raw),
               IncrementAttemptCount, LastSubmitAttemptAt t] REJECTED now r)"
| Validate: "status r \<in> set signed_active_statuses \<Longrightarrow> found_validated tr r lk raw \<Longrightarrow>
     consistent_lookup r lk \<Longrightarrow> lk_ledger_index lk = Some idx \<Longrightarrow>
     lk_transaction_result lk = Some res \<Longrightarrow> tes_or_tec res \<Longrightarrow>
     row_step X N tr TRANSACTION_VALIDATED r
       (moved [FinalResult res, FinalLedgerIndex idx, FinalLedgerHash lh, FinalTxJson txj,
               FinalMeta mt, FinalizedAt t] VALIDATED now r)"
| Integrity: "status r \<in> set signed_active_statuses \<Longrightarrow> found_validated tr r lk raw \<Longrightarrow>
     \<not> consistent_lookup r lk \<Longrightarrow>
     row_step X N tr FINALITY_INTEGRITY_ERROR r
       (moved [FailureCode FC_FINALITY_INTEGRITY_ERROR] FAILED now r)"
| Unexpected: "status r \<in> set signed_active_statuses \<Longrightarrow> found_validated tr r lk raw \<Longrightarrow>
     consistent_lookup r lk \<Longrightarrow>
     \<not> (\<exists>res. lk_transaction_result lk = Some res \<and> tes_or_tec res) \<Longrightarrow>
     row_step X N tr UNEXPECTED_VALIDATED_RESULT r
       (moved [FailureCode FC_UNEXPECTED_VALIDATED_RESULT] FAILED now r)"
| Expire_signed: "status r \<in> set signed_active_statuses \<Longrightarrow> proven_absent tr r high \<Longrightarrow>
     account_beyond tr r high a \<Longrightarrow> sequence r = Some (ai_sequence a) \<Longrightarrow>
     row_step X N tr LAST_LEDGER_SEQUENCE_EXPIRED r (moved [] EXPIRED now r)"
| Sequence_taken: "status r \<in> set signed_active_statuses \<Longrightarrow> proven_absent tr r high \<Longrightarrow>
     account_beyond tr r high a \<Longrightarrow> sequence r = Some seq \<Longrightarrow> ai_sequence a \<noteq> seq \<Longrightarrow>
     code = sequence_failure (ai_sequence a) seq \<Longrightarrow>
     row_step X N tr (reason_of_failure code) r (moved [FailureCode code] FAILED now r)"
| Account_gone: "status r \<in> set signed_active_statuses \<Longrightarrow> proven_absent tr r high \<Longrightarrow>
     answered tr (validated_account_request (source_account r)) read_validated_account None \<Longrightarrow>
     row_step X N tr SEQUENCE_CONFLICT r (moved [FailureCode FC_SEQUENCE_CONFLICT] FAILED now r)"

text \<open>Changes that leave the status: the bookkeeping of submission attempts.\<close>

inductive row_touch ::
  "(env_call, env_answer) trace \<Rightarrow> intent_row \<Rightarrow> intent_row \<Rightarrow> bool" for tr where
  Baseline: "status r = SIGNED \<Longrightarrow> last_ledger_sequence r = Some high \<Longrightarrow>
     answered tr validated_ledger_request read_validated_ledger n \<Longrightarrow> n \<le> high \<Longrightarrow>
     row_touch tr r (touched [SubmissionValidatedLedger n] now r)"
| Attempt: "status r \<in> set signed_active_statuses \<Longrightarrow>
     row_touch tr r (touched [LastSubmitAttemptAt t] now r)"
| Resubmit: "status r = SUBMITTED \<Longrightarrow> signed_tx_blob r = Some b \<Longrightarrow>
     answered tr (submit_request b) read_submit (res, raw) \<Longrightarrow>
     row_touch tr r
       (touched [SubmitEngineResult (sub_engine_result res), SubmitResponse (JObj raw),
                 IncrementAttemptCount, LastSubmitAttemptAt t] now r)"

section \<open>What no change undoes\<close>

text \<open>A column that is written once keeps its value.\<close>

definition kept :: "('r \<Rightarrow> 'v option) \<Rightarrow> 'r \<Rightarrow> 'r \<Rightarrow> bool" where
  "kept f r r' \<longleftrightarrow> f r = None \<or> f r' = f r"

definition same_identity :: "intent_row \<Rightarrow> intent_row \<Rightarrow> bool" where
  "same_identity r r' \<longleftrightarrow>
     intent_id r' = intent_id r \<and> idempotency_key r' = idempotency_key r \<and>
     request_hash r' = request_hash r \<and> network_id r' = network_id r \<and>
     intent_type r' = intent_type r \<and> source_account r' = source_account r \<and>
     intent_payload r' = intent_payload r \<and> created_at r' = created_at r"

definition kept_columns :: "intent_row \<Rightarrow> intent_row \<Rightarrow> bool" where
  "kept_columns r r' \<longleftrightarrow>
     kept prepared_tx_json r r' \<and> kept prepared_tx_blob r r' \<and>
     kept prepared_ledger_index r r' \<and> kept sequence r r' \<and> kept fee_drops r r' \<and>
     kept last_ledger_sequence r r' \<and> kept simulation_engine_result r r' \<and>
     kept simulation_result r r' \<and> kept signed_tx_blob r r' \<and> kept transaction_hash r r' \<and>
     kept signing_pub_key r r' \<and> kept final_result r r' \<and> kept final_ledger_index r r' \<and>
     kept failure_code r r'"

definition row_evolves :: "intent_row \<Rightarrow> intent_row \<Rightarrow> bool" where
  "row_evolves r r' \<longleftrightarrow>
     same_identity r r' \<and> can_transition\<^sup>*\<^sup>* (status r) (status r') \<and> kept_columns r r' \<and>
     (is_terminal (status r) \<longrightarrow> r' = r)"

lemma kept_refl [simp]: "kept f r r"
  by (simp add: kept_def)

lemma kept_trans: "kept f r r' \<Longrightarrow> kept f r' r'' \<Longrightarrow> kept f r r''"
  by (auto simp: kept_def)

lemma keptD: "kept f r r' \<Longrightarrow> f r = Some x \<Longrightarrow> f r' = Some x"
  by (auto simp: kept_def)

lemma row_evolves_refl [simp]: "row_evolves r r"
  by (simp add: row_evolves_def same_identity_def kept_columns_def)

lemma kept_columns_trans: "kept_columns r r' \<Longrightarrow> kept_columns r' r'' \<Longrightarrow> kept_columns r r''"
  unfolding kept_columns_def by (blast intro: kept_trans)

lemma row_evolves_trans: "row_evolves r r' \<Longrightarrow> row_evolves r' r'' \<Longrightarrow> row_evolves r r''"
  unfolding row_evolves_def same_identity_def
  by (auto intro: kept_columns_trans rtranclp_trans)

end
