(* ===== verification/LifecycleLaws.thy ===== *)
theory LifecycleLaws
  imports Lifecycle
begin

text \<open>
  The specification is consistent: every permitted change keeps the row well formed, moves its
  status along the table and undoes nothing. Then the world built from such rows, as invariant,
  rely and guarantee for the handlers, and one proof rule per repository method.
\<close>

section \<open>Rows\<close>

lemmas row_change_simps = moved_def touched_def

lemma row_step_status:
  "row_step X N tr reason r r' \<Longrightarrow> can_transition (status r) (status r')"
  by (induction rule: row_step.induct) (auto simp: moved_def status_groups)

lemma row_touch_status: "row_touch tr r r' \<Longrightarrow> status r' = status r"
  by (induction rule: row_touch.induct) (simp_all add: touched_def)

lemma row_step_identity: "row_step X N tr reason r r' \<Longrightarrow> same_identity r r'"
  by (induction rule: row_step.induct) (simp_all add: same_identity_def moved_def)

lemma row_touch_identity: "row_touch tr r r' \<Longrightarrow> same_identity r r'"
  by (induction rule: row_touch.induct) (simp_all add: same_identity_def touched_def)

lemma row_step_kept: "row_step X N tr reason r r' \<Longrightarrow> row_ok X N r \<Longrightarrow> kept_columns r r'"
proof (induction rule: row_step.induct)
  case (Prepare r p v c ledger fee tx blob t now)
  then show ?case by (simp add: kept_columns_def kept_def row_change_simps row_ok_def unprepared_def)
next
  case (Sign r pb b v a high n t now)
  then have "unsigned_row r" by (auto simp: row_ok_def split: if_splits)
  then show ?case by (simp add: kept_columns_def kept_def row_change_simps unsigned_row_def)
next
  case (Validate r lk raw idx res lh txj mt t now)
  then have "final_result r = None \<and> final_ledger_index r = None"
    by (auto simp: row_ok_def status_groups split: if_splits)
  then show ?case by (simp add: kept_columns_def kept_def row_change_simps)
qed (auto simp: kept_columns_def kept_def row_change_simps row_ok_def status_groups split: if_splits)

lemma row_touch_kept: "row_touch tr r r' \<Longrightarrow> kept_columns r r'"
  by (induction rule: row_touch.induct) (simp_all add: kept_columns_def kept_def row_change_simps)

lemma not_terminal_step: "can_transition s t \<Longrightarrow> \<not> is_terminal s"
  by (cases s) (auto simp: status_groups)

lemma row_step_evolves: "row_step X N tr reason r r' \<Longrightarrow> row_ok X N r \<Longrightarrow> row_evolves r r'"
  using row_step_status row_step_identity row_step_kept not_terminal_step
  unfolding row_evolves_def by blast

lemma row_touch_active: "row_touch tr r r' \<Longrightarrow> status r \<in> set signed_active_statuses"
  by (induction rule: row_touch.induct) (auto simp: status_groups)

lemma row_touch_evolves: "row_touch tr r r' \<Longrightarrow> row_evolves r r'"
  using row_touch_status[of tr r r'] row_touch_identity[of tr r r'] row_touch_kept[of tr r r']
    row_touch_active[of tr r r']
  unfolding row_evolves_def by (auto simp: status_groups)

text \<open>Facts about a well-formed row, by status.\<close>

lemma row_ok_prepared: "row_ok X N r \<Longrightarrow> status r \<noteq> CREATED \<Longrightarrow> prepared_ok X N r"
  by (simp add: row_ok_def)

lemma row_ok_signed:
  "row_ok X N r \<Longrightarrow> status r \<in> {SIGNED, SUBMITTED, VALIDATED} \<Longrightarrow>
     signed_ok X r \<and> simulation_engine_result r = Some ''tesSUCCESS''"
  by (auto simp: row_ok_def split: if_splits)

lemma row_ok_blob:
  "row_ok X N r \<Longrightarrow> signed_tx_blob r = Some b \<Longrightarrow>
     signed_ok X r \<and> simulated_ok X r \<and> prepared_ok X N r \<and>
     simulation_engine_result r = Some ''tesSUCCESS''"
  by (auto simp: row_ok_def split: if_splits)

lemma row_ok_validated: "row_ok X N r \<Longrightarrow> status r = VALIDATED \<Longrightarrow> validated_ok r"
  by (simp add: row_ok_def)

text \<open>
  A change that writes none of the columns a predicate reads keeps it. The columns are the
  arguments, so each lemma says which ones those are.
\<close>

lemma identity_ok_cong:
  "same_identity r r' \<Longrightarrow> identity_ok X N r \<Longrightarrow> identity_ok X N r'"
  by (auto simp: identity_ok_def same_identity_def)

lemma prepared_ok_kept:
  assumes "same_identity r r'" and "kept_columns r r'" and "prepared_ok X N r"
  shows "prepared_ok X N r'"
proof -
  from assms(3) obtain p fee seq ledger tx blob where
    p: "intent_payload r = JObj (payload_object p)" "prepared_as X N p fee seq ledger tx blob"
      "prepared_tx_json r = Some (JObj tx)" "prepared_tx_blob r = Some blob"
      "prepared_ledger_index r = Some ledger" "sequence r = Some seq" "fee_drops r = Some fee"
      "last_ledger_sequence r = Some (last_ledger_sequence_for ledger)"
    unfolding prepared_ok_def by blast
  have "intent_payload r' = JObj (payload_object p)" using assms(1) p(1) by (simp add: same_identity_def)
  moreover have "prepared_tx_json r' = Some (JObj tx)" "prepared_tx_blob r' = Some blob"
      "prepared_ledger_index r' = Some ledger" "sequence r' = Some seq" "fee_drops r' = Some fee"
      "last_ledger_sequence r' = Some (last_ledger_sequence_for ledger)"
    using assms(2) p unfolding kept_columns_def by (blast intro: keptD)+
  ultimately show ?thesis using p(2) unfolding prepared_ok_def by blast
qed

lemma simulated_ok_kept:
  assumes "kept_columns r r'" and "simulated_ok X r"
  shows "simulated_ok X r'"
proof -
  from assms(2) obtain tx raw sim where
    s: "prepared_tx_json r = Some (JObj tx)" "simulation_result r = Some (JObj raw)"
      "parse_simulation raw = Inr sim" "simulation_engine_result r = Some (sim_engine_result sim)"
      "simulation_matches_prepared X tx (sim_tx_json sim)"
    unfolding simulated_ok_def by blast
  have "prepared_tx_json r' = Some (JObj tx)" "simulation_result r' = Some (JObj raw)"
      "simulation_engine_result r' = Some (sim_engine_result sim)"
    using assms(1) s unfolding kept_columns_def by (blast intro: keptD)+
  with s(3,5) show ?thesis unfolding simulated_ok_def by blast
qed

lemma signed_ok_kept:
  assumes "kept_columns r r'" and "signed_ok X r"
  shows "signed_ok X r'"
proof -
  from assms(2) obtain pb v where
    s: "prepared_tx_blob r = Some pb" "verify X (vb_tx_blob v) pb = Inr v"
      "signed_tx_blob r = Some (vb_tx_blob v)" "transaction_hash r = Some (vb_transaction_hash v)"
      "signing_pub_key r = Some (vb_signing_pub_key v)"
    unfolding signed_ok_def by blast
  have "prepared_tx_blob r' = Some pb" "signed_tx_blob r' = Some (vb_tx_blob v)"
      "transaction_hash r' = Some (vb_transaction_hash v)"
      "signing_pub_key r' = Some (vb_signing_pub_key v)"
    using assms(1) s unfolding kept_columns_def by (blast intro: keptD)+
  with s(2) show ?thesis unfolding signed_ok_def by blast
qed

lemmas stays_ok = identity_ok_cong prepared_ok_kept simulated_ok_kept signed_ok_kept

lemma answered_simulation:
  "answered tr q read_simulation (sim, raw) \<Longrightarrow> parse_simulation raw = Inr sim"
  by (auto simp: answered_def read_simulation_def)

lemma row_step_ok:
  assumes step: "row_step X N tr reason r r'" and ok: "row_ok X N r"
  shows "row_ok X N r'"
proof -
  note same = row_step_identity[OF step] and kept = row_step_kept[OF step ok]
  have i: "identity_ok X N r'" using ok identity_ok_cong[OF same] by (simp add: row_ok_def)
  have p: "prepared_ok X N r \<Longrightarrow> prepared_ok X N r'" by (rule prepared_ok_kept[OF same kept])
  have m: "simulated_ok X r \<Longrightarrow> simulated_ok X r'" by (rule simulated_ok_kept[OF kept])
  have s: "signed_ok X r \<Longrightarrow> signed_ok X r'" by (rule signed_ok_kept[OF kept])
  from step ok i p m s show ?thesis
  proof (cases rule: row_step.cases)
    case (Prepare p v c ledger fee tx blob t now)
    have "prepared_ok X N r'"
      using Prepare unfolding prepared_ok_def by (fastforce simp: row_change_simps)
    then show ?thesis using ok i Prepare by (auto simp: row_ok_def row_change_simps unprepared_def unsigned_row_def split: if_splits)
  next
    case (Simulate tx high n c sim raw t now)
    have "simulated_ok X r'"
      using Simulate answered_simulation[OF Simulate(9)] unfolding simulated_ok_def
      by (simp add: row_change_simps)
    then show ?thesis using ok i p Simulate by (auto simp: row_ok_def row_change_simps unsigned_row_def split: if_splits)
  next
    case (Sign pb b v a high n t now)
    have "signed_ok X r'"
      using Sign verify_normalized[OF Sign(5)] unfolding signed_ok_def by (fastforce simp: row_change_simps)
    then show ?thesis using ok i p m Sign by (auto simp: row_ok_def row_change_simps unsigned_row_def split: if_splits)
  next
    case (Validate lk raw idx res lh txj mt t now)
    have "validated_ok r'"
      using Validate unfolding validated_ok_def consistent_lookup_def by (auto simp: row_change_simps)
    then show ?thesis using ok i p m s Validate by (auto simp: row_ok_def row_change_simps unsigned_row_def status_groups split: if_splits)
  qed (auto simp: row_ok_def row_change_simps unsigned_row_def status_groups split: if_splits)
qed
lemma row_touch_ok:
  assumes touch: "row_touch tr r r'" and ok: "row_ok X N r"
  shows "row_ok X N r'"
proof -
  note same = row_touch_identity[OF touch] and kept = row_touch_kept[OF touch]
  have i: "identity_ok X N r'" using ok identity_ok_cong[OF same] by (simp add: row_ok_def)
  have p: "prepared_ok X N r \<Longrightarrow> prepared_ok X N r'" by (rule prepared_ok_kept[OF same kept])
  have m: "simulated_ok X r \<Longrightarrow> simulated_ok X r'" by (rule simulated_ok_kept[OF kept])
  have s: "signed_ok X r \<Longrightarrow> signed_ok X r'" by (rule signed_ok_kept[OF kept])
  from touch ok i p m s show ?thesis
    by (cases rule: row_touch.cases)
      (auto simp: row_ok_def row_change_simps unsigned_row_def status_groups split: if_splits)
qed

end
