(* ===== verification/Contract.thy ===== *)
theory Contract
  imports Pool LifecycleLaws
begin

text \<open>
  The contract every handler is held to: the invariant of the shared state (\<open>world_ok\<close>), what
  others may do to it (\<open>evolves\<close>), what a statement of a handler may do given what the handler
  was answered (\<open>permitted\<close>) and which requests may leave the service (\<open>request_ok\<close>). Then one
  proof rule for each repository method and each read of memory.
\<close>

section \<open>Invariant, rely and guarantee\<close>

definition world_ok :: "codec \<Rightarrow> nat \<Rightarrow> world \<Rightarrow> bool" where
  "world_ok X N w \<longleftrightarrow> store_ok w \<and> (\<forall>r \<in> set (intents w). row_ok X N r)"

definition evolves :: "world \<Rightarrow> world \<Rightarrow> bool" where
  "evolves w w' \<longleftrightarrow>
     (\<forall>r \<in> set (intents w). \<exists>r' \<in> set (intents w'). row_evolves r r') \<and>
     (recovered w \<longrightarrow> recovered w') \<and> (\<exists>new. trail w' = trail w @ new)"

definition put_row :: "intent_row \<Rightarrow> world \<Rightarrow> world" where
  "put_row new w =
     w\<lparr>intents := map_where (\<lambda>p. intent_id p = intent_id new) (\<lambda>_. new) (intents w)\<rparr>"

text \<open>The tables are untouched; recovery is declared only after a validated ledger was read.\<close>

definition memory_only :: "(env_call, env_answer) trace \<Rightarrow> world \<Rightarrow> world \<Rightarrow> bool" where
  "memory_only tr w w' \<longleftrightarrow>
     intents w' = intents w \<and> trail w' = trail w \<and> next_transition_id w' = next_transition_id w \<and>
     (recovered w \<longrightarrow> recovered w') \<and>
     (recovered w' \<longrightarrow> recovered w \<or> (\<exists>n. answered tr validated_ledger_request read_validated_ledger n))"

definition row_created :: "codec \<Rightarrow> nat \<Rightarrow> world \<Rightarrow> world \<Rightarrow> bool" where
  "row_created X N w w' \<longleftrightarrow>
     (\<exists>row. row_ok X N row \<and> status row = CREATED \<and>
        w' = insert_transition (intent_id row) None CREATED INTENT_CREATED None
               (w\<lparr>intents := intents w @ [row]\<rparr>))"

definition row_moved ::
  "codec \<Rightarrow> nat \<Rightarrow> (env_call, env_answer) trace \<Rightarrow> world \<Rightarrow> world \<Rightarrow> bool" where
  "row_moved X N tr w w' \<longleftrightarrow>
     (\<exists>r \<in> set (intents w). \<exists>r' reason d. row_step X N tr reason r r' \<and>
        w' = insert_transition (intent_id r) (Some (status r)) (status r') reason d (put_row r' w))"

definition row_touched :: "(env_call, env_answer) trace \<Rightarrow> world \<Rightarrow> world \<Rightarrow> bool" where
  "row_touched tr w w' \<longleftrightarrow>
     (\<exists>r \<in> set (intents w). \<exists>r'. row_touch tr r r' \<and> w' = put_row r' w)"

definition permitted ::
  "codec \<Rightarrow> nat \<Rightarrow> (env_call, env_answer) trace \<Rightarrow> world \<Rightarrow> world \<Rightarrow> bool" where
  "permitted X N tr w w' \<longleftrightarrow>
     store_ok w' \<and>
     (memory_only tr w w' \<or> row_created X N w w' \<or> row_moved X N tr w w' \<or> row_touched tr w w')"

definition reads :: "string list" where
  "reads = [''account_info'', ''fee'', ''ledger'']"

text \<open>
  A request names a ledger read, or what it carries is an artifact stored before it was sent.
\<close>

definition request_ok :: "env_call \<Rightarrow> world \<Rightarrow> bool" where
  "request_ok q w =
     (case q of
        SwitchEndpoint reason \<Rightarrow> True
      | Request req \<Rightarrow>
          command req \<in> set reads \<or>
          (\<exists>r \<in> set (intents w). \<exists>tx c. prepared_tx_json r = Some (JObj tx) \<and>
             to_canonical_form tx = Inr c \<and> req = simulate_request c) \<or>
          (\<exists>r \<in> set (intents w). \<exists>b. signed_tx_blob r = Some b \<and> req = submit_request b \<and>
             recovered w) \<or>
          (\<exists>r \<in> set (intents w). lookup_request r = Some req))"

section \<open>The parts fit together\<close>

lemma evolves_refl [simp]: "evolves w w"
  by (auto simp: evolves_def intro: row_evolves_refl)

lemma evolves_trans: "evolves w w' \<Longrightarrow> evolves w' w'' \<Longrightarrow> evolves w w''"
  unfolding evolves_def by (metis append.assoc row_evolves_trans)

lemma world_ok_store: "world_ok X N w \<Longrightarrow> store_ok w"
  by (simp add: world_ok_def)

lemma world_ok_row: "world_ok X N w \<Longrightarrow> r \<in> set (intents w) \<Longrightarrow> row_ok X N r"
  by (simp add: world_ok_def)

lemma world_ok_unique:
  "world_ok X N w \<Longrightarrow> p \<in> set (intents w) \<Longrightarrow> r \<in> set (intents w) \<Longrightarrow>
     intent_id p = intent_id r \<Longrightarrow> p = r"
  unfolding world_ok_def store_ok_def
  using find_row_Some_iff[of w "intent_id r" p] find_row_Some_iff[of w "intent_id r" r] by auto

lemma row_evolves_id: "row_evolves r r' \<Longrightarrow> intent_id r' = intent_id r"
  by (simp add: row_evolves_def same_identity_def)

lemma set_put_row:
  "p \<in> set (intents (put_row new w)) \<Longrightarrow>
     p = new \<or> p \<in> set (intents w) \<and> intent_id p \<noteq> intent_id new"
  by (auto simp: put_row_def set_map_where split: if_splits)

lemma put_row_rows:
  assumes "world_ok X N w" and "r \<in> set (intents w)" and "row_evolves r new"
  shows "\<forall>p \<in> set (intents w). \<exists>p' \<in> set (intents (put_row new w)). row_evolves p p'"
proof
  fix p assume p: "p \<in> set (intents w)"
  show "\<exists>p' \<in> set (intents (put_row new w)). row_evolves p p'"
  proof (cases "intent_id p = intent_id new")
    case True
    then have "p = r"
      using world_ok_unique[OF assms(1) p assms(2)] row_evolves_id[OF assms(3)] by simp
    moreover have "new \<in> set (intents (put_row new w))"
      using p True by (auto simp: put_row_def set_map_where)
    ultimately show ?thesis using assms(3) by blast
  next
    case False
    then have "p \<in> set (intents (put_row new w))"
      using p by (force simp: put_row_def set_map_where)
    then show ?thesis by (blast intro: row_evolves_refl)
  qed
qed

lemma permitted_world_ok:
  assumes "world_ok X N w" and "permitted X N tr w w'"
  shows "world_ok X N w'"
proof -
  have "row_ok X N p" if p: "p \<in> set (intents w')" for p
    using assms(2) unfolding permitted_def
  proof (elim conjE disjE)
    assume "memory_only tr w w'"
    then show ?thesis using p assms(1) by (simp add: memory_only_def world_ok_def)
  next
    assume "row_created X N w w'"
    then show ?thesis using p assms(1) by (auto simp: row_created_def world_ok_def)
  next
    assume "row_moved X N tr w w'"
    then obtain r r' reason d where r: "r \<in> set (intents w)" "row_step X N tr reason r r'"
        "w' = insert_transition (intent_id r) (Some (status r)) (status r') reason d (put_row r' w)"
      by (auto simp: row_moved_def)
    then show ?thesis
      using p set_put_row[of p r' w] row_step_ok[OF r(2)] world_ok_row[OF assms(1)] by auto
  next
    assume "row_touched tr w w'"
    then obtain r r' where r: "r \<in> set (intents w)" "row_touch tr r r'" "w' = put_row r' w"
      by (auto simp: row_touched_def)
    then show ?thesis
      using p set_put_row[of p r' w] row_touch_ok[OF r(2)] world_ok_row[OF assms(1)] by auto
  qed
  then show ?thesis using assms(2) by (simp add: world_ok_def permitted_def)
qed

lemma permitted_evolves:
  assumes "world_ok X N w" and "permitted X N tr w w'"
  shows "evolves w w'"
  using assms(2) unfolding permitted_def
proof (elim conjE disjE)
  assume "memory_only tr w w'"
  then show ?thesis by (auto simp: memory_only_def evolves_def intro: row_evolves_refl)
next
  assume "row_created X N w w'"
  then show ?thesis
    by (auto simp: row_created_def evolves_def insert_transition_def intro: row_evolves_refl)
next
  assume "row_moved X N tr w w'"
  then obtain r r' reason d where r: "r \<in> set (intents w)" "row_step X N tr reason r r'"
      "w' = insert_transition (intent_id r) (Some (status r)) (status r') reason d (put_row r' w)"
    by (auto simp: row_moved_def)
  from row_step_evolves[OF r(2) world_ok_row[OF assms(1) r(1)]] have "row_evolves r r'" .
  from put_row_rows[OF assms(1) r(1) this] show ?thesis
    by (auto simp: r(3) evolves_def insert_transition_def put_row_def)
next
  assume "row_touched tr w w'"
  then obtain r r' where r: "r \<in> set (intents w)" "row_touch tr r r'" "w' = put_row r' w"
    by (auto simp: row_touched_def)
  from put_row_rows[OF assms(1) r(1) row_touch_evolves[OF r(2)]] show ?thesis
    by (auto simp: r(3) evolves_def put_row_def)
qed

lemma permitted_refl: "store_ok w \<Longrightarrow> permitted X N tr w w"
  by (auto simp: permitted_def memory_only_def)

section \<open>What a handler knows\<close>

text \<open>A row once read: its descendant is still there.\<close>

definition known :: "codec \<Rightarrow> nat \<Rightarrow> intent_row \<Rightarrow> world \<Rightarrow> bool" where
  "known X N r w \<longleftrightarrow> row_ok X N r \<and> (\<exists>r' \<in> set (intents w). row_evolves r r')"

lemma known_evolves: "known X N r w \<Longrightarrow> evolves w w' \<Longrightarrow> known X N r w'"
  unfolding known_def evolves_def by (meson row_evolves_trans)

lemma known_row: "world_ok X N w \<Longrightarrow> r \<in> set (intents w) \<Longrightarrow> known X N r w"
  by (auto simp: known_def world_ok_def intro: row_evolves_refl)

lemma known_ok: "known X N r w \<Longrightarrow> row_ok X N r"
  by (simp add: known_def)

lemma known_now:
  assumes "known X N r w" and "world_ok X N w" and "find_row (intent_id r) w = Some r'"
  shows "row_evolves r r'" and "row_ok X N r'" and "r' \<in> set (intents w)"
proof -
  from find_row_SomeD[OF assms(3)] have r': "r' \<in> set (intents w)" "intent_id r' = intent_id r" by auto
  obtain p where p: "p \<in> set (intents w)" "row_evolves r p" using assms(1) by (auto simp: known_def)
  have "p = r'" using world_ok_unique[OF assms(2) p(1) r'(1)] row_evolves_id[OF p(2)] r'(2) by simp
  with p show "row_evolves r r'" by simp
  show "row_ok X N r'" by (rule world_ok_row[OF assms(2) r'(1)])
  show "r' \<in> set (intents w)" by (rule r'(1))
qed

lemma known_find: "known X N r w \<Longrightarrow> \<exists>r'. find_row (intent_id r) w = Some r'"
  unfolding known_def find_row_def
  by (metis (mono_tags, lifting) find_None_iff not_Some_eq row_evolves_id)

section \<open>Proof rules\<close>

abbreviation meets ::
  "codec \<Rightarrow> nat \<Rightarrow> 'r svc \<Rightarrow> ('r \<Rightarrow> (env_call, env_answer) trace \<Rightarrow> world \<Rightarrow> bool)
    \<Rightarrow> (exn \<Rightarrow> (env_call, env_answer) trace \<Rightarrow> world \<Rightarrow> bool)
    \<Rightarrow> (env_call, env_answer) trace \<Rightarrow> world \<Rightarrow> bool" where
  "meets X N \<equiv> wp (world_ok X N) evolves (permitted X N) request_ok"

text \<open>A database read: nothing changes, the answer is of one moment.\<close>

lemma wp_db_read:
  assumes "\<And>w'. evolves w w' \<Longrightarrow> world_ok X N w' \<Longrightarrow> Q (f w') tr w'"
    and "\<And>w'. evolves w w' \<Longrightarrow> world_ok X N w' \<Longrightarrow> E ConnectionLost tr w'"
  shows "meets X N (db (\<lambda>w. (Inr (f w), w))) Q E tr w"
  unfolding db_def wp_transaction
  using assms by (auto intro: permitted_refl world_ok_store)

lemma wp_find_by_id [wp_rules]:
  assumes "\<And>w'. evolves w w' \<Longrightarrow> Q None tr w'"
    and "\<And>r w'. evolves w w' \<Longrightarrow> known X N r w' \<Longrightarrow> intent_id r = i \<Longrightarrow> Q (Some r) tr w'"
    and "\<And>e w'. evolves w w' \<Longrightarrow> E e tr w'"
  shows "meets X N (find_by_id i) Q E tr w"
  unfolding find_by_id_def
proof (rule wp_db_read)
  fix w' assume w': "evolves w w'" "world_ok X N w'"
  show "Q (find_row i w') tr w'"
  proof (cases "find_row i w'")
    case (Some r)
    with find_row_SomeD[OF Some] w' show ?thesis by (auto intro: assms(2) known_row)
  qed (simp add: assms(1) w')
qed (rule assms(3))

lemma wp_load:
  assumes "\<And>r w'. evolves w w' \<Longrightarrow> known X N r w' \<Longrightarrow> intent_id r = i \<Longrightarrow> Q r tr w'"
    and "\<And>e w'. evolves w w' \<Longrightarrow> E e tr w'"
  shows "meets X N (load i) Q E tr w"
  unfolding load_def wp_await by (rule wp_find_by_id) (auto intro: assms)

lemma wp_find_by_statuses [wp_rules]:
  assumes "\<And>rs w'. evolves w w' \<Longrightarrow> \<forall>r \<in> set rs. known X N r w' \<and> status r \<in> set ss \<Longrightarrow> Q rs tr w'"
    and "\<And>e w'. evolves w w' \<Longrightarrow> E e tr w'"
  shows "meets X N (find_by_statuses ss) Q E tr w"
  unfolding find_by_statuses_def
  by (rule wp_db_read) (auto intro!: assms intro: known_row)

text \<open>
  A change of status. The step is owed for the row as it is at the commit: a descendant of the
  one the handler read, in one of the expected statuses.
\<close>

lemma wp_transition:
  assumes known: "known X N r w" and i: "i = intent_id r"
    and step: "\<And>r1 now. row_evolves r r1 \<Longrightarrow> row_ok X N r1 \<Longrightarrow> status r1 \<in> set (request_from req) \<Longrightarrow>
      row_step X N tr (request_reason req) r1
        (moved (request_patch req) (request_to req) now r1)"
    and none: "\<And>r' w'. evolves w w' \<Longrightarrow> known X N r' w' \<Longrightarrow> row_evolves r r' \<Longrightarrow>
      status r' \<notin> set (request_from req) \<Longrightarrow> Q None tr w'"
    and some: "\<And>r' w'. evolves w w' \<Longrightarrow> known X N r' w' \<Longrightarrow> row_evolves r r' \<Longrightarrow>
      status r' = request_to req \<Longrightarrow>
      \<exists>r1 now. r' = moved (request_patch req) (request_to req) now r1 \<Longrightarrow> Q (Some r') tr w'"
    and err: "\<And>e w'. evolves w w' \<Longrightarrow> E e tr w'"
  shows "meets X N (transition i req) Q E tr w"
proof -
  let ?E = "\<lambda>e. meets X N (if is_unique_violation e sequence_active_index
      then Throw AccountBusyError else Throw e) Q E"
  have E: "?E e tr w'" if "evolves w w'" for e w' using err[OF that] by simp
  have "permitted X N tr w1 w1 \<and> ?E ConnectionLost tr w1 \<and>
      permitted X N tr w1 (snd (transition_tx i req w1)) \<and>
      ?E ConnectionLost tr (snd (transition_tx i req w1)) \<and>
      (case fst (transition_tx i req w1) of
         Inl e \<Rightarrow> ?E e tr (snd (transition_tx i req w1))
       | Inr res \<Rightarrow> Q res tr (snd (transition_tx i req w1)))"
    if R: "evolves w w1" and I: "world_ok X N w1" for w1
  proof (cases rule: transition_tx_cases[of i req w1])
    case Stale
    obtain r1 where r1: "find_row i w1 = Some r1"
      using known_find[OF known_evolves[OF known R]] by (auto simp: i)
    note now = known_now[OF known_evolves[OF known R] I r1[unfolded i]]
    have "Q None tr w1"
      by (rule none[OF R known_row[OF I now(3)] now(1) Stale(2)[OF r1]])
    then show ?thesis using R I Stale(1) err by (auto intro: permitted_refl world_ok_store)
  next
    case (Refused e)
    then show ?thesis using R I err by (auto intro: permitted_refl world_ok_store)
  next
    case (Moved r1 r' w2)
    note now = known_now[OF known_evolves[OF known R] I Moved(1)[unfolded i]]
    have r': "r' = moved (request_patch req) (request_to req) (clock w1) r1"
      by (simp add: Moved(4) moved_def)
    then have shape: "\<exists>r1 now. r' = moved (request_patch req) (request_to req) now r1" by blast
    have st: "row_step X N tr (request_reason req) r1 r'"
      unfolding r' by (rule step[OF now(1,2) Moved(2)])
    have id1: "intent_id r1 = i" using find_row_SomeD[OF Moved(1)] by simp
    have status: "status r' = request_to req" by (simp add: Moved(4))
    let ?w = "snd (transition_tx i req w1)"
    have w2: "w2 = put_row r' w1" using update_row_InrD(1)[OF Moved(5)] by (simp add: put_row_def)
    have "?w = insert_transition (intent_id r1) (Some (status r1)) (status r')
        (request_reason req) (request_details req) (put_row r' w1)"
      by (simp add: Moved(6) w2 id1 status)
    then have "row_moved X N tr w1 ?w" unfolding row_moved_def using now(3) st by blast
    moreover have "store_ok ?w" using I by (intro store_ok_transition_tx) (rule world_ok_store)
    ultimately have G: "permitted X N tr w1 ?w" by (simp add: permitted_def)
    have R': "evolves w ?w" by (rule evolves_trans[OF R permitted_evolves[OF I G]])
    have I': "world_ok X N ?w" by (rule permitted_world_ok[OF I G])
    have ev: "row_evolves r r'" by (rule row_evolves_trans[OF now(1) row_step_evolves[OF st now(2)]])
    have "find_row i ?w = Some r'" using transition_tx_find_row[of i i req w1] by (simp add: Moved(6))
    from known_row[OF I'] find_row_SomeD[OF this] have "known X N r' ?w" by simp
    then show ?thesis
      using some[OF R' _ ev status shape] E[OF R'] G R I E[OF R] err[OF R] err[OF R']
      by (simp add: Moved(6) permitted_refl world_ok_store)
  qed
  then show ?thesis unfolding transition_def wp_try_catch db_def wp_transaction by blast
qed

lemma wp_update_in_status:
  assumes known: "known X N r w" and i: "i = intent_id r"
    and touch: "\<And>r1 now. row_evolves r r1 \<Longrightarrow> row_ok X N r1 \<Longrightarrow> status r1 \<in> set ss \<Longrightarrow>
      row_touch tr r1 (touched cols now r1)"
    and none: "\<And>r' w'. evolves w w' \<Longrightarrow> known X N r' w' \<Longrightarrow> row_evolves r r' \<Longrightarrow>
      status r' \<notin> set ss \<Longrightarrow> Q None tr w'"
    and some: "\<And>r' w'. evolves w w' \<Longrightarrow> known X N r' w' \<Longrightarrow> row_evolves r r' \<Longrightarrow>
      status r' \<in> set ss \<Longrightarrow> Q (Some r') tr w'"
    and err: "\<And>e w'. evolves w w' \<Longrightarrow> E e tr w'"
  shows "meets X N (update_in_status i ss cols) Q E tr w"
proof -
  have "permitted X N tr w1 w1 \<and> E ConnectionLost tr w1 \<and>
      permitted X N tr w1 (snd (update_in_status_tx i ss cols w1)) \<and>
      E ConnectionLost tr (snd (update_in_status_tx i ss cols w1)) \<and>
      (case fst (update_in_status_tx i ss cols w1) of
         Inl e \<Rightarrow> E e tr (snd (update_in_status_tx i ss cols w1))
       | Inr res \<Rightarrow> Q res tr (snd (update_in_status_tx i ss cols w1)))"
    if R: "evolves w w1" and I: "world_ok X N w1" for w1
  proof (cases rule: update_in_status_tx_cases[of i ss cols w1])
    case Stale
    obtain r1 where r1: "find_row i w1 = Some r1"
      using known_find[OF known_evolves[OF known R]] by (auto simp: i)
    note now = known_now[OF known_evolves[OF known R] I r1[unfolded i]]
    have "Q None tr w1"
      by (rule none[OF R known_row[OF I now(3)] now(1) Stale(2)[OF r1]])
    then show ?thesis using R I Stale(1) err by (auto intro: permitted_refl world_ok_store)
  next
    case (Refused e)
    then show ?thesis using R I err by (auto intro: permitted_refl world_ok_store)
  next
    case (Updated r1 r' w2)
    note now = known_now[OF known_evolves[OF known R] I Updated(1)[unfolded i]]
    have r': "r' = touched cols (clock w1) r1" by (simp add: Updated(3) touched_def)
    have st: "row_touch tr r1 r'" unfolding r' by (rule touch[OF now(1,2) Updated(2)])
    have id1: "intent_id r1 = i" using find_row_SomeD[OF Updated(1)] by simp
    have w2: "w2 = put_row r' w1" using update_row_InrD(1)[OF Updated(4)] by (simp add: put_row_def)
    have "row_touched tr w1 w2" unfolding row_touched_def using now(3) st w2 by blast
    moreover have "store_ok w2"
      using store_ok_update_in_status_tx[OF world_ok_store[OF I], of i ss cols] by (simp add: Updated(5))
    ultimately have G: "permitted X N tr w1 w2" by (simp add: permitted_def)
    have R': "evolves w w2" by (rule evolves_trans[OF R permitted_evolves[OF I G]])
    have I': "world_ok X N w2" by (rule permitted_world_ok[OF I G])
    have ev: "row_evolves r r'" by (rule row_evolves_trans[OF now(1) row_touch_evolves[OF st]])
    have status: "status r' \<in> set ss" using row_touch_status[OF st] Updated(2) by simp
    have "find_row (intent_id r') w2 = Some r'"
      using find_row_update[OF Updated(4), of r1 "intent_id r'"] Updated(1) row_evolves_id[OF ev] i
      by simp
    from known_row[OF I'] find_row_SomeD[OF this] have "known X N r' w2" by simp
    then show ?thesis
      using some[OF R' _ ev status] err[OF R'] G R I err[OF R]
      by (simp add: Updated(5) permitted_refl world_ok_store)
  qed
  then show ?thesis unfolding update_in_status_def db_def wp_transaction by blast
qed

text \<open>Reads of memory and columns.\<close>

lemma wp_current_time [wp_rules]:
  assumes "\<And>t w'. evolves w w' \<Longrightarrow> Q t tr w'"
  shows "meets X N current_time Q E tr w"
  unfolding current_time_def wp_sync
  using assms by (auto intro: permitted_refl world_ok_store)

lemma wp_required:
  assumes "\<And>x. v = Some x \<Longrightarrow> Q x tr w" and "v = None \<Longrightarrow> E (missing_column c) tr w"
  shows "meets X N (required v c) Q E tr w"
  using assms by (cases v) (simp_all add: required_def)

end
