(* ===== verification/Finality.thy ===== *)
theory Finality
  imports Contract
begin

text \<open>
  Reconciliation against validated ledgers (\<open>src/finality/finality.service.ts\<close>): the guard of
  startup recovery, the resolution of a signed intent, the expiry of an unsigned one and the
  cycle over all active intents. The switch budget is passed along instead of shared.
\<close>

section \<open>The service\<close>

datatype signed_outcome = O_VALIDATED | O_EXPIRED | O_FAILED | O_PENDING | O_UNPROVABLE

definition assert_recovered :: "unit svc" where
  "assert_recovered =
     sync (\<lambda>w. (if recovered w then Inr ()
                else Inl (api_error SERVICE_NOT_READY
                            ''Startup recovery has not completed; retry shortly.''), w))"

text \<open>\<open>{ k: v ?? null }\<close>\<close>

definition or_null :: "('v \<Rightarrow> json) \<Rightarrow> 'v option \<Rightarrow> json" where
  "or_null f v = (case v of None \<Rightarrow> JNull | Some x \<Rightarrow> f x)"

definition fail :: "intent_row \<Rightarrow> failure_code \<Rightarrow> object \<Rightarrow> signed_outcome svc" where
  "fail r code details =
     await (transition (intent_id r)
              \<lparr>request_from = signed_active_statuses, request_to = FAILED,
               request_reason = reason_of_failure code, request_details = Some details,
               request_patch = [FailureCode code]\<rparr>)
       (\<lambda>_. Return O_FAILED)"

definition final_meta_of :: "tx_lookup \<Rightarrow> object \<Rightarrow> json option" where
  "final_meta_of lk raw =
     (case lk_meta lk of Some m \<Rightarrow> Some (JObj m) | None \<Rightarrow> nullish (field raw ''meta'') None)"

definition final_hash_of :: "tx_lookup \<Rightarrow> string option" where
  "final_hash_of lk =
     (case map_option upper (lk_ledger_hash lk) of
        Some h \<Rightarrow> if hash64 h then Some h else None
      | None \<Rightarrow> None)"

definition validated_transition ::
  "tx_lookup \<Rightarrow> object \<Rightarrow> string \<Rightarrow> nat \<Rightarrow> nat \<Rightarrow> transition_request" where
  "validated_transition lk raw res idx t =
     \<lparr>request_from = signed_active_statuses, request_to = VALIDATED,
      request_reason = TRANSACTION_VALIDATED,
      request_details = Some [(''finalResult'', JStr res), (''ledgerIndex'', JNum (int idx))],
      request_patch =
        [FinalResult res, FinalLedgerIndex idx, FinalLedgerHash (final_hash_of lk),
         FinalTxJson (map_option JObj (lk_tx_json lk)), FinalMeta (final_meta_of lk raw),
         FinalizedAt t]\<rparr>"

definition record_validated ::
  "intent_row \<Rightarrow> tx_lookup \<Rightarrow> object \<Rightarrow> string \<Rightarrow> nat \<Rightarrow> signed_outcome svc" where
  "record_validated r lk raw res idx =
     await current_time (\<lambda>t.
     await (transition (intent_id r) (validated_transition lk raw res idx t))
       (\<lambda>_. Return O_VALIDATED))"

definition apply_found :: "intent_row \<Rightarrow> tx_lookup \<Rightarrow> object \<Rightarrow> signed_outcome svc" where
  "apply_found r lk raw =
     (if \<not> lk_validated lk then Return O_PENDING
      else
        await (required (transaction_hash r) ''transaction_hash'') (\<lambda>hash.
        await (required (prepared_ledger_index r) ''prepared_ledger_index'') (\<lambda>low.
        await (required (last_ledger_sequence r) ''last_ledger_sequence'') (\<lambda>high.
          let inconsistent = fail r FC_FINALITY_INTEGRITY_ERROR
                [(''reportedHash'', or_null JStr (lk_hash lk)),
                 (''reportedLedgerIndex'', or_null (\<lambda>n. JNum (int n)) (lk_ledger_index lk))]
          in case lk_ledger_index lk of
               None \<Rightarrow> inconsistent
             | Some idx \<Rightarrow>
                 if \<not> (map_option upper (lk_hash lk) = Some hash \<and> low < idx \<and> idx \<le> high)
                 then inconsistent
                 else (case lk_transaction_result lk of
                         None \<Rightarrow> fail r FC_UNEXPECTED_VALIDATED_RESULT [(''finalResult'', JNull)]
                       | Some res \<Rightarrow>
                           if \<not> tes_or_tec res
                           then fail r FC_UNEXPECTED_VALIDATED_RESULT [(''finalResult'', JStr res)]
                           else record_validated r lk raw res idx)))))"

text \<open>The last part of \<open>applyProvenAbsent\<close>: the account as a validated ledger shows it decides.\<close>

definition settle_absent ::
  "intent_row \<Rightarrow> nat \<Rightarrow> nat \<Rightarrow> account_info option \<Rightarrow> signed_outcome svc" where
  "settle_absent r high prepared acct =
     (if (case acct of
             None \<Rightarrow> False
           | Some a \<Rightarrow> (case ai_ledger_index a of None \<Rightarrow> 0 | Some n \<Rightarrow> n) \<le> high)
      then Return O_PENDING
      else if map_option ai_sequence acct = Some prepared
      then await (transition (intent_id r)
                    \<lparr>request_from = signed_active_statuses, request_to = EXPIRED,
                     request_reason = LAST_LEDGER_SEQUENCE_EXPIRED,
                     request_details = Some [(''lastLedgerSequence'', JNum (int high)),
                                             (''sequence'', JNum (int prepared))],
                     request_patch = []\<rparr>)
             (\<lambda>_. Return O_EXPIRED)
      else
        let details = [(''preparedSequence'', JNum (int prepared)),
                       (''accountSequence'', or_null (\<lambda>a. JNum (int (ai_sequence a))) acct)]
        in if (case acct of None \<Rightarrow> True | Some a \<Rightarrow> prepared < ai_sequence a)
           then fail r FC_SEQUENCE_CONFLICT details
           else fail r FC_SEQUENCE_REGRESSION details)"

definition apply_proven_absent :: "intent_row \<Rightarrow> nat \<Rightarrow> signed_outcome svc" where
  "apply_proven_absent r high =
     await (required (sequence r) ''sequence'') (\<lambda>prepared.
     await (validated_account_info (source_account r)) (settle_absent r high prepared))"

fun apply_search :: "intent_row \<Rightarrow> tx_search \<Rightarrow> nat \<Rightarrow> signed_outcome svc" where
  "apply_search r (Found lk raw) current = apply_found r lk raw"
| "apply_search r (NotFound searched_all) current =
     await (required (last_ledger_sequence r) ''last_ledger_sequence'') (\<lambda>high.
       if current \<le> high then Return O_PENDING
       else if \<not> searched_all then Return O_UNPROVABLE
       else apply_proven_absent r high)"

text \<open>\<open>resolveSigned\<close>: the outcome and what is left of the switch budget.\<close>

definition resolve_signed :: "intent_row \<Rightarrow> nat \<Rightarrow> nat \<Rightarrow> (signed_outcome \<times> nat) svc" where
  "resolve_signed r current budget =
     await (required (transaction_hash r) ''transaction_hash'') (\<lambda>hash.
     await (required (prepared_ledger_index r) ''prepared_ledger_index'') (\<lambda>prepared.
     await (required (last_ledger_sequence r) ''last_ledger_sequence'') (\<lambda>high.
     await (ledger_tx hash (js_add prepared 1) high) (\<lambda>search.
       if search = NotFound False \<and> high < current \<and> 0 < budget
       then await (switch_endpoint ''tx searched_all=false'') (\<lambda>_.
            await (ledger_tx hash (js_add prepared 1) high) (\<lambda>search2.
            await (apply_search r search2 current) (\<lambda>outcome. Return (outcome, budget - 1))))
       else await (apply_search r search current) (\<lambda>outcome. Return (outcome, budget))))))"

definition expire_unsigned :: "intent_row \<Rightarrow> nat \<Rightarrow> unit svc" where
  "expire_unsigned r current =
     await (required (last_ledger_sequence r) ''last_ledger_sequence'') (\<lambda>high.
       if current \<le> high then Return ()
       else await (transition (intent_id r)
                     \<lparr>request_from = unsigned_active_statuses, request_to = EXPIRED,
                      request_reason = SIGNATURE_WINDOW_EXPIRED,
                      request_details = Some [(''lastLedgerSequence'', JNum (int high)),
                                              (''validatedLedger'', JNum (int current))],
                      request_patch = []\<rparr>)
              (\<lambda>_. Return ()))"

text \<open>The loop of the cycle; the result is \<open>degraded\<close>.\<close>

fun reconcile :: "intent_row list \<Rightarrow> nat \<Rightarrow> nat \<Rightarrow> bool \<Rightarrow> bool svc" where
  "reconcile [] current budget degraded = Return degraded"
| "reconcile (r # rs) current budget degraded =
     (if status r \<in> set unsigned_active_statuses
      then await (expire_unsigned r current) (\<lambda>_. reconcile rs current budget degraded)
      else if status r \<in> set signed_active_statuses
      then await (resolve_signed r current budget) (\<lambda>(outcome, left).
             reconcile rs current left (degraded \<or> outcome = O_UNPROVABLE))
      else reconcile rs current budget degraded)"

definition finish_cycle :: "bool \<Rightarrow> unit svc" where
  "finish_cycle degraded =
     sync (\<lambda>w. (Inr (), w\<lparr>health := if degraded then DEGRADED else HEALTHY,
                          last_successful_cycle_at := Some (clock w), recovered := True\<rparr>))"

text \<open>A cycle that throws is logged and forgotten; the next trigger runs another.\<close>

definition cycle :: "unit svc" where
  "cycle =
     try_catch
       (await validated_ledger_index (\<lambda>current.
        await (find_by_statuses sequence_active_statuses) (\<lambda>rows.
        await (reconcile rows current 1 False) finish_cycle)))
       (\<lambda>e. Return ())"

section \<open>What its answers establish\<close>

lemma reads_ok: "command q \<in> set reads \<Longrightarrow> request_ok (Request q) w"
  by (simp add: request_ok_def)

lemma switch_ok: "request_ok (SwitchEndpoint reason) w"
  by (simp add: request_ok_def)

text \<open>A ledger read: any answer, remembered.\<close>

lemma wp_ledger_read:
  assumes "command q \<in> set reads"
    and "\<And>x tr'. extends tr tr' \<Longrightarrow> answered tr' q f x \<Longrightarrow> Q x tr' w"
    and "\<And>e tr'. extends tr tr' \<Longrightarrow> E e tr' w"
  shows "meets X N (await (connection_request q) (\<lambda>resp. lift_result (f resp))) Q E tr w"
  using assms by (intro wp_ask reads_ok)

lemma wp_validated_ledger_index:
  assumes "\<And>x tr'. extends tr tr' \<Longrightarrow> answered tr' validated_ledger_request read_validated_ledger x \<Longrightarrow>
      Q x tr' w"
    and "\<And>e tr'. extends tr tr' \<Longrightarrow> E e tr' w"
  shows "meets X N validated_ledger_index Q E tr w"
  unfolding validated_ledger_index_def
  by (rule wp_ledger_read) (simp_all add: validated_ledger_request_def reads_def assms)

lemma wp_validated_account_info:
  assumes "\<And>x tr'. extends tr tr' \<Longrightarrow>
      answered tr' (validated_account_request a) read_validated_account x \<Longrightarrow> Q x tr' w"
    and "\<And>e tr'. extends tr tr' \<Longrightarrow> E e tr' w"
  shows "meets X N (validated_account_info a) Q E tr w"
  unfolding validated_account_info_def
  by (rule wp_ledger_read) (simp_all add: validated_account_request_def reads_def assms)

lemma wp_current_account_info:
  assumes "\<And>x tr'. extends tr tr' \<Longrightarrow>
      answered tr' (current_account_request a) read_current_account x \<Longrightarrow> Q x tr' w"
    and "\<And>e tr'. extends tr tr' \<Longrightarrow> E e tr' w"
  shows "meets X N (current_account_info a) Q E tr w"
  unfolding current_account_info_def
  by (rule wp_ledger_read) (simp_all add: current_account_request_def reads_def assms)

lemma wp_open_ledger_fee:
  assumes "\<And>x tr'. extends tr tr' \<Longrightarrow> answered tr' fee_request read_open_ledger_fee x \<Longrightarrow> Q x tr' w"
    and "\<And>e tr'. extends tr tr' \<Longrightarrow> E e tr' w"
  shows "meets X N open_ledger_fee Q E tr w"
  unfolding open_ledger_fee_def
  by (rule wp_ledger_read) (simp_all add: fee_request_def reads_def assms)

lemma wp_assert_recovered:
  assumes "\<And>w'. evolves w w' \<Longrightarrow> recovered w' \<Longrightarrow> Q () tr w'"
    and "\<And>e w'. evolves w w' \<Longrightarrow> E e tr w'"
  shows "meets X N assert_recovered Q E tr w"
  unfolding assert_recovered_def wp_sync
  using assms by (auto intro: permitted_refl world_ok_store)

text \<open>The columns of a signed row are those of the row at any later commit.\<close>

definition same_artifact :: "intent_row \<Rightarrow> intent_row \<Rightarrow> bool" where
  "same_artifact r r1 \<longleftrightarrow>
     transaction_hash r1 = transaction_hash r \<and>
     prepared_ledger_index r1 = prepared_ledger_index r \<and>
     last_ledger_sequence r1 = last_ledger_sequence r \<and> sequence r1 = sequence r \<and>
     source_account r1 = source_account r \<and> signed_tx_blob r1 = signed_tx_blob r"

lemma signed_columns:
  assumes "row_ok X N r" and "status r \<in> set signed_active_statuses"
  shows "\<exists>h low high seq b. transaction_hash r = Some h \<and> prepared_ledger_index r = Some low \<and>
     last_ledger_sequence r = Some high \<and> sequence r = Some seq \<and> signed_tx_blob r = Some b"
proof -
  have "signed_ok X r" "prepared_ok X N r"
    using assms row_ok_signed[OF assms(1)] row_ok_prepared[OF assms(1)]
    by (auto simp: status_groups)
  then show ?thesis unfolding signed_ok_def prepared_ok_def by auto
qed

lemma signed_same_artifact:
  assumes "row_ok X N r" and "status r \<in> set signed_active_statuses" and "row_evolves r r1"
  shows "same_artifact r r1"
proof -
  from signed_columns[OF assms(1,2)] obtain h low high seq b where
    c: "transaction_hash r = Some h" "prepared_ledger_index r = Some low"
      "last_ledger_sequence r = Some high" "sequence r = Some seq" "signed_tx_blob r = Some b"
    by blast
  have k: "kept_columns r r1" "same_identity r r1" using assms(3) by (auto simp: row_evolves_def)
  have "transaction_hash r1 = Some h" "prepared_ledger_index r1 = Some low"
      "last_ledger_sequence r1 = Some high" "sequence r1 = Some seq" "signed_tx_blob r1 = Some b"
    using k(1) c unfolding kept_columns_def by (blast intro: keptD)+
  with c k(2) show ?thesis by (simp add: same_artifact_def same_identity_def)
qed

lemma same_artifact_evidence:
  assumes "same_artifact r r1"
  shows "lookup_request r1 = lookup_request r" "consistent_lookup r1 lk = consistent_lookup r lk"
    "found_validated tr r1 lk raw = found_validated tr r lk raw"
    "proven_absent tr r1 high = proven_absent tr r high"
    "account_beyond tr r1 high a = account_beyond tr r high a"
    "source_account r1 = source_account r" "sequence r1 = sequence r"
    "signed_tx_blob r1 = signed_tx_blob r"
proof -
  show l: "lookup_request r1 = lookup_request r"
    using assms by (simp add: same_artifact_def lookup_request_def)
  show "consistent_lookup r1 lk = consistent_lookup r lk"
    using assms by (simp add: same_artifact_def consistent_lookup_def)
  show "found_validated tr r1 lk raw = found_validated tr r lk raw"
    by (simp add: found_validated_def l)
  show "proven_absent tr r1 high = proven_absent tr r high"
    using assms by (simp add: proven_absent_def l same_artifact_def)
  show "account_beyond tr r1 high a = account_beyond tr r high a"
    using assms by (simp add: account_beyond_def same_artifact_def)
qed (use assms in \<open>simp_all add: same_artifact_def\<close>)

lemma seen_ledger_extends: "seen_ledger tr n \<Longrightarrow> extends tr tr' \<Longrightarrow> seen_ledger tr' n"
  unfolding seen_ledger_def by (blast intro: answered_extends)

section \<open>A settled outcome is a terminal intent\<close>

definition settles :: "signed_outcome \<Rightarrow> bool" where
  "settles outcome \<longleftrightarrow> outcome \<in> {O_VALIDATED, O_EXPIRED, O_FAILED}"

definition settled :: "codec \<Rightarrow> nat \<Rightarrow> intent_row \<Rightarrow> signed_outcome \<Rightarrow> world \<Rightarrow> bool" where
  "settled X N r outcome w \<longleftrightarrow>
     settles outcome \<longrightarrow> (\<exists>r'. known X N r' w \<and> row_evolves r r' \<and> is_terminal (status r'))"

lemma path_from_signed:
  "can_transition\<^sup>*\<^sup>* s t \<Longrightarrow> s \<in> {SIGNED, SUBMITTED} \<Longrightarrow>
     t \<in> {SIGNED, SUBMITTED, VALIDATED, REJECTED, EXPIRED, FAILED}"
  by (induction rule: rtranclp_induct) auto

lemma signed_left_terminal:
  "row_evolves r r' \<Longrightarrow> status r \<in> set signed_active_statuses \<Longrightarrow>
     status r' \<notin> set signed_active_statuses \<Longrightarrow> is_terminal (status r')"
  using path_from_signed[of "status r" "status r'"]
  by (auto simp: row_evolves_def status_groups)

text \<open>
  Every settling transition has this shape: to a terminal status, from a signed one, without a
  look at its result. Either it applied or the intent had been settled by someone else.
\<close>

lemma wp_settle:
  assumes known: "known X N r w" and signed: "status r \<in> set signed_active_statuses"
    and expects: "request_from req = signed_active_statuses" and to: "is_terminal (request_to req)"
    and step: "\<And>r1 now. same_artifact r r1 \<Longrightarrow> status r1 \<in> set signed_active_statuses \<Longrightarrow>
      row_step X N tr (request_reason req) r1 (moved (request_patch req) (request_to req) now r1)"
    and Q: "\<And>w'. evolves w w' \<Longrightarrow> settled X N r outcome w' \<Longrightarrow> Q outcome tr w'"
    and E: "\<And>e w'. evolves w w' \<Longrightarrow> E e tr w'"
  shows "meets X N (await (transition (intent_id r) req) (\<lambda>_. Return outcome)) Q E tr w"
  unfolding wp_await
proof (rule wp_transition[OF known refl])
  fix r1 now assume r1: "row_evolves r r1" "status r1 \<in> set (request_from req)"
  show "row_step X N tr (request_reason req) r1 (moved (request_patch req) (request_to req) now r1)"
    using r1 expects by (intro step signed_same_artifact[OF known_ok[OF known] signed]) auto
next
  fix r' w' assume "evolves w w'" "known X N r' w'" "row_evolves r r'"
    "status r' \<notin> set (request_from req)"
  then show "meets X N (Return outcome) Q E tr w'"
    using signed_left_terminal[of r r'] signed expects
    by (auto intro!: Q simp: settled_def)
next
  fix r' w' assume "evolves w w'" "known X N r' w'" "row_evolves r r'" "status r' = request_to req"
  then show "meets X N (Return outcome) Q E tr w'"
    using to by (auto intro!: Q exI[of _ r'] simp: settled_def)
qed (rule E)

text \<open>The locale of facts a resolution carries along: the signed row and where it was read.\<close>

definition resolving :: "codec \<Rightarrow> nat \<Rightarrow> intent_row \<Rightarrow> world \<Rightarrow> bool" where
  "resolving X N r w \<longleftrightarrow> known X N r w \<and> status r \<in> set signed_active_statuses"

lemma wp_fail:
  assumes "resolving X N r w"
    and "\<And>r1 now. same_artifact r r1 \<Longrightarrow> status r1 \<in> set signed_active_statuses \<Longrightarrow>
      row_step X N tr (reason_of_failure code) r1 (moved [FailureCode code] FAILED now r1)"
    and "\<And>w'. evolves w w' \<Longrightarrow> settled X N r O_FAILED w' \<Longrightarrow> Q O_FAILED tr w'"
    and "\<And>e w'. evolves w w' \<Longrightarrow> E e tr w'"
  shows "meets X N (fail r code details) Q E tr w"
  unfolding fail_def
  by (rule wp_settle) (use assms in \<open>auto simp: resolving_def status_groups\<close>)

lemma wp_record_validated:
  assumes r: "resolving X N r w" and found: "found_validated tr r lk raw" "consistent_lookup r lk"
      "lk_ledger_index lk = Some idx" "lk_transaction_result lk = Some res" "tes_or_tec res"
    and Q: "\<And>w'. evolves w w' \<Longrightarrow> settled X N r O_VALIDATED w' \<Longrightarrow> Q O_VALIDATED tr w'"
    and E: "\<And>e w'. evolves w w' \<Longrightarrow> E e tr w'"
  shows "meets X N (record_validated r lk raw res idx) Q E tr w"
  unfolding record_validated_def wp_await[of _ _ _ _ current_time]
proof (rule wp_current_time, rule wp_settle)
  fix t w1 assume w1: "evolves w w1"
  show "known X N r w1" and "status r \<in> set signed_active_statuses"
    using r known_evolves[OF _ w1] by (auto simp: resolving_def)
  fix r1 now assume "same_artifact r r1" "status r1 \<in> set signed_active_statuses"
  then show "row_step X N tr (request_reason (validated_transition lk raw res idx t)) r1
      (moved (request_patch (validated_transition lk raw res idx t))
         (request_to (validated_transition lk raw res idx t)) now r1)"
    using found by (auto simp: validated_transition_def same_artifact_evidence intro: row_step.Validate)
qed (auto intro: Q E evolves_trans simp: validated_transition_def status_groups)

lemma resolving_evolves: "resolving X N r w \<Longrightarrow> evolves w w' \<Longrightarrow> resolving X N r w'"
  unfolding resolving_def by (blast intro: known_evolves)

lemma not_settling: "\<not> settles outcome \<Longrightarrow> settled X N r outcome w"
  by (simp add: settled_def)

lemma wp_apply_found:
  assumes r: "resolving X N r w"
    and asked: "lookup_request r = Some q" "answered tr q read_tx (Found lk raw)"
    and Q: "\<And>outcome w'. evolves w w' \<Longrightarrow> settled X N r outcome w' \<Longrightarrow> Q outcome tr w'"
    and E: "\<And>e w'. evolves w w' \<Longrightarrow> E e tr w'"
  shows "meets X N (apply_found r lk raw) Q E tr w"
proof (cases "lk_validated lk")
  case False
  then show ?thesis using Q[OF evolves_refl not_settling] by (simp add: apply_found_def settles_def)
next
  case True
  with asked have found: "found_validated tr r lk raw" by (auto simp: found_validated_def)
  obtain hash low high where c: "transaction_hash r = Some hash" "prepared_ledger_index r = Some low"
      "last_ledger_sequence r = Some high"
    using r signed_columns[OF known_ok, of X N r w] by (auto simp: resolving_def)
  have integrity: "meets X N (fail r FC_FINALITY_INTEGRITY_ERROR d) Q E tr w"
    if "\<not> consistent_lookup r lk" for d
    by (rule wp_fail[OF r])
      (use found that in \<open>auto simp: same_artifact_evidence intro: row_step.Integrity Q E\<close>)
  have unexpected: "meets X N (fail r FC_UNEXPECTED_VALIDATED_RESULT d) Q E tr w"
    if "consistent_lookup r lk" "\<not> (\<exists>res. lk_transaction_result lk = Some res \<and> tes_or_tec res)" for d
    by (rule wp_fail[OF r])
      (use found that in \<open>auto simp: same_artifact_evidence
        intro!: row_step.Unexpected[where lk = lk and raw = raw] intro: Q E\<close>)
  have validated: "meets X N (record_validated r lk raw res idx) Q E tr w"
    if "consistent_lookup r lk" "lk_ledger_index lk = Some idx" "lk_transaction_result lk = Some res"
      "tes_or_tec res" for res idx
    by (rule wp_record_validated[OF r found that]) (auto intro: Q E)
  have consistent: "consistent_lookup r lk \<longleftrightarrow> (\<exists>idx. lk_ledger_index lk = Some idx \<and>
      map_option upper (lk_hash lk) = Some hash \<and> low < idx \<and> idx \<le> high)"
    by (auto simp: consistent_lookup_def c)
  show ?thesis
    using True integrity unexpected validated
    by (auto simp: apply_found_def c required_def Let_def consistent split: option.split)
qed

lemma wp_apply_proven_absent:
  assumes r: "resolving X N r w" and absent: "proven_absent tr r high"
    and Q: "\<And>outcome tr' w'. extends tr tr' \<Longrightarrow> evolves w w' \<Longrightarrow> settled X N r outcome w' \<Longrightarrow>
      Q outcome tr' w'"
    and E: "\<And>e tr' w'. extends tr tr' \<Longrightarrow> evolves w w' \<Longrightarrow> E e tr' w'"
  shows "meets X N (apply_proven_absent r high) Q E tr w"
proof -
  obtain prepared where seq: "sequence r = Some prepared"
    using r signed_columns[OF known_ok, of X N r w] by (auto simp: resolving_def)
  show ?thesis
    unfolding apply_proven_absent_def wp_await seq required_def option.simps lift_result_simps wp.simps
  proof (rule wp_validated_account_info)
    fix acct tr' assume x: "extends tr tr'"
      and acct: "answered tr' (validated_account_request (source_account r)) read_validated_account acct"
    have absent': "proven_absent tr' r high"
      using absent x unfolding proven_absent_def by (blast intro: answered_extends seen_ledger_extends)
    have Q': "\<And>outcome w'. evolves w w' \<Longrightarrow> settled X N r outcome w' \<Longrightarrow> Q outcome tr' w'"
      and E': "\<And>e w'. evolves w w' \<Longrightarrow> E e tr' w'"
      using Q[OF x] E[OF x] by blast+
    have pending: "Q O_PENDING tr' w" by (rule Q'[OF evolves_refl not_settling]) (simp add: settles_def)
    have gone: "meets X N (fail r FC_SEQUENCE_CONFLICT d) Q E tr' w" if "acct = None" for d
      by (rule wp_fail[OF r])
        (use acct absent' that in \<open>auto simp: same_artifact_evidence
          intro: row_step.Account_gone Q' E'\<close>)
    have beyond: "account_beyond tr' r high a" if "acct = Some a"
        "\<not> (case ai_ledger_index a of None \<Rightarrow> 0 | Some n \<Rightarrow> n) \<le> high" for a
      using that acct by (auto simp: account_beyond_def split: option.splits)
    have taken: "meets X N (fail r (sequence_failure (ai_sequence a) prepared) d) Q E tr' w"
      if "account_beyond tr' r high a" "ai_sequence a \<noteq> prepared" for a d
      by (rule wp_fail[OF r])
        (use absent' that seq in \<open>auto simp: same_artifact_evidence
          intro: row_step.Sequence_taken Q' E'\<close>)
    have expired: "meets X N (await (transition (intent_id r)
          \<lparr>request_from = signed_active_statuses, request_to = EXPIRED,
           request_reason = LAST_LEDGER_SEQUENCE_EXPIRED, request_details = d, request_patch = []\<rparr>)
        (\<lambda>_. Return O_EXPIRED)) Q E tr' w"
      if "account_beyond tr' r high a" "ai_sequence a = prepared" for a d
      by (rule wp_settle)
        (use r absent' that seq in \<open>auto simp: resolving_def status_groups same_artifact_evidence
           intro: row_step.Expire_signed Q' E'\<close>)
    show "meets X N (settle_absent r high prepared acct) Q E tr' w"
    proof (cases acct)
      case None
      then show ?thesis using gone by (simp add: settle_absent_def Let_def)
    next
      case (Some a)
      then show ?thesis
        using pending beyond[OF Some] taken[of a] expired[of a]
        by (auto simp: settle_absent_def Let_def sequence_failure_def split: option.split)
    qed
  qed (use E in auto)
qed

lemma wp_apply_search:
  assumes r: "resolving X N r w"
    and asked: "lookup_request r = Some q" "answered tr q read_tx search"
    and seen: "seen_ledger tr current"
    and Q: "\<And>outcome tr' w'. extends tr tr' \<Longrightarrow> evolves w w' \<Longrightarrow> settled X N r outcome w' \<Longrightarrow>
      Q outcome tr' w'"
    and E: "\<And>e tr' w'. extends tr tr' \<Longrightarrow> evolves w w' \<Longrightarrow> E e tr' w'"
  shows "meets X N (apply_search r search current) Q E tr w"
proof (cases search)
  case (Found lk raw)
  have "meets X N (apply_found r lk raw) Q E tr w"
    by (rule wp_apply_found[OF r asked(1)]) (use asked(2) Found in \<open>auto intro: Q E\<close>)
  with Found show ?thesis by simp
next
  case (NotFound searched_all)
  obtain high where high: "last_ledger_sequence r = Some high"
    using r signed_columns[OF known_ok, of X N r w] by (auto simp: resolving_def)
  have pending: "Q O_PENDING tr w" "Q O_UNPROVABLE tr w"
    by (auto intro!: Q not_settling simp: settles_def)
  have "meets X N (apply_proven_absent r high) Q E tr w" if "high < current" "searched_all"
    by (rule wp_apply_proven_absent[OF r])
      (use that asked seen high NotFound in \<open>auto simp: proven_absent_def intro: Q E\<close>)
  with pending NotFound high show ?thesis by (auto simp: required_def)
qed

lemma wp_lookup:
  assumes r: "resolving X N r w" and q: "lookup_request r = Some (tx_request h low high)"
    and Q: "\<And>x tr'. extends tr tr' \<Longrightarrow> answered tr' (tx_request h low high) read_tx x \<Longrightarrow> Q x tr' w"
    and E: "\<And>e tr'. extends tr tr' \<Longrightarrow> E e tr' w"
  shows "meets X N (ledger_tx h low high) Q E tr w"
  unfolding ledger_tx_def
proof (rule wp_ask)
  fix w1 assume "evolves w w1" "world_ok X N w1"
  then have "known X N r w1" using r by (auto simp: resolving_def intro: known_evolves)
  then obtain r1 where r1: "r1 \<in> set (intents w1)" "row_evolves r r1" by (auto simp: known_def)
  with r have "lookup_request r1 = Some (tx_request h low high)"
    using signed_same_artifact[OF known_ok, of X N r w r1] q
    by (auto simp: resolving_def same_artifact_evidence)
  with r1(1) show "request_ok (Request (tx_request h low high)) w1"
    by (auto simp: request_ok_def)
qed (rule Q E; assumption)+

lemma wp_resolve_signed:
  assumes r: "resolving X N r w" and seen: "seen_ledger tr current"
    and Q: "\<And>outcome left tr' w'. extends tr tr' \<Longrightarrow> evolves w w' \<Longrightarrow> settled X N r outcome w' \<Longrightarrow>
      left \<le> budget \<Longrightarrow> Q (outcome, left) tr' w'"
    and E: "\<And>e tr' w'. extends tr tr' \<Longrightarrow> evolves w w' \<Longrightarrow> E e tr' w'"
  shows "meets X N (resolve_signed r current budget) Q E tr w"
proof -
  obtain hash low high where c: "transaction_hash r = Some hash" "prepared_ledger_index r = Some low"
      "last_ledger_sequence r = Some high"
    using r signed_columns[OF known_ok, of X N r w] by (auto simp: resolving_def)
  let ?q = "tx_request hash (js_add low 1) high"
  have q: "lookup_request r = Some ?q" by (simp add: lookup_request_def c)
  have finish: "meets X N (await (apply_search r search current) (\<lambda>outcome. Return (outcome, left))) Q E tr' w"
    if "extends tr tr'" "answered tr' ?q read_tx search" "left \<le> budget" for search tr' left
    unfolding wp_await
    by (rule wp_apply_search[OF r q that(2) seen_ledger_extends[OF seen that(1)]])
      (use that in \<open>auto intro!: Q E intro: extends_trans\<close>)
  have again: "meets X N (await (switch_endpoint reason) (\<lambda>_.
      await (ledger_tx hash (js_add low 1) high) (\<lambda>search2.
      await (apply_search r search2 current) (\<lambda>outcome. Return (outcome, budget - 1))))) Q E tr' w"
    if "extends tr tr'" for tr' reason
    unfolding wp_await[of _ _ _ _ "switch_endpoint reason"]
  proof (rule wp_switch_endpoint)
    fix tr2 assume "extends tr' tr2"
    with that have x: "extends tr tr2" by (rule extends_trans)
    show "meets X N (await (ledger_tx hash (js_add low 1) high) (\<lambda>search2.
      await (apply_search r search2 current) (\<lambda>outcome. Return (outcome, budget - 1)))) Q E tr2 w"
      unfolding wp_await[of _ _ _ _ "ledger_tx hash (js_add low 1) high"]
      by (rule wp_lookup[OF r q], rule finish)
        (auto intro: extends_trans[OF x] E)
  qed (use that in \<open>auto intro: E extends_trans switch_ok\<close>)
  show ?thesis
    unfolding resolve_signed_def c required_def option.simps lift_result_simps await.simps
      wp_await[of _ _ _ _ "ledger_tx hash (js_add low 1) high"]
    by (rule wp_lookup[OF r q]) (use finish again in \<open>auto intro: E\<close>)
qed

lemma wp_expire_unsigned:
  assumes known: "known X N r w" and unsigned: "status r \<in> set unsigned_active_statuses"
    and seen: "seen_ledger tr current"
    and Q: "\<And>w'. evolves w w' \<Longrightarrow> Q () tr w'" and E: "\<And>e w'. evolves w w' \<Longrightarrow> E e tr w'"
  shows "meets X N (expire_unsigned r current) Q E tr w"
proof -
  have "prepared_ok X N r"
    using row_ok_prepared[OF known_ok[OF known]] unsigned by (auto simp: status_groups)
  then obtain high where high: "last_ledger_sequence r = Some high" by (auto simp: prepared_ok_def)
  have high1: "last_ledger_sequence r1 = Some high" if "row_evolves r r1" for r1
    using that high by (auto simp: row_evolves_def kept_columns_def dest: keptD)
  have "meets X N (await (transition (intent_id r)
       \<lparr>request_from = unsigned_active_statuses, request_to = EXPIRED,
        request_reason = SIGNATURE_WINDOW_EXPIRED, request_details = d, request_patch = []\<rparr>)
       (\<lambda>_. Return ())) Q E tr w" if "high < current" for d
    unfolding wp_await
    by (rule wp_transition[OF known refl])
      (use that seen high1 in \<open>auto intro: row_step.Expire_unsigned Q E\<close>)
  then show ?thesis using Q[OF evolves_refl] by (auto simp: expire_unsigned_def high required_def)
qed

text \<open>The loop: it keeps the rows it was given known, whatever the earlier ones led to.\<close>

lemma wp_reconcile:
  assumes "\<forall>r \<in> set rs. known X N r w" and "seen_ledger tr current"
    and "\<And>degraded tr' w'. extends tr tr' \<Longrightarrow> evolves w w' \<Longrightarrow> Q degraded tr' w'"
    and "\<And>e tr' w'. extends tr tr' \<Longrightarrow> evolves w w' \<Longrightarrow> E e tr' w'"
  shows "meets X N (reconcile rs current budget degraded) Q E tr w"
  using assms
proof (induction rs current budget degraded arbitrary: tr w rule: reconcile.induct)
  case (1 current budget degraded)
  then show ?case by simp
next
  case (2 r rs current budget degraded)
  note known = 2(4) and seen = 2(5) and Q = 2(6) and E = 2(7)
  have rest: "\<forall>r \<in> set rs. known X N r w'" if "evolves w w'" for w'
    using known that by (auto intro: known_evolves)
  note Q' = Q[OF extends_trans evolves_trans] and E' = E[OF extends_trans evolves_trans]
  consider "status r \<in> set unsigned_active_statuses" | "status r \<in> set signed_active_statuses"
    | "status r \<notin> set unsigned_active_statuses" "status r \<notin> set signed_active_statuses" by blast
  then show ?case
  proof cases
    case 1
    have "meets X N (await (expire_unsigned r current) (\<lambda>_. reconcile rs current budget degraded)) Q E tr w"
      unfolding wp_await
      by (rule wp_expire_unsigned[OF _ 1 seen])
        (use known seen in \<open>auto intro!: 2(1) rest 1 intro: Q' E' E extends_refl\<close>)
    with 1 show ?thesis by simp
  next
    case s: 2
    have "meets X N (await (resolve_signed r current budget) (\<lambda>(outcome, left).
        reconcile rs current left (degraded \<or> outcome = O_UNPROVABLE))) Q E tr w"
      unfolding wp_await
      by (rule wp_resolve_signed[OF _ seen])
        (use known s in \<open>auto simp: resolving_def status_groups intro!: 2(2) rest
           intro: Q' E' E seen_ledger_extends[OF seen]\<close>)
    with s show ?thesis by (auto simp: status_groups)
  next
    case 3
    then show ?thesis using 2(3)[OF 3 rest[OF evolves_refl] seen Q E] by simp
  qed
qed

lemma wp_finish_cycle:
  assumes "answered tr validated_ledger_request read_validated_ledger n"
    and "\<And>w'. evolves w w' \<Longrightarrow> recovered w' \<Longrightarrow> Q () tr w'"
  shows "meets X N (finish_cycle degraded) Q E tr w"
proof -
  have G: "permitted X N tr w1 (w1\<lparr>health := h, last_successful_cycle_at := t, recovered := True\<rparr>)"
    if "world_ok X N w1" for w1 h t
    using assms(1) that
    by (auto simp: permitted_def memory_only_def world_ok_def store_ok_def trail_ok_def
        intent_trail_ok_def trail_of_def)
  show ?thesis
    unfolding finish_cycle_def wp_sync
    using G permitted_evolves[OF _ G]
    by (auto intro!: assms(2) elim!: evolves_trans)
qed

text \<open>The cycle meets its contract from any state, and never throws.\<close>

lemma wp_cycle:
  assumes "\<And>tr' w'. extends tr tr' \<Longrightarrow> evolves w w' \<Longrightarrow> Q () tr' w'"
  shows "meets X N cycle Q E tr w"
proof -
  let ?E = "\<lambda>e. meets X N (Return ()) Q E"
  have E: "?E e tr' w'" if "extends tr tr'" "evolves w w'" for e tr' w'
    using assms[OF that] by simp
  have finish: "meets X N (finish_cycle degraded) Q ?E tr3 w2"
    if "extends tr tr1" "answered tr1 validated_ledger_request read_validated_ledger current"
      "evolves w w1" "extends tr1 tr3" "evolves w1 w2" for degraded tr1 tr3 w1 w2 current
    by (rule wp_finish_cycle[OF answered_extends[OF that(2,4)]])
      (use that in \<open>auto intro: assms extends_trans evolves_trans\<close>)
  have loop: "meets X N (await (find_by_statuses sequence_active_statuses) (\<lambda>rows.
       await (reconcile rows current 1 False) finish_cycle)) Q ?E tr1 w"
    if x: "extends tr tr1" and a: "answered tr1 validated_ledger_request read_validated_ledger current"
    for tr1 current
    unfolding wp_await
  proof (rule wp_find_by_statuses)
    fix rs w1 assume w1: "evolves w w1"
      and rs: "\<forall>r \<in> set rs. known X N r w1 \<and> status r \<in> set sequence_active_statuses"
    show "meets X N (reconcile rs current 1 False)
        (\<lambda>x. meets X N (finish_cycle x) Q ?E) ?E tr1 w1"
    proof (rule wp_reconcile)
      show "?E e tr' w'" if "extends tr1 tr'" "evolves w1 w'" for e tr' w'
        by (rule E[OF extends_trans[OF x that(1)] evolves_trans[OF w1 that(2)]])
      show "meets X N (finish_cycle degraded) Q ?E tr' w'"
        if "extends tr1 tr'" "evolves w1 w'" for degraded tr' w'
        by (rule finish[OF x a w1 that])
    qed (use rs a in \<open>auto simp: seen_ledger_def\<close>)
  qed (use x in \<open>auto intro: assms\<close>)
  show ?thesis
    unfolding cycle_def wp_try_catch wp_await[of _ _ _ _ validated_ledger_index]
    by (rule wp_validated_ledger_index) (use loop in \<open>auto intro: assms\<close>)
qed

end
