(* ===== verification/Preparation.thy ===== *)
theory Preparation
  imports Finality
begin

text \<open>
  Preparation (\<open>src/preparation/preparation.service.ts\<close>, with the fee and simulation services):
  from CREATED to a simulated, signable transaction, one conditional update per step. A step
  answers \<open>Done\<close>, the updated row, or asks for the row to be read again.
\<close>

section \<open>The service\<close>

datatype step_result = Done | Reread | Advanced intent_row

fun advanced :: "intent_row option \<Rightarrow> step_result" where
  "advanced None = Reread"
| "advanced (Some r) = Advanced r"

definition invalid_state :: "intent_status \<Rightarrow> exn" where
  "invalid_state s = api_error INVALID_INTENT_STATE (''The intent is '' @ status_name s @ ''.'')"

definition account_not_found :: exn where
  "account_not_found =
     api_error ACCOUNT_NOT_FOUND ''The source account does not exist in a validated ledger.''"

definition capped_open_ledger_fee :: "string svc" where
  "capped_open_ledger_fee = await open_ledger_fee (\<lambda>fee. lift_result (check_fee fee))"

definition simulate :: "object \<Rightarrow> (simulation_outcome \<times> object) svc" where
  "simulate prepared = await (lift_result (uncaught (to_canonical_form prepared))) ledger_simulate"

definition stored_transaction :: "intent_row \<Rightarrow> exn + object" where
  "stored_transaction r =
     (case as_record (prepared_tx_json r) of
        None \<Rightarrow> Inl (PlainError (''intent '' @ intent_id r @ '' has no prepared transaction''))
      | Some tx \<Rightarrow> Inr tx)"

text \<open>The account's Sequence, once validated and current state agree and nothing is queued.\<close>

definition quiescent_sequence :: "string \<Rightarrow> nat svc" where
  "quiescent_sequence acct =
     await (validated_account_info acct) (\<lambda>v.
       case v of
         None \<Rightarrow> Throw account_not_found
       | Some validated \<Rightarrow>
           await (current_account_info acct) (\<lambda>current.
             if ai_sequence current \<noteq> ai_sequence validated \<or> ai_queued_transaction_count current \<noteq> 0
             then Throw (ApiError ACCOUNT_NOT_QUIESCENT
                    ''The source account has pending activity; try again after it settles.''
                    (Some [(''validatedSequence'', JNum (int (ai_sequence validated))),
                           (''currentSequence'', JNum (int (ai_sequence current))),
                           (''queuedTransactions'', JNum (int (ai_queued_transaction_count current)))]))
             else Return (ai_sequence validated)))"

definition build_and_encode :: "codec \<Rightarrow> payload \<Rightarrow> preparation_params \<Rightarrow> exn + object \<times> string" where
  "build_and_encode X intent params =
     (let tx = build_transaction intent params
      in case rbind (validate_transaction X tx) (\<lambda>_. encode_transaction X tx) of
           Inl reason \<Rightarrow>
             Inl (api_error TRANSACTION_BUILD_INVALID
                    (''The transaction could not be built: '' @ reason))
         | Inr blob \<Rightarrow> Inr (tx, blob))"

definition prepared_transition ::
  "object \<Rightarrow> string \<Rightarrow> nat \<Rightarrow> nat \<Rightarrow> string \<Rightarrow> nat \<Rightarrow> nat \<Rightarrow> transition_request" where
  "prepared_transition tx blob ledger seq fee high t =
     \<lparr>request_from = [CREATED], request_to = PREPARED, request_reason = TRANSACTION_PREPARED,
      request_details = Some [(''sequence'', JNum (int seq)), (''fee'', JStr fee),
                              (''lastLedgerSequence'', JNum (int high))],
      request_patch = [PreparedTxJson (JObj tx), PreparedTxBlob blob, PreparedLedgerIndex ledger,
                       Sequence seq, FeeDrops fee, LastLedgerSequence high, PreparedAt t]\<rparr>"

definition prepare_created :: "codec \<Rightarrow> nat \<Rightarrow> intent_row \<Rightarrow> step_result svc" where
  "prepare_created X N r =
     await assert_recovered (\<lambda>_.
     await (lift_result (as_intent_payload (intent_payload r))) (\<lambda>intent.
     await (quiescent_sequence (account intent)) (\<lambda>seq.
     await validated_ledger_index (\<lambda>ledger.
     await capped_open_ledger_fee (\<lambda>fee.
       let high = last_ledger_sequence_for ledger
       in await (lift_result (build_and_encode X intent
                   \<lparr>param_fee = fee, param_sequence = seq, param_last_ledger_sequence = high,
                    param_network_id = N\<rparr>)) (\<lambda>(tx, blob).
          try_catch
            (await current_time (\<lambda>t.
             await (transition (intent_id r) (prepared_transition tx blob ledger seq fee high t))
               (\<lambda>prepared. Return (advanced prepared))))
            (\<lambda>e. if e = AccountBusyError
                 then Throw (api_error ACCOUNT_BUSY
                        ''Another prepared transaction is active for this source account.'')
                 else Throw e)))))))"

definition simulated_transition :: "simulation_outcome \<Rightarrow> object \<Rightarrow> nat \<Rightarrow> transition_request" where
  "simulated_transition sim raw t =
     \<lparr>request_from = [PREPARED], request_to = SIMULATED, request_reason = SIMULATION_COMPLETED,
      request_details = Some [(''engineResult'', JStr (sim_engine_result sim))],
      request_patch = [SimulationEngineResult (sim_engine_result sim), SimulationResult (JObj raw),
                       SimulatedAt t]\<rparr>"

definition mismatch_transition :: "object \<Rightarrow> transition_request" where
  "mismatch_transition raw =
     \<lparr>request_from = [PREPARED], request_to = FAILED,
      request_reason = SIMULATION_ARTIFACT_MISMATCH, request_details = None,
      request_patch = [FailureCode FC_SIMULATION_ARTIFACT_MISMATCH, SimulationResult (JObj raw)]\<rparr>"

definition simulate_prepared :: "codec \<Rightarrow> intent_row \<Rightarrow> step_result svc" where
  "simulate_prepared X r =
     await assert_recovered (\<lambda>_.
     await (lift_result (stored_transaction r)) (\<lambda>prepared.
     await (required (last_ledger_sequence r) ''last_ledger_sequence'') (\<lambda>high.
     await validated_ledger_index (\<lambda>n.
       if high < n
       then await (transition (intent_id r)
                     \<lparr>request_from = [PREPARED], request_to = EXPIRED,
                      request_reason = SIGNATURE_WINDOW_EXPIRED,
                      request_details = Some [(''lastLedgerSequence'', JNum (int high))],
                      request_patch = []\<rparr>)
              (\<lambda>_. Throw (api_error INTENT_EXPIRED ''The intent expired before simulation.''))
       else
         await (simulate prepared) (\<lambda>(sim, raw).
           if \<not> simulation_matches_prepared X prepared (sim_tx_json sim)
           then await (transition (intent_id r) (mismatch_transition raw))
                  (\<lambda>_. Throw (api_error INVALID_INTENT_STATE
                     ''Simulation returned a different transaction; the intent failed with SIMULATION_ARTIFACT_MISMATCH.''))
           else await current_time (\<lambda>t.
                await (transition (intent_id r) (simulated_transition sim raw t))
                  (\<lambda>simulated. Return (advanced simulated))))))))"

definition engine_result_message :: "intent_row \<Rightarrow> json" where
  "engine_result_message r =
     (case as_record (simulation_result r) of
        None \<Rightarrow> JNull
      | Some ob \<Rightarrow> or_null JStr (optional_str (field ob ''engine_result_message'')))"

definition complete_simulation :: "intent_row \<Rightarrow> step_result svc" where
  "complete_simulation r =
     await (required (simulation_engine_result r) ''simulation_engine_result'') (\<lambda>er.
       if er = ''tesSUCCESS''
       then await (transition (intent_id r)
                     \<lparr>request_from = [SIMULATED], request_to = AWAITING_SIGNATURE,
                      request_reason = SIMULATION_PASSED, request_details = None,
                      request_patch = []\<rparr>)
              (\<lambda>passed. Return (advanced passed))
       else
         let details = [(''engineResult'', JStr er), (''engineResultMessage'', engine_result_message r)]
         in await (transition (intent_id r)
                     \<lparr>request_from = [SIMULATED], request_to = REJECTED,
                      request_reason = SIMULATION_REJECTED_REASON, request_details = Some details,
                      request_patch = []\<rparr>)
              (\<lambda>rejected. case rejected of
                  None \<Rightarrow> Return Reread
                | Some _ \<Rightarrow> Throw (ApiError SIMULATION_REJECTED
                               ''Simulation did not return tesSUCCESS.'' (Some details))))"

definition preparation_step :: "codec \<Rightarrow> nat \<Rightarrow> intent_row \<Rightarrow> step_result svc" where
  "preparation_step X N r =
     (case status r of
        CREATED \<Rightarrow> prepare_created X N r
      | PREPARED \<Rightarrow> simulate_prepared X r
      | SIMULATED \<Rightarrow> complete_simulation r
      | AWAITING_SIGNATURE \<Rightarrow> Return Done
      | SIGNED \<Rightarrow> Return Done
      | SUBMITTED \<Rightarrow> Return Done
      | VALIDATED \<Rightarrow> Return Done
      | EXPIRED \<Rightarrow> Throw (api_error INTENT_EXPIRED ''The intent expired.'')
      | REJECTED \<Rightarrow> Throw (invalid_state REJECTED)
      | FAILED \<Rightarrow> Throw (invalid_state FAILED))"

definition max_preparation_steps :: nat where
  "max_preparation_steps = 8"

fun prepare_loop :: "codec \<Rightarrow> nat \<Rightarrow> string \<Rightarrow> nat \<Rightarrow> intent_row \<Rightarrow> intent_row svc" where
  "prepare_loop X N i 0 r =
     Throw (PlainError (''intent '' @ i @ '' did not settle within 8 preparation steps''))"
| "prepare_loop X N i (Suc steps) r =
     await (preparation_step X N r) (\<lambda>next_row. case next_row of
         Done \<Rightarrow> Return r
       | Advanced r' \<Rightarrow> prepare_loop X N i steps r'
       | Reread \<Rightarrow> await (load i) (prepare_loop X N i steps))"

definition prepare :: "codec \<Rightarrow> nat \<Rightarrow> string \<Rightarrow> intent_row svc" where
  "prepare X N i = await (load i) (prepare_loop X N i max_preparation_steps)"

section \<open>What its answers establish\<close>

definition quiescent :: "(env_call, env_answer) trace \<Rightarrow> string \<Rightarrow> nat \<Rightarrow> bool" where
  "quiescent tr acct seq \<longleftrightarrow>
     (\<exists>v c. answered tr (validated_account_request acct) read_validated_account (Some v) \<and>
        answered tr (current_account_request acct) read_current_account c \<and>
        ai_sequence v = seq \<and> ai_sequence c = seq \<and> ai_queued_transaction_count c = 0)"

lemma quiescent_extends: "quiescent tr acct seq \<Longrightarrow> extends tr tr' \<Longrightarrow> quiescent tr' acct seq"
  unfolding quiescent_def by (blast intro: answered_extends)

lemma wp_quiescent_sequence:
  assumes Q: "\<And>seq tr'. extends tr tr' \<Longrightarrow> quiescent tr' acct seq \<Longrightarrow> Q seq tr' w"
    and E: "\<And>e tr'. extends tr tr' \<Longrightarrow> E e tr' w"
  shows "meets X N (quiescent_sequence acct) Q E tr w"
proof -
  have "meets X N (await (current_account_info acct) (\<lambda>current.
      if ai_sequence current \<noteq> ai_sequence v \<or> ai_queued_transaction_count current \<noteq> 0
      then Throw (e current) else Return (ai_sequence v))) Q E tr1 w"
    if x: "extends tr tr1" and v: "answered tr1 (validated_account_request acct) read_validated_account (Some v)"
    for v e tr1
    unfolding wp_await
  proof (rule wp_current_account_info)
    fix current tr2 assume x2: "extends tr1 tr2"
      and c: "answered tr2 (current_account_request acct) read_current_account current"
    have "quiescent tr2 acct (ai_sequence v)"
      if "ai_sequence current = ai_sequence v" "ai_queued_transaction_count current = 0"
      using that c answered_extends[OF v x2] unfolding quiescent_def by blast
    then show "meets X N (if ai_sequence current \<noteq> ai_sequence v \<or>
        ai_queued_transaction_count current \<noteq> 0 then Throw (e current) else Return (ai_sequence v)) Q E tr2 w"
      using extends_trans[OF x x2] by (auto intro: Q E)
  qed (auto intro: E extends_trans[OF x])
  then show ?thesis
    unfolding quiescent_sequence_def wp_await[of _ _ _ _ "validated_account_info acct"]
    by (intro wp_validated_account_info) (auto intro: E split: option.split)
qed

lemma wp_capped_open_ledger_fee:
  assumes "\<And>fee tr'. extends tr tr' \<Longrightarrow> answered tr' fee_request read_open_ledger_fee fee \<Longrightarrow>
      check_fee fee = Inr fee \<Longrightarrow> Q fee tr' w"
    and "\<And>e tr'. extends tr tr' \<Longrightarrow> E e tr' w"
  shows "meets X N capped_open_ledger_fee Q E tr w"
  unfolding capped_open_ledger_fee_def wp_await
  by (rule wp_open_ledger_fee)
    (auto simp: wp_lift_result check_fee_Inr_iff intro: assms split: sum.split)

lemma build_and_encode_Inr:
  "build_and_encode X p params = Inr (tx, blob) \<longleftrightarrow>
     tx = build_transaction p params \<and> validate_transaction X tx = Inr () \<and>
     encode_transaction X tx = Inr blob"
  by (auto simp: build_and_encode_def Let_def split: sum.splits)

text \<open>What a step of preparation leaves: the next row, in the next status.\<close>

definition step_answer :: "codec \<Rightarrow> nat \<Rightarrow> intent_row \<Rightarrow> step_result \<Rightarrow> world \<Rightarrow> bool" where
  "step_answer X N r res w \<longleftrightarrow>
     (case res of
        Done \<Rightarrow> status r \<in> {AWAITING_SIGNATURE, SIGNED, SUBMITTED, VALIDATED}
      | Reread \<Rightarrow> True
      | Advanced r' \<Rightarrow> known X N r' w \<and> row_evolves r r' \<and> can_transition (status r) (status r'))"

lemma step_answer_advanced:
  "known X N r' w \<Longrightarrow> row_evolves r r' \<Longrightarrow> can_transition (status r) (status r') \<Longrightarrow>
     step_answer X N r (advanced (Some r')) w"
  by (simp add: step_answer_def)

lemma step_answer_reread: "step_answer X N r (advanced None) w"
  by (simp add: step_answer_def)

text \<open>The commit of one step: from exactly the status the row was read in.\<close>

lemma wp_advance:
  assumes known: "known X N r w" and expects: "request_from req = [status r]"
    and allowed: "can_transition (status r) (request_to req)"
    and step: "\<And>r1 now. row_evolves r r1 \<Longrightarrow> row_ok X N r1 \<Longrightarrow> status r1 = status r \<Longrightarrow>
      row_step X N tr (request_reason req) r1 (moved (request_patch req) (request_to req) now r1)"
    and Q: "\<And>res w'. evolves w w' \<Longrightarrow> step_answer X N r res w' \<Longrightarrow> Q res tr w'"
    and E: "\<And>e w'. evolves w w' \<Longrightarrow> E e tr w'"
  shows "meets X N (await (transition (intent_id r) req) (\<lambda>x. Return (advanced x))) Q E tr w"
  unfolding wp_await
  by (rule wp_transition[OF known refl])
    (use assms in \<open>auto intro!: Q E step_answer_reread[simplified] step simp: step_answer_def\<close>)

lemma identity_payload:
  "row_ok X N r \<Longrightarrow> as_intent_payload (intent_payload r) = Inr p \<Longrightarrow>
     intent_payload r = JObj (payload_object p)"
  by (auto simp: row_ok_def identity_ok_def)

lemma wp_prepare_created:
  assumes known: "known X N r w" and created: "status r = CREATED"
    and Q: "\<And>res tr' w'. extends tr tr' \<Longrightarrow> evolves w w' \<Longrightarrow> step_answer X N r res w' \<Longrightarrow> Q res tr' w'"
    and E: "\<And>e tr' w'. extends tr tr' \<Longrightarrow> evolves w w' \<Longrightarrow> E e tr' w'"
  shows "meets X N (prepare_created X N r) Q E tr w"
proof -
  have commit: "meets X N (try_catch
      (await current_time (\<lambda>t.
       await (transition (intent_id r) (prepared_transition tx blob ledger seq fee (last_ledger_sequence_for ledger) t))
         (\<lambda>prepared. Return (advanced prepared))))
      (\<lambda>e. if e = AccountBusyError then Throw busy else Throw e)) Q E tr1 w1"
    if x: "extends tr tr1" and w1: "evolves w w1" and p: "intent_payload r = JObj (payload_object p)"
      and quiet: "quiescent tr1 (account p) seq"
      and ledger: "answered tr1 validated_ledger_request read_validated_ledger ledger"
      and fee: "answered tr1 fee_request read_open_ledger_fee fee"
      and built: "prepared_as X N p fee seq ledger tx blob" for tr1 w1 p seq ledger fee tx blob busy
    unfolding wp_try_catch wp_await[of _ _ _ _ current_time]
  proof (rule wp_current_time, rule wp_advance)
    fix t w2 assume w2: "evolves w1 w2"
    show "known X N r w2" by (rule known_evolves[OF known_evolves[OF known w1] w2])
    fix r1 now assume "row_evolves r r1" "status r1 = status r"
    then have "status r1 = CREATED" "intent_payload r1 = JObj (payload_object p)"
      using created p by (auto simp: row_evolves_def same_identity_def)
    then show "row_step X N tr1 (request_reason (prepared_transition tx blob ledger seq fee (last_ledger_sequence_for ledger) t)) r1
        (moved (request_patch (prepared_transition tx blob ledger seq fee (last_ledger_sequence_for ledger) t))
          (request_to (prepared_transition tx blob ledger seq fee (last_ledger_sequence_for ledger) t)) now r1)"
      using quiet ledger fee built
      by (auto simp: prepared_transition_def quiescent_def intro: row_step.Prepare)
  qed (use created in \<open>auto simp: prepared_transition_def intro!: Q[OF x] E[OF x] intro: evolves_trans[OF w1] evolves_trans\<close>)
  note awaitI = wp_await[THEN iffD2]
  show ?thesis
    unfolding prepare_created_def
  proof (rule awaitI, rule wp_assert_recovered, goal_cases)
    case (1 w1)
    note w1 = \<open>evolves w w1\<close>
    show ?case
    proof (cases "as_intent_payload (intent_payload r)")
      case (Inl e)
      then show ?thesis using E[OF extends_refl w1] by simp
    next
      case (Inr p)
      have p: "intent_payload r = JObj (payload_object p)"
        by (rule identity_payload[OF known_ok[OF known] Inr])
      show ?thesis
        unfolding Inr lift_result_simps await.simps
      proof (rule awaitI, rule wp_quiescent_sequence, goal_cases)
        case quiet: (1 seq tr1)
        show ?case
        proof (rule awaitI, rule wp_validated_ledger_index, goal_cases)
          case ledger: (1 ledger tr2)
          show ?case
          proof (rule awaitI, rule wp_capped_open_ledger_fee, goal_cases)
            case fee: (1 fee tr3)
            have x: "extends tr tr3"
              using quiet(1) ledger(1) fee(1) by (blast intro: extends_trans)
            have evidence: "quiescent tr3 (account p) seq"
              "answered tr3 validated_ledger_request read_validated_ledger ledger"
              using quiet ledger fee by (blast intro: quiescent_extends answered_extends extends_trans)+
            show ?case
              using commit[OF x w1 p evidence fee(2)] fee(3) E[OF x w1]
              by (auto simp: Let_def wp_await wp_lift_result build_and_encode_Inr prepared_as_def
                    split: sum.split)
          qed (use quiet ledger w1 in \<open>blast intro: E extends_trans\<close>)
        qed (use quiet w1 in \<open>blast intro: E extends_trans\<close>)
      qed (use w1 in \<open>blast intro: E\<close>)
    qed
  qed (blast intro: E extends_refl)
qed

lemma prepared_columns:
  assumes "row_ok X N r" and "status r \<noteq> CREATED"
  shows "\<exists>tx blob seq high. prepared_tx_json r = Some (JObj tx) \<and> prepared_tx_blob r = Some blob \<and>
     sequence r = Some seq \<and> last_ledger_sequence r = Some high"
  using row_ok_prepared[OF assms] unfolding prepared_ok_def by blast

lemma prepared_columns_kept:
  assumes "row_evolves r r1"
  shows "prepared_tx_json r = Some tx \<Longrightarrow> prepared_tx_json r1 = Some tx"
    "prepared_tx_blob r = Some blob \<Longrightarrow> prepared_tx_blob r1 = Some blob"
    "sequence r = Some seq \<Longrightarrow> sequence r1 = Some seq"
    "last_ledger_sequence r = Some high \<Longrightarrow> last_ledger_sequence r1 = Some high"
    "simulation_engine_result r = Some er \<Longrightarrow> simulation_engine_result r1 = Some er"
    "source_account r1 = source_account r"
  using assms by (auto simp: row_evolves_def kept_columns_def same_identity_def dest: keptD)

lemma wp_simulate:
  assumes known: "known X N r w" and tx: "prepared_tx_json r = Some (JObj tx)"
    and Q: "\<And>c sim raw tr'. extends tr tr' \<Longrightarrow> to_canonical_form tx = Inr c \<Longrightarrow>
      answered tr' (simulate_request c) read_simulation (sim, raw) \<Longrightarrow> Q (sim, raw) tr' w"
    and E: "\<And>e tr'. extends tr tr' \<Longrightarrow> E e tr' w"
  shows "meets X N (simulate tx) Q E tr w"
proof (cases "to_canonical_form tx")
  case (Inl m)
  then show ?thesis using E[OF extends_refl] by (simp add: simulate_def)
next
  case (Inr c)
  have "request_ok (Request (simulate_request c)) w1" if w1: "evolves w w1" for w1
  proof -
    obtain r1 where "r1 \<in> set (intents w1)" "row_evolves r r1"
      using known_evolves[OF known w1] by (auto simp: known_def)
    with prepared_columns_kept(1)[OF this(2) tx] Inr show ?thesis
      unfolding request_ok_def env_call.case by blast
  qed
  then have "meets X N (ledger_simulate c) Q E tr w"
    unfolding ledger_simulate_def by (intro wp_ask) (auto intro: Q[OF _ Inr] E)
  with Inr show ?thesis by (simp add: simulate_def)
qed

lemma wp_simulate_prepared:
  assumes known: "known X N r w" and prepared: "status r = PREPARED"
    and Q: "\<And>res tr' w'. extends tr tr' \<Longrightarrow> evolves w w' \<Longrightarrow> step_answer X N r res w' \<Longrightarrow> Q res tr' w'"
    and E: "\<And>e tr' w'. extends tr tr' \<Longrightarrow> evolves w w' \<Longrightarrow> E e tr' w'"
  shows "meets X N (simulate_prepared X r) Q E tr w"
proof -
  obtain tx high where tx: "prepared_tx_json r = Some (JObj tx)"
      and high: "last_ledger_sequence r = Some high"
    using prepared_columns[OF known_ok[OF known]] prepared by auto
  have stored: "stored_transaction r = Inr tx" by (simp add: stored_transaction_def tx as_record_def)
  have at: "prepared_tx_json r1 = Some (JObj tx)" "last_ledger_sequence r1 = Some high"
    if "row_evolves r r1" for r1
    using prepared_columns_kept(1,4)[OF that] tx high by auto
  note awaitI = wp_await[THEN iffD2]
  show ?thesis
    unfolding simulate_prepared_def stored high required_def option.simps lift_result_simps await.simps
  proof (rule awaitI, rule wp_assert_recovered, goal_cases)
    case (1 w1)
    note w1 = \<open>evolves w w1\<close>
    note known1 = known_evolves[OF known w1]
    show ?case
    proof (rule awaitI, rule wp_validated_ledger_index, goal_cases)
      case n: (1 n tr1)
      have expire: "meets X N (await (transition (intent_id r)
           \<lparr>request_from = [PREPARED], request_to = EXPIRED,
            request_reason = SIGNATURE_WINDOW_EXPIRED, request_details = d, request_patch = []\<rparr>)
           (\<lambda>_. Throw e)) Q E tr1 w1" if "high < n" for d e
        unfolding wp_await
        by (rule wp_transition[OF known1 refl])
          (use that n at in \<open>auto simp: seen_ledger_def status_groups
             intro!: E intro: row_step.Expire_unsigned evolves_trans[OF w1]\<close>)
      have simulated: "meets X N (await (simulate tx) (\<lambda>(sim, raw).
           if \<not> simulation_matches_prepared X tx (sim_tx_json sim)
           then await (transition (intent_id r) (mismatch_transition raw)) (\<lambda>_. Throw e)
           else await current_time (\<lambda>t.
                await (transition (intent_id r) (simulated_transition sim raw t))
                  (\<lambda>simulated. Return (advanced simulated))))) Q E tr1 w1"
        if "\<not> high < n" for e
      proof (rule awaitI, rule wp_simulate[OF known1 tx], goal_cases)
        case a: (1 c sim raw tr2)
        have x: "extends tr tr2" by (rule extends_trans[OF n(1) a(1)])
        have n2: "answered tr2 validated_ledger_request read_validated_ledger n"
          by (rule answered_extends[OF n(2) a(1)])
        have "meets X N (await (transition (intent_id r) (mismatch_transition raw)) (\<lambda>_. Throw e)) Q E tr2 w1"
          if "\<not> simulation_matches_prepared X tx (sim_tx_json sim)"
          unfolding wp_await
          by (rule wp_transition[OF known1 refl])
            (use that a at in \<open>auto simp: mismatch_transition_def
               intro!: E[OF x] intro: row_step.Mismatch evolves_trans[OF w1]\<close>)
        moreover have "meets X N (await current_time (\<lambda>t.
              await (transition (intent_id r) (simulated_transition sim raw t))
                (\<lambda>simulated. Return (advanced simulated)))) Q E tr2 w1"
          if "simulation_matches_prepared X tx (sim_tx_json sim)"
        proof (rule awaitI, rule wp_current_time, rule wp_advance)
          fix t w2 assume w2: "evolves w1 w2"
          show "known X N r w2" by (rule known_evolves[OF known1 w2])
          fix r1 now assume "row_evolves r r1" "status r1 = status r"
          then show "row_step X N tr2 (request_reason (simulated_transition sim raw t)) r1
              (moved (request_patch (simulated_transition sim raw t))
                 (request_to (simulated_transition sim raw t)) now r1)"
            using that a n2 at prepared \<open>\<not> high < n\<close>
            by (auto simp: simulated_transition_def intro: row_step.Simulate)
        qed (use prepared in \<open>auto simp: simulated_transition_def intro!: Q[OF x] E[OF x]
               intro: evolves_trans[OF w1] evolves_trans\<close>)
        ultimately show ?case by auto
      qed (use n w1 in \<open>blast intro: E extends_trans\<close>)
      show ?case using expire simulated by auto
    qed (use w1 in \<open>blast intro: E\<close>)
  qed (blast intro: E extends_refl)
qed

lemma wp_complete_simulation:
  assumes known: "known X N r w" and simulated: "status r = SIMULATED"
    and Q: "\<And>res w'. evolves w w' \<Longrightarrow> step_answer X N r res w' \<Longrightarrow> Q res tr w'"
    and E: "\<And>e w'. evolves w w' \<Longrightarrow> E e tr w'"
  shows "meets X N (complete_simulation r) Q E tr w"
proof -
  obtain er where er: "simulation_engine_result r = Some er"
    using known_ok[OF known] simulated by (cases "simulation_engine_result r") (auto simp: row_ok_def)
  have at: "simulation_engine_result r1 = Some er" if "row_evolves r r1" for r1
    using prepared_columns_kept(5)[OF that er] .
  have pass: "meets X N (await (transition (intent_id r)
       \<lparr>request_from = [SIMULATED], request_to = AWAITING_SIGNATURE,
        request_reason = SIMULATION_PASSED, request_details = d, request_patch = []\<rparr>)
       (\<lambda>passed. Return (advanced passed))) Q E tr w" if "er = ''tesSUCCESS''" for d
    by (rule wp_advance[OF known])
      (use that at simulated in \<open>auto intro: Q E row_step.Pass\<close>)
  have reject: "meets X N (await (transition (intent_id r)
       \<lparr>request_from = [SIMULATED], request_to = REJECTED,
        request_reason = SIMULATION_REJECTED_REASON, request_details = d, request_patch = []\<rparr>)
       (\<lambda>rejected. case rejected of None \<Rightarrow> Return Reread | Some _ \<Rightarrow> Throw e)) Q E tr w"
    if "er \<noteq> ''tesSUCCESS''" for d e
    unfolding wp_await
    by (rule wp_transition[OF known refl])
      (use that at simulated in \<open>auto intro: Q E row_step.Reject simp: step_answer_def\<close>)
  show ?thesis
    unfolding complete_simulation_def er required_def option.simps lift_result_simps await.simps
    using pass reject by (auto simp: Let_def)
qed

lemma wp_preparation_step:
  assumes known: "known X N r w"
    and Q: "\<And>res tr' w'. extends tr tr' \<Longrightarrow> evolves w w' \<Longrightarrow> step_answer X N r res w' \<Longrightarrow> Q res tr' w'"
    and E: "\<And>e tr' w'. extends tr tr' \<Longrightarrow> evolves w w' \<Longrightarrow> E e tr' w'"
  shows "meets X N (preparation_step X N r) Q E tr w"
proof (cases "status r")
  case CREATED
  then show ?thesis using wp_prepare_created[OF known CREATED Q E] by (simp add: preparation_step_def)
next
  case PREPARED
  then show ?thesis using wp_simulate_prepared[OF known PREPARED Q E] by (simp add: preparation_step_def)
next
  case SIMULATED
  have "meets X N (complete_simulation r) Q E tr w"
    by (rule wp_complete_simulation[OF known SIMULATED]) (auto intro: Q E)
  then show ?thesis by (simp add: preparation_step_def SIMULATED)
qed (auto simp: preparation_step_def step_answer_def intro!: Q E)

lemma wp_prepare_loop:
  assumes "known X N r w" and "intent_id r = i"
    and "\<And>r' tr' w'. extends tr tr' \<Longrightarrow> evolves w w' \<Longrightarrow> known X N r' w' \<Longrightarrow> intent_id r' = i \<Longrightarrow>
      status r' \<in> {AWAITING_SIGNATURE, SIGNED, SUBMITTED, VALIDATED} \<Longrightarrow> Q r' tr' w'"
    and "\<And>e tr' w'. extends tr tr' \<Longrightarrow> evolves w w' \<Longrightarrow> E e tr' w'"
  shows "meets X N (prepare_loop X N i steps r) Q E tr w"
  using assms
proof (induction steps arbitrary: r tr w)
  case 0
  then show ?case by simp
next
  case (Suc steps)
  note Q = Suc.prems(3) and E = Suc.prems(4)
  show ?case
    unfolding prepare_loop.simps wp_await[of _ _ _ _ "preparation_step X N r"]
  proof (rule wp_preparation_step[OF Suc.prems(1)], goal_cases)
    case (1 res tr1 w1)
    note x = 1(1) and w1 = 1(2)
    have again: "meets X N (prepare_loop X N i steps r') Q E tr1 w2"
      if "known X N r' w2" "intent_id r' = i" "evolves w1 w2" for r' w2
      by (rule Suc.IH[OF that(1,2)])
        (rule Q E, (erule extends_trans[OF x] evolves_trans[OF evolves_trans[OF w1 that(3)]]
           | assumption)+)+
    show ?case
    proof (cases res)
      case Done
      then show ?thesis
        using 1 Suc.prems(2) known_evolves[OF Suc.prems(1) w1]
        by (auto simp: step_answer_def intro!: Q)
    next
      case Reread
      have "meets X N (await (load i) (prepare_loop X N i steps)) Q E tr1 w1"
        unfolding wp_await
        by (rule wp_load, erule again, assumption+, rule E[OF x], erule evolves_trans[OF w1])
      then show ?thesis by (simp add: Reread)
    next
      case (Advanced r')
      then show ?thesis
        using 1(3) Suc.prems(2) again[of r' w1] by (auto simp: step_answer_def row_evolves_id)
    qed
  qed (rule E)
qed

lemma wp_prepare:
  assumes Q: "\<And>r' tr' w'. extends tr tr' \<Longrightarrow> evolves w w' \<Longrightarrow> known X N r' w' \<Longrightarrow> intent_id r' = i \<Longrightarrow>
      status r' \<in> {AWAITING_SIGNATURE, SIGNED, SUBMITTED, VALIDATED} \<Longrightarrow> Q r' tr' w'"
    and E: "\<And>e tr' w'. extends tr tr' \<Longrightarrow> evolves w w' \<Longrightarrow> E e tr' w'"
  shows "meets X N (prepare X N i) Q E tr w"
  unfolding prepare_def wp_await[of _ _ _ _ "load i"]
  by (rule wp_load, rule wp_prepare_loop)
    (auto intro: Q E evolves_trans)

end
