(* ===== verification/Signing.thy ===== *)
theory Signing
  imports Preparation
begin

text \<open>
  Accepting the externally signed blob (\<open>src/signing/signing.service.ts\<close>): local verification,
  then the state of the account on the ledger, then one conditional update. The first accepted
  artifact wins.
\<close>

section \<open>The service\<close>

text \<open>The answer for any state other than AWAITING_SIGNATURE; \<open>None\<close> asks to process.\<close>

definition settled_answer :: "intent_row \<Rightarrow> string \<Rightarrow> exn + intent_row option" where
  "settled_answer r tx_blob =
     (case status r of
        AWAITING_SIGNATURE \<Rightarrow> Inr None
      | EXPIRED \<Rightarrow> Inl (api_error INTENT_EXPIRED ''The intent expired.'')
      | s \<Rightarrow>
          if s \<in> {SIGNED, SUBMITTED, VALIDATED}
          then if signed_tx_blob r = Some (upper tx_blob) then Inr (Some r)
               else Inl (api_error SIGNATURE_ALREADY_ATTACHED
                      ''A different signed transaction is already attached to this intent.'')
          else Inl (invalid_state s))"

definition signed_transition :: "verified_blob \<Rightarrow> nat \<Rightarrow> transition_request" where
  "signed_transition v t =
     \<lparr>request_from = [AWAITING_SIGNATURE], request_to = SIGNED,
      request_reason = SIGNATURE_ACCEPTED,
      request_details = Some [(''transactionHash'', JStr (vb_transaction_hash v))],
      request_patch = [SignedTxBlob (vb_tx_blob v), TransactionHash (vb_transaction_hash v),
                       SigningPubKey (vb_signing_pub_key v), SignedAt t]\<rparr>"

text \<open>After the checks: the conditional update, and the answer of whoever was first.\<close>

definition attach_verified :: "string \<Rightarrow> string \<Rightarrow> verified_blob \<Rightarrow> intent_row svc" where
  "attach_verified i tx_blob v =
     await current_time (\<lambda>t.
     await (transition i (signed_transition v t)) (\<lambda>signed.
       case signed of
         Some r \<Rightarrow> Return r
       | None \<Rightarrow>
           await (load i) (\<lambda>current.
           await (lift_result (settled_answer current tx_blob)) (\<lambda>answer.
             case answer of
               None \<Rightarrow> Throw (invalid_state (status current))
             | Some r \<Rightarrow> Return r))))"

text \<open>The window and the account, as one validated read shows them.\<close>

definition check_and_attach ::
  "codec \<Rightarrow> intent_row \<Rightarrow> string \<Rightarrow> verified_blob \<Rightarrow> nat \<Rightarrow> nat \<Rightarrow> account_info \<Rightarrow> nat
    \<Rightarrow> intent_row svc" where
  "check_and_attach X r tx_blob v prepared high acct n =
     (if high < n
      then await (transition (intent_id r)
                    \<lparr>request_from = [AWAITING_SIGNATURE], request_to = EXPIRED,
                     request_reason = SIGNATURE_WINDOW_EXPIRED,
                     request_details = Some [(''lastLedgerSequence'', JNum (int high)),
                                             (''validatedLedger'', JNum (int n))],
                     request_patch = []\<rparr>)
             (\<lambda>_. Throw (api_error INTENT_EXPIRED ''The signature arrived after LastLedgerSequence.''))
      else
        await (lift_result (assert_authorized X (vb_signing_pub_key v) (source_account r) acct)) (\<lambda>_.
          if ai_sequence acct \<noteq> prepared
          then let code = sequence_failure (ai_sequence acct) prepared
               in await (transition (intent_id r)
                    \<lparr>request_from = [AWAITING_SIGNATURE], request_to = FAILED,
                     request_reason = reason_of_failure code,
                     request_details = Some [(''preparedSequence'', JNum (int prepared)),
                                             (''accountSequence'', JNum (int (ai_sequence acct)))],
                     request_patch = [FailureCode code]\<rparr>)
                  (\<lambda>_. Throw (api_error INVALID_INTENT_STATE
                     (''The source account Sequence changed; the intent failed with ''
                      @ failure_name code @ ''.'')))
          else attach_verified (intent_id r) tx_blob v))"

definition attach_signature :: "codec \<Rightarrow> string \<Rightarrow> string \<Rightarrow> intent_row svc" where
  "attach_signature X i tx_blob =
     await (load i) (\<lambda>r.
     await (lift_result (settled_answer r tx_blob)) (\<lambda>settled_row.
       case settled_row of
         Some answer \<Rightarrow> Return answer
       | None \<Rightarrow>
           await assert_recovered (\<lambda>_.
           await (required (prepared_tx_blob r) ''prepared_tx_blob'') (\<lambda>prepared_blob.
           await (required (sequence r) ''sequence'') (\<lambda>prepared.
           await (required (last_ledger_sequence r) ''last_ledger_sequence'') (\<lambda>high.
           await (lift_result (verify X tx_blob prepared_blob)) (\<lambda>v.
           await (validated_account_info (source_account r)) (\<lambda>acct_opt.
             case acct_opt of
               None \<Rightarrow> Throw account_not_found
             | Some acct \<Rightarrow>
                 await (case ai_ledger_index acct of
                          Some n \<Rightarrow> Return n
                        | None \<Rightarrow> validated_ledger_index) (\<lambda>n.
                 check_and_attach X r tx_blob v prepared high acct n)))))))))"

section \<open>What its answers establish\<close>

text \<open>The row of the answer carries the blob of the request.\<close>

definition attached :: "codec \<Rightarrow> nat \<Rightarrow> string \<Rightarrow> string \<Rightarrow> intent_row \<Rightarrow> world \<Rightarrow> bool" where
  "attached X N i tx_blob r w \<longleftrightarrow>
     known X N r w \<and> intent_id r = i \<and> status r \<in> {SIGNED, SUBMITTED, VALIDATED} \<and>
     signed_tx_blob r = Some (upper tx_blob)"

lemma settled_answer_Some:
  "settled_answer r b = Inr (Some r') \<longleftrightarrow>
     r' = r \<and> status r \<in> {SIGNED, SUBMITTED, VALIDATED} \<and> signed_tx_blob r = Some (upper b)"
  by (auto simp: settled_answer_def split: intent_status.splits if_splits)

lemma settled_answer_None: "settled_answer r b = Inr None \<longleftrightarrow> status r = AWAITING_SIGNATURE"
  by (auto simp: settled_answer_def split: intent_status.splits if_splits)

lemma wp_attach_verified:
  assumes known: "known X N r w" and i: "i = intent_id r"
    and v: "prepared_tx_blob r = Some pb" "verify X tx_blob pb = Inr v"
    and a: "answered tr (validated_account_request (source_account r)) read_validated_account (Some a)"
      "assert_authorized X (vb_signing_pub_key v) (source_account r) a = Inr ()"
      "sequence r = Some (ai_sequence a)"
    and window: "last_ledger_sequence r = Some high" "seen_ledger tr n" "n \<le> high"
    and Q: "\<And>r' w'. evolves w w' \<Longrightarrow> attached X N i tx_blob r' w' \<Longrightarrow> Q r' tr w'"
    and E: "\<And>e w'. evolves w w' \<Longrightarrow> E e tr w'"
  shows "meets X N (attach_verified i tx_blob v) Q E tr w"
proof -
  note awaitI = wp_await[THEN iffD2]
  show ?thesis
    unfolding attach_verified_def
  proof (rule awaitI, rule wp_current_time, goal_cases)
    case (1 t w1)
    note w1 = \<open>evolves w w1\<close>
    show ?case
    proof (rule awaitI, rule wp_transition[OF known_evolves[OF known w1] i], goal_cases)
      case (1 r1 now)
      note at = prepared_columns_kept[OF 1(1)]
      show ?case
        using 1(3) at(2)[OF v(1)] at(3)[OF a(3)] at(4)[OF window(1)] at(6) v(2) a window(2,3)
        by (auto simp: signed_transition_def intro: row_step.Sign)
    next
      case (2 r1 w2)
      have w2: "evolves w w2" by (rule evolves_trans[OF w1 2(1)])
      show ?case
        unfolding option.simps
      proof (rule awaitI, rule wp_load, goal_cases)
        case (1 r3 w3)
        note w3 = evolves_trans[OF w2 1(1)]
        show ?case
          using 1(2,3) settled_answer_Some[of r3 tx_blob] E[OF w3] Q[OF w3]
          by (cases "settled_answer r3 tx_blob")
            (auto simp: attached_def wp_await split: option.split)
      qed (use w2 in \<open>auto intro: E evolves_trans\<close>)
    next
      case (3 r' w2)
      from 3(5) have "signed_tx_blob r' = Some (vb_tx_blob v)"
        by (auto simp: signed_transition_def moved_def)
      with 3 have "attached X N i tx_blob r' w2"
        using verify_tx_blob[OF v(2)]
        by (auto simp: attached_def signed_transition_def i row_evolves_id)
      then show ?case using Q[OF evolves_trans[OF w1 3(1)]] by simp
    next
      case (4 e w2)
      show ?case by (rule E[OF evolves_trans[OF w1 4]])
    qed
  qed
qed

lemma wp_check_and_attach:
  assumes known: "known X N r w" and i: "i = intent_id r"
    and v: "prepared_tx_blob r = Some pb" "verify X tx_blob pb = Inr v"
    and a: "answered tr (validated_account_request (source_account r)) read_validated_account (Some a)"
    and c: "sequence r = Some prepared" "last_ledger_sequence r = Some high" "seen_ledger tr n"
    and Q: "\<And>r' w'. evolves w w' \<Longrightarrow> attached X N i tx_blob r' w' \<Longrightarrow> Q r' tr w'"
    and E: "\<And>e w'. evolves w w' \<Longrightarrow> E e tr w'"
  shows "meets X N (check_and_attach X r tx_blob v prepared high a n) Q E tr w"
proof -
  have expire: "meets X N (await (transition (intent_id r)
       \<lparr>request_from = [AWAITING_SIGNATURE], request_to = EXPIRED,
        request_reason = SIGNATURE_WINDOW_EXPIRED, request_details = d, request_patch = []\<rparr>)
       (\<lambda>_. Throw e)) Q E tr w" if "high < n" for d e
    unfolding wp_await
    by (rule wp_transition[OF known refl])
      (use that c prepared_columns_kept(4)[OF _ c(2)] in
        \<open>auto simp: status_groups intro: row_step.Expire_unsigned E\<close>)
  have lost: "meets X N (await (transition (intent_id r)
       \<lparr>request_from = [AWAITING_SIGNATURE], request_to = FAILED,
        request_reason = reason_of_failure (sequence_failure (ai_sequence a) prepared),
        request_details = d,
        request_patch = [FailureCode (sequence_failure (ai_sequence a) prepared)]\<rparr>)
       (\<lambda>_. Throw e)) Q E tr w" if "ai_sequence a \<noteq> prepared" for d e
    unfolding wp_await
    by (rule wp_transition[OF known refl])
      (use that a prepared_columns_kept(3)[OF _ c(1)] prepared_columns_kept(6) in
        \<open>auto intro: row_step.Sequence_lost E\<close>)
  have attach: "meets X N (attach_verified i tx_blob v) Q E tr w"
    if "assert_authorized X (vb_signing_pub_key v) (source_account r) a = Inr ()"
      "ai_sequence a = prepared" "n \<le> high"
    by (rule wp_attach_verified[OF known i v a that(1) _ c(2,3) that(3)])
      (use c(1) that(2) in \<open>auto intro: Q E\<close>)
  show ?thesis
    using expire lost attach i E[OF evolves_refl]
    by (auto simp: check_and_attach_def wp_await[of _ _ _ _ "lift_result x" for x] wp_lift_result
        Let_def split: sum.split)
qed

text \<open>
  \<open>attachSignature\<close>: whatever others do meanwhile, a row it returns carries exactly the blob that
  was sent, in upper case.
\<close>

lemma wp_attach_signature:
  assumes Q: "\<And>r' tr' w'. extends tr tr' \<Longrightarrow> evolves w w' \<Longrightarrow> attached X N i tx_blob r' w' \<Longrightarrow> Q r' tr' w'"
    and E: "\<And>e tr' w'. extends tr tr' \<Longrightarrow> evolves w w' \<Longrightarrow> E e tr' w'"
  shows "meets X N (attach_signature X i tx_blob) Q E tr w"
  unfolding attach_signature_def
proof (rule wp_await[THEN iffD2], rule wp_load, goal_cases)
  case (1 r w1)
  note w1 = 1(1) and known = 1(2) and i = 1(3)
  show ?case
  proof (cases "settled_answer r tx_blob")
    case (Inl e)
    then show ?thesis using E[OF extends_refl w1] by simp
  next
    case (Inr answer)
    show ?thesis
    proof (cases answer)
      case (Some r')
      with Inr have "attached X N i tx_blob r' w1"
        using known i by (auto simp: attached_def settled_answer_Some)
      with Inr Some show ?thesis using Q[OF extends_refl w1] by simp
    next
      case None
      with Inr have awaiting: "status r = AWAITING_SIGNATURE" by (simp add: settled_answer_None)
      obtain pb prepared high where c: "prepared_tx_blob r = Some pb" "sequence r = Some prepared"
          "last_ledger_sequence r = Some high"
        using prepared_columns[OF known_ok[OF known]] awaiting by auto
      show ?thesis
        unfolding Inr None c required_def option.simps lift_result_simps await.simps
      proof (rule wp_await[THEN iffD2], rule wp_assert_recovered, goal_cases)
        case (1 w2)
        have w2: "evolves w w2" by (rule evolves_trans[OF w1 1(1)])
        note known2 = known_evolves[OF known 1(1)]
        show ?case
        proof (cases "verify X tx_blob pb")
          case (Inl e)
          then show ?thesis using E[OF extends_refl w2] by simp
        next
          case (Inr v)
          show ?thesis
            unfolding Inr lift_result_simps await.simps
          proof (rule wp_await[THEN iffD2], rule wp_validated_account_info, goal_cases)
            case account: (1 acct tr1)
            have check: "meets X N (check_and_attach X r tx_blob v prepared high a n) Q E tr2 w2"
              if "acct = Some a" "extends tr1 tr2" "seen_ledger tr2 n" for a n tr2
              by (rule wp_check_and_attach[OF known2 i[symmetric] c(1) Inr _ c(2,3) that(3)])
                (use that account in \<open>blast intro: answered_extends Q E extends_trans
                   evolves_trans[OF w2]\<close>)+
            show ?case
            proof (cases acct)
              case None
              then show ?thesis using E[OF account(1) w2] by simp
            next
              case (Some a)
              show ?thesis
              proof (cases "ai_ledger_index a")
                case (Some n)
                then have "seen_ledger tr1 n"
                  using account(2) \<open>acct = Some a\<close> by (auto simp: seen_ledger_def)
                with check[OF \<open>acct = Some a\<close> extends_refl] Some \<open>acct = Some a\<close> show ?thesis
                  by (simp add: await.simps)
              next
                case None
                have "meets X N (await validated_ledger_index
                    (check_and_attach X r tx_blob v prepared high a)) Q E tr1 w2"
                  unfolding wp_await
                  by (rule wp_validated_ledger_index)
                    (use account check[OF Some] in \<open>auto simp: seen_ledger_def
                       intro: E[OF _ w2] extends_trans[OF account(1)]\<close>)
                with None Some show ?thesis by simp
              qed
            qed
          qed (use w2 in \<open>blast intro: E\<close>)
        qed
      qed (use w1 in \<open>blast intro: E extends_refl evolves_trans\<close>)
    qed
  qed
qed (blast intro: E extends_refl)

end
