(* ===== verification/Submission.thy ===== *)
theory Submission
  imports Preparation
begin

text \<open>
  Submitting the stored blob (\<open>src/submission/submission.service.ts\<close>), byte for byte. Every
  answer except \<open>tem*\<close> is provisional; past LastLedgerSequence the outcome is settled instead.
\<close>

section \<open>The service\<close>

definition recorded :: "submit_outcome \<Rightarrow> object \<Rightarrow> nat \<Rightarrow> column list" where
  "recorded res raw t =
     [SubmitEngineResult (sub_engine_result res), SubmitResponse (JObj raw), IncrementAttemptCount,
      LastSubmitAttemptAt t]"

definition submission_transition ::
  "intent_status \<Rightarrow> transition_reason \<Rightarrow> submit_outcome \<Rightarrow> column list \<Rightarrow> transition_request" where
  "submission_transition s reason res cols =
     \<lparr>request_from = [SIGNED], request_to = s, request_reason = reason,
      request_details = Some [(''engineResult'', JStr (sub_engine_result res))],
      request_patch = cols\<rparr>"

text \<open>The answer is recorded: a first submission moves the status, a resubmission does not.\<close>

definition record_submission ::
  "intent_row \<Rightarrow> submit_outcome \<Rightarrow> object \<Rightarrow> nat \<Rightarrow> intent_row option svc" where
  "record_submission r res raw t =
     (if status r = SIGNED
      then if starts_with ''tem'' (sub_engine_result res)
           then transition (intent_id r)
                  (submission_transition REJECTED MALFORMED_TRANSACTION res (recorded res raw t))
           else transition (intent_id r)
                  (submission_transition SUBMITTED TRANSACTION_SUBMITTED res
                     (recorded res raw t @ [SubmittedAt t]))
      else update_in_status (intent_id r) [SUBMITTED] (recorded res raw t))"

text \<open>The attempt itself; when the request fails only the time of the attempt is kept.\<close>

definition attempt :: "intent_row \<Rightarrow> string \<Rightarrow> intent_row option svc" where
  "attempt r blob =
     await current_time (\<lambda>t.
     await (try_catch (ledger_submit blob)
              (\<lambda>e. await (update_in_status (intent_id r) signed_active_statuses [LastSubmitAttemptAt t])
                     (\<lambda>_. Throw e))) (\<lambda>(res, raw).
     record_submission r res raw t))"

definition submit_signed :: "intent_row \<Rightarrow> intent_row option svc" where
  "submit_signed r =
     await assert_recovered (\<lambda>_.
     await (required (signed_tx_blob r) ''signed_tx_blob'') (\<lambda>blob.
     await (required (last_ledger_sequence r) ''last_ledger_sequence'') (\<lambda>high.
     await validated_ledger_index (\<lambda>n.
       if high < n
       then await (resolve_signed r n 1) (\<lambda>(outcome, left).
              if outcome = O_PENDING \<or> outcome = O_UNPROVABLE
              then Throw (api_error XRPL_UNAVAILABLE
                     ''LastLedgerSequence has passed and the outcome cannot be proven yet; retry later.'')
              else Return None)
       else await (if submission_validated_ledger r = None
                   then update_in_status (intent_id r) [SIGNED] [SubmissionValidatedLedger n]
                   else Return None) (\<lambda>_.
            attempt r blob)))))"

definition max_submission_steps :: nat where
  "max_submission_steps = 3"

text \<open>The loop of \<open>submit\<close>: out of steps, the last row read is the answer, whatever its status.\<close>

fun submit_loop :: "string \<Rightarrow> nat \<Rightarrow> intent_row \<Rightarrow> intent_row svc" where
  "submit_loop i 0 r = Return r"
| "submit_loop i (Suc steps) r =
     (if status r = VALIDATED then Return r
      else if status r \<in> {SIGNED, SUBMITTED}
      then await (submit_signed r) (\<lambda>next_row. case next_row of
               Some r' \<Rightarrow> Return r'
             | None \<Rightarrow> await (load i) (submit_loop i steps))
      else Throw (invalid_state (status r)))"

definition submit :: "string \<Rightarrow> intent_row svc" where
  "submit i = await (load i) (submit_loop i max_submission_steps)"

section \<open>What its answers establish\<close>

text \<open>The one place where a submission leaves the service: a stored blob, after recovery.\<close>

lemma wp_ledger_submit:
  assumes known: "known X N r w" and blob: "signed_tx_blob r = Some b" and rec: "recovered w"
    and Q: "\<And>res raw tr'. extends tr tr' \<Longrightarrow> answered tr' (submit_request b) read_submit (res, raw) \<Longrightarrow>
      Q (res, raw) tr' w"
    and E: "\<And>e tr'. extends tr tr' \<Longrightarrow> E e tr' w"
  shows "meets X N (ledger_submit b) Q E tr w"
  unfolding ledger_submit_def
proof (rule wp_ask)
  fix w1 assume w1: "evolves w w1"
  obtain r1 where "r1 \<in> set (intents w1)" "row_evolves r r1"
    using known_evolves[OF known w1] by (auto simp: known_def)
  moreover from this(2) have "signed_tx_blob r1 = Some b"
    using blob by (auto simp: row_evolves_def kept_columns_def dest: keptD)
  moreover have "recovered w1" using w1 rec by (simp add: evolves_def)
  ultimately show "request_ok (Request (submit_request b)) w1"
    unfolding request_ok_def env_call.case by blast
next
  fix x tr' assume "extends tr tr'" "answered tr' (submit_request b) read_submit x"
  then show "Q x tr' w" by (cases x) (auto intro: Q)
qed (rule E)

text \<open>
  No row where one was expected: the intent is in a later status by now. A row: it is SUBMITTED, or
  REJECTED when the node refused the first submission as malformed.
\<close>

definition left_behind :: "codec \<Rightarrow> nat \<Rightarrow> intent_row \<Rightarrow> world \<Rightarrow> bool" where
  "left_behind X N r w \<longleftrightarrow>
     (\<exists>r'. known X N r' w \<and> row_evolves r r' \<and> status_rank (status r) < status_rank (status r'))"

lemma row_evolves_rank: "row_evolves r r' \<Longrightarrow> status_rank (status r) \<le> status_rank (status r')"
proof -
  assume "row_evolves r r'"
  then have "can_transition\<^sup>*\<^sup>* (status r) (status r')" by (simp add: row_evolves_def)
  then show ?thesis by (induction rule: rtranclp_induct) (auto dest: lifecycle.step_climbs)
qed

lemma signed_left_behind:
  assumes "known X N r' w" and "row_evolves r r'" and "status r \<in> {SIGNED, SUBMITTED}" and "status r' \<noteq> status r"
  shows "left_behind X N r w"
proof -
  have "can_transition\<^sup>*\<^sup>* (status r) (status r')" using assms(2) by (simp add: row_evolves_def)
  then have "status_rank (status r) < status_rank (status r')"
    using assms(3,4) path_from_signed[of "status r" "status r'"] row_evolves_rank[OF assms(2)] by auto
  then show ?thesis using assms(1,2) unfolding left_behind_def by blast
qed

lemma settled_left_behind:
  assumes "status r \<in> {SIGNED, SUBMITTED}" and "settled X N r outcome w"
    and "outcome \<noteq> O_PENDING" and "outcome \<noteq> O_UNPROVABLE"
  shows "left_behind X N r w"
proof -
  have "settles outcome" using assms(3,4) by (cases outcome) (simp_all add: settles_def)
  then obtain r' where "known X N r' w" "row_evolves r r'" "is_terminal (status r')"
    using assms(2) by (auto simp: settled_def)
  moreover from this(3) have "status r' \<noteq> status r" using assms(1) by (auto simp: status_groups)
  ultimately show ?thesis using signed_left_behind assms(1) by blast
qed

lemma wp_record_submission:
  assumes known: "known X N r w" and signed: "status r \<in> {SIGNED, SUBMITTED}"
    and blob: "signed_tx_blob r = Some b"
    and a: "answered tr (submit_request b) read_submit (res, raw)"
    and Q: "\<And>w'. evolves w w' \<Longrightarrow> left_behind X N r w' \<Longrightarrow> Q None tr w'"
      "\<And>r' w'. evolves w w' \<Longrightarrow> known X N r' w' \<Longrightarrow> row_evolves r r' \<Longrightarrow>
        status r' \<in> {SUBMITTED, REJECTED} \<Longrightarrow> Q (Some r') tr w'"
    and E: "\<And>e w'. evolves w w' \<Longrightarrow> E e tr w'"
  shows "meets X N (record_submission r res raw t) Q E tr w"
proof -
  have at: "signed_tx_blob r1 = Some b" if "row_evolves r r1" for r1
    using that blob by (auto simp: row_evolves_def kept_columns_def dest: keptD)
  have left: "Q None tr w'"
    if "evolves w w'" "known X N r' w'" "row_evolves r r'" "status r' \<noteq> t" "status r = t" for r' w' t
    using that signed signed_left_behind[OF that(2,3) signed] by (auto intro: Q(1))
  have "meets X N (transition (intent_id r)
      (submission_transition REJECTED MALFORMED_TRANSACTION res (recorded res raw t))) Q E tr w"
    if "starts_with ''tem'' (sub_engine_result res)" "status r = SIGNED"
    by (rule wp_transition[OF known refl])
      (use that a at signed in \<open>auto simp: submission_transition_def recorded_def
         intro: row_step.Malformed Q(2) E left\<close>)
  moreover have "meets X N (transition (intent_id r)
      (submission_transition SUBMITTED TRANSACTION_SUBMITTED res
         (recorded res raw t @ [SubmittedAt t]))) Q E tr w"
    if "\<not> starts_with ''tem'' (sub_engine_result res)" "status r = SIGNED"
    by (rule wp_transition[OF known refl])
      (use that a at signed in \<open>auto simp: submission_transition_def recorded_def
         intro: row_step.Submit Q(2) E left\<close>)
  moreover have "meets X N (update_in_status (intent_id r) [SUBMITTED] (recorded res raw t)) Q E tr w"
    if "status r = SUBMITTED"
    by (rule wp_update_in_status[OF known refl])
      (use that a at signed in \<open>auto simp: recorded_def intro: row_touch.Resubmit Q(2) E left\<close>)
  ultimately show ?thesis using signed by (auto simp: record_submission_def)
qed

lemma wp_attempt:
  assumes known: "known X N r w" and signed: "status r \<in> {SIGNED, SUBMITTED}"
    and blob: "signed_tx_blob r = Some b" and rec: "recovered w"
    and Q: "\<And>tr' w'. extends tr tr' \<Longrightarrow> evolves w w' \<Longrightarrow> left_behind X N r w' \<Longrightarrow> Q None tr' w'"
      "\<And>r' tr' w'. extends tr tr' \<Longrightarrow> evolves w w' \<Longrightarrow> known X N r' w' \<Longrightarrow> row_evolves r r' \<Longrightarrow>
        status r' \<in> {SUBMITTED, REJECTED} \<Longrightarrow> Q (Some r') tr' w'"
    and E: "\<And>e tr' w'. extends tr tr' \<Longrightarrow> evolves w w' \<Longrightarrow> E e tr' w'"
  shows "meets X N (attempt r b) Q E tr w"
  unfolding attempt_def
proof (rule wp_await[THEN iffD2], rule wp_current_time, goal_cases)
  case (1 t w1)
  note w1 = \<open>evolves w w1\<close>
  have rec1: "recovered w1" using w1 rec by (simp add: evolves_def)
  note known1 = known_evolves[OF known w1]
  show ?case
  proof (rule wp_await[THEN iffD2], unfold wp_try_catch, rule wp_ledger_submit[OF known1 blob rec1],
      goal_cases)
    case (1 res raw tr1)
    show ?case
      unfolding prod.case
      by (rule wp_record_submission[OF known1 signed blob 1(2)])
        (auto intro: Q E 1(1) evolves_trans[OF w1])
  next
    case (2 e tr1)
    show ?case
      unfolding wp_await
      by (rule wp_update_in_status[OF known1 refl])
        (auto simp del: apply_patch_simps intro: E[OF 2] evolves_trans[OF w1] row_touch.Attempt)
  qed
qed

lemma wp_submit_signed:
  assumes known: "known X N r w" and signed: "status r \<in> {SIGNED, SUBMITTED}"
    and Q: "\<And>tr' w'. extends tr tr' \<Longrightarrow> evolves w w' \<Longrightarrow> left_behind X N r w' \<Longrightarrow> Q None tr' w'"
      "\<And>r' tr' w'. extends tr tr' \<Longrightarrow> evolves w w' \<Longrightarrow> known X N r' w' \<Longrightarrow> row_evolves r r' \<Longrightarrow>
        status r' \<in> {SUBMITTED, REJECTED} \<Longrightarrow> Q (Some r') tr' w'"
    and E: "\<And>e tr' w'. extends tr tr' \<Longrightarrow> evolves w w' \<Longrightarrow> E e tr' w'"
  shows "meets X N (submit_signed r) Q E tr w"
proof -
  have active: "status r \<in> set signed_active_statuses" using signed by (auto simp: status_groups)
  obtain high b where c: "last_ledger_sequence r = Some high" "signed_tx_blob r = Some b"
    using signed_columns[OF known_ok[OF known] active] by blast
  show ?thesis
    unfolding submit_signed_def c required_def option.simps lift_result_simps await.simps
  proof (rule wp_await[THEN iffD2], rule wp_assert_recovered, goal_cases)
    case (1 w1)
    note w1 = 1(1) and rec = 1(2)
    note known1 = known_evolves[OF known w1]
    show ?case
    proof (rule wp_await[THEN iffD2], rule wp_validated_ledger_index, goal_cases)
      case ledger: (1 n tr1)
      note x = ledger(1)
      have settle: "meets X N (await (resolve_signed r n 1) (\<lambda>(outcome, left).
          if outcome = O_PENDING \<or> outcome = O_UNPROVABLE then Throw e else Return None)) Q E tr1 w1" for e
        unfolding wp_await
        by (rule wp_resolve_signed)
          (use known1 active ledger in \<open>auto simp: resolving_def seen_ledger_def
             intro: Q E extends_trans[OF x] evolves_trans[OF w1] settled_left_behind[OF signed]\<close>)
      have attempt: "meets X N (attempt r b) Q E tr1 w2" if w2: "evolves w1 w2" for w2
        by (rule wp_attempt[OF known_evolves[OF known1 w2] signed c(2)])
          (use rec w2 in \<open>auto simp: evolves_def[of w1 w2]
             intro: Q E extends_trans[OF x] evolves_trans[OF evolves_trans[OF w1 w2]]\<close>)
      have baseline: "meets X N (await (update_in_status (intent_id r) [SIGNED] [SubmissionValidatedLedger n])
          (\<lambda>_. attempt r b)) Q E tr1 w1" if "\<not> high < n"
        unfolding wp_await
        by (rule wp_update_in_status[OF known1 refl])
          (use that ledger(2) prepared_columns_kept(4)[OF _ c(1)] in
            \<open>auto intro: attempt E[OF x] evolves_trans[OF w1] row_touch.Baseline\<close>)
      show ?case
        using settle baseline attempt[OF evolves_refl] by auto
    qed (use w1 in \<open>blast intro: E\<close>)
  qed (blast intro: E extends_refl)
qed

text \<open>A later read of the same intent finds a descendant of the earlier one.\<close>

lemma wp_load_again:
  assumes known: "known X N p w" and i: "intent_id p = i"
    and Q: "\<And>r w'. evolves w w' \<Longrightarrow> known X N r w' \<Longrightarrow> row_evolves p r \<Longrightarrow> Q r tr w'"
    and E: "\<And>e w'. evolves w w' \<Longrightarrow> E e tr w'"
  shows "meets X N (load i) Q E tr w"
  unfolding load_def find_by_id_def wp_await
proof (rule wp_db_read, goal_cases)
  case (1 w1)
  note known1 = known_evolves[OF known 1(1)]
  obtain r where r: "find_row i w1 = Some r" using known_find[OF known1] i by auto
  from known_now[OF known1 1(2)] r i show ?case
    by (auto intro: Q[OF 1(1)] known_row[OF 1(2)])
qed (rule E)

text \<open>
  \<open>submit\<close>: a row it returns is the intent, SUBMITTED, REJECTED or VALIDATED. A round without an
  answer leaves the intent in a later status, so the rounds suffice when there are as many as
  statuses to go through.
\<close>

definition answered_status :: "intent_status \<Rightarrow> bool" where
  "answered_status s \<longleftrightarrow> s \<in> {SUBMITTED, REJECTED, VALIDATED}"

lemma signed_blob_kept: "row_evolves r r' \<Longrightarrow> signed_tx_blob r \<noteq> None \<Longrightarrow> signed_tx_blob r' \<noteq> None"
  by (auto simp: row_evolves_def kept_columns_def kept_def)

lemma wp_load_left_behind:
  assumes left: "left_behind X N r w" and i: "intent_id r = i"
    and Q: "\<And>r' w'. evolves w w' \<Longrightarrow> known X N r' w' \<Longrightarrow> row_evolves r r' \<Longrightarrow>
      status_rank (status r) < status_rank (status r') \<Longrightarrow> Q r' tr w'"
    and E: "\<And>e w'. evolves w w' \<Longrightarrow> E e tr w'"
  shows "meets X N (load i) Q E tr w"
proof -
  obtain r1 where r1: "known X N r1 w" "row_evolves r r1" "status_rank (status r) < status_rank (status r1)"
    using left by (auto simp: left_behind_def)
  show ?thesis
  proof (rule wp_load_again[OF r1(1)])
    fix r' w' assume "evolves w w'" "known X N r' w'" "row_evolves r1 r'"
    then show "Q r' tr w'"
      using r1 row_evolves_rank[of r1 r'] by (intro Q row_evolves_trans[OF r1(2)]) auto
  qed (use r1(2) i in \<open>auto simp: row_evolves_id intro: E\<close>)
qed

lemma wp_submit_loop:
  assumes "known X N r w" and "intent_id r = i" and "steps \<noteq> 0" and "7 \<le> status_rank (status r) + steps \<or> steps = 3"
    and "\<And>r' tr' w'. extends tr tr' \<Longrightarrow> evolves w w' \<Longrightarrow> known X N r' w' \<Longrightarrow> intent_id r' = i \<Longrightarrow>
      signed_tx_blob r' \<noteq> None \<Longrightarrow> answered_status (status r') \<Longrightarrow> Q r' tr' w'"
    and "\<And>e tr' w'. extends tr tr' \<Longrightarrow> evolves w w' \<Longrightarrow> E e tr' w'"
  shows "meets X N (submit_loop i steps r) Q E tr w"
  using assms
proof (induction steps arbitrary: r tr w)
  case (Suc steps)
  note known = Suc.prems(1) and i = Suc.prems(2) and Q = Suc.prems(5) and E = Suc.prems(6)
  have blob: "signed_tx_blob r \<noteq> None" if "status r \<in> {SIGNED, SUBMITTED, VALIDATED}"
    using row_ok_signed[OF known_ok[OF known] that] by (auto simp: signed_ok_def)
  have "meets X N (await (submit_signed r) (\<lambda>next_row. case next_row of
        Some r' \<Rightarrow> Return r' | None \<Rightarrow> await (load i) (submit_loop i steps))) Q E tr w"
    if s: "status r \<in> {SIGNED, SUBMITTED}"
  proof (rule wp_await[THEN iffD2], rule wp_submit_signed[OF known s], goal_cases)
    case (1 tr1 w1)
    have enough: "7 \<le> status_rank (status r) + Suc steps" using s Suc.prems(4) by auto
    show ?case
      unfolding option.simps
    proof (rule wp_await[THEN iffD2], rule wp_load_left_behind[OF 1(3) i], goal_cases)
      case (1 r2 w2)
      have "7 \<le> status_rank (status r2) + steps" using enough 1(4) by simp
      then show ?case
        by (intro Suc.IH[OF 1(2)])
          (use 1 i status_rank_bound[of "status r2"] \<open>extends tr tr1\<close> \<open>evolves w w1\<close> in
            \<open>auto simp: row_evolves_id intro!: Q E intro: extends_trans evolves_trans\<close>)
    qed (use 1 in \<open>blast intro: E evolves_trans\<close>)
  next
    case (2 r' tr1 w1)
    then show ?case
      using i blob s signed_blob_kept[OF 2(4)] by (auto simp: row_evolves_id answered_status_def intro!: Q)
  qed (rule E)
  then show ?case
    using blob known i Q[OF extends_refl evolves_refl known i] E[OF extends_refl evolves_refl]
    by (auto simp: answered_status_def)
qed simp

lemma wp_submit:
  assumes Q: "\<And>r' tr' w'. extends tr tr' \<Longrightarrow> evolves w w' \<Longrightarrow> known X N r' w' \<Longrightarrow> intent_id r' = i \<Longrightarrow>
      signed_tx_blob r' \<noteq> None \<Longrightarrow> answered_status (status r') \<Longrightarrow> Q r' tr' w'"
    and E: "\<And>e tr' w'. extends tr tr' \<Longrightarrow> evolves w w' \<Longrightarrow> E e tr' w'"
  shows "meets X N (submit i) Q E tr w"
  unfolding submit_def wp_await[of _ _ _ _ "load i"]
  by (rule wp_load, rule wp_submit_loop)
    (auto simp: max_submission_steps_def intro: Q E evolves_trans)

end
