(* ===== verification/Dates.thy ===== *)
theory Dates
  imports Requests
begin

text \<open>
  \<open>Date\<close> as the service uses it: a moment is a number of milliseconds from 1970, negative before,
  and its text is the one of \<open>toISOString\<close>. Reading a text back accepts exactly that form, because
  the only reader (\<open>src/intents/cursor.ts\<close>) compares the text of what it read with the text it was
  given. Years below 0 and past 9999 have the signed six-digit form.
\<close>

section \<open>The calendar\<close>

definition leap_year :: "nat \<Rightarrow> bool" where
  "leap_year y \<longleftrightarrow> y mod 4 = 0 \<and> (y mod 100 \<noteq> 0 \<or> y mod 400 = 0)"

definition year_length :: "nat \<Rightarrow> nat" where
  "year_length y = (if leap_year y then 366 else 365)"

definition month_lengths :: "nat \<Rightarrow> nat list" where
  "month_lengths y = [31, if leap_year y then 29 else 28, 31, 30, 31, 30, 31, 31, 30, 31, 30, 31]"

lemma year_length_pos [simp]: "0 < year_length y"
  by (simp add: year_length_def)

text \<open>Position of day \<open>d\<close>, counted from the first of \<open>y\<close>: the year it falls in and the day of that year.\<close>

function year_and_day :: "nat \<Rightarrow> nat \<Rightarrow> nat \<times> nat" where
  "year_and_day y d =
     (if d < year_length y then (y, d) else year_and_day (y + 1) (d - year_length y))"
  by pat_completeness auto

termination
proof (relation "measure snd")
  fix y d assume "\<not> d < year_length y"
  with year_length_pos[of y] show "((y + 1, d - year_length y), (y, d)) \<in> measure snd"
    by (simp del: year_length_pos)
qed simp

declare year_and_day.simps [simp del]

text \<open>The segment of a list of lengths that a position falls in, and the place within it.\<close>

fun locate :: "nat list \<Rightarrow> nat \<Rightarrow> nat \<times> nat" where
  "locate [] d = (0, d)"
| "locate (l # ls) d = (if d < l then (0, d) else case locate ls (d - l) of (i, r) \<Rightarrow> (i + 1, r))"

definition days_before_year :: "nat \<Rightarrow> nat \<Rightarrow> nat" where
  "days_before_year base y = sum_list (map year_length [base..<y])"

lemma year_and_day_bound: "year_and_day y d = (y', r) \<Longrightarrow> r < year_length y' \<and> y \<le> y'"
proof (induction y d rule: year_and_day.induct)
  case (1 y d)
  show ?case
  proof (cases "d < year_length y")
    case True
    then show ?thesis using 1(2) by (subst (asm) year_and_day.simps) auto
  next
    case False
    then have "year_and_day (y + 1) (d - year_length y) = (y', r)"
      using 1(2) by (subst (asm) year_and_day.simps) simp
    from 1(1)[OF False this] show ?thesis by simp
  qed
qed

lemma year_and_day_inverse: "year_and_day y d = (y', r) \<Longrightarrow> days_before_year y y' + r = d"
proof (induction y d rule: year_and_day.induct)
  case (1 y d)
  show ?case
  proof (cases "d < year_length y")
    case True
    then show ?thesis using 1(2) by (subst (asm) year_and_day.simps) (auto simp: days_before_year_def)
  next
    case False
    then have r: "year_and_day (y + 1) (d - year_length y) = (y', r)"
      using 1(2) by (subst (asm) year_and_day.simps) simp
    have "y + 1 \<le> y'" using year_and_day_bound[OF r] by simp
    then have "[y..<y'] = y # [y + 1..<y']" by (simp add: upt_rec)
    with 1(1)[OF False r] False show ?thesis by (simp add: days_before_year_def)
  qed
qed

lemma locate_inverse:
  "d < sum_list ls \<Longrightarrow> locate ls d = (i, r) \<Longrightarrow>
     i < length ls \<and> r < ls ! i \<and> sum_list (take i ls) + r = d"
proof (induction ls d arbitrary: i r rule: locate.induct)
  case (2 l ls d)
  show ?case
  proof (cases "d < l")
    case False
    then obtain j where j: "locate ls (d - l) = (j, r)" "i = Suc j"
      using 2(3) by (auto split: prod.splits)
    have "d - l < sum_list ls" using 2(2) False by simp
    from 2(1)[OF False this j(1)] j(2) False show ?thesis by auto
  qed (use 2(3) in auto)
qed simp

lemma sum_month_lengths: "sum_list (month_lengths y) = year_length y"
  by (simp add: month_lengths_def year_length_def)

section \<open>Texts of fixed width\<close>

text \<open>The last \<open>w\<close> decimal digits, zero-padded.\<close>

fun padded :: "nat \<Rightarrow> nat \<Rightarrow> string" where
  "padded 0 n = []"
| "padded (Suc w) n = padded w (n div 10) @ [char_of (48 + n mod 10)]"

lemma length_padded [simp]: "length (padded w n) = w"
  by (induction w arbitrary: n) simp_all

lemma nat_of_digits_padded: "n < 10 ^ w \<Longrightarrow> nat_of_digits (padded w n) = n"
proof (induction w arbitrary: n)
  case 0
  then show ?case by (simp add: nat_of_digits_def)
next
  case (Suc w)
  have "digit_value (char_of (48 + m)) = m" if "m < 10" for m
    using that by (simp add: digit_value_def)
  moreover have "n div 10 < 10 ^ w" using Suc.prems by (simp add: less_mult_imp_div_less mult.commute)
  ultimately show ?case
    using Suc.IH by (simp add: nat_of_digits_def nat_of_digits_acc_append)
qed

section \<open>\<open>toISOString\<close>\<close>

text \<open>The calendar repeats every 400 years, which are 146097 days.\<close>

definition civil :: "int \<Rightarrow> int \<times> nat \<times> nat" where
  "civil days =
     (case year_and_day 1970 (nat (days mod 146097)) of
        (y, d) \<Rightarrow> (case locate (month_lengths y) d of
                     (m, r) \<Rightarrow> (int y + 400 * (days div 146097), m, r)))"

definition year_text :: "int \<Rightarrow> string" where
  "year_text y =
     (if y < 0 then ''-'' @ padded 6 (nat (- y))
      else if 9999 < y then ''+'' @ padded 6 (nat y) else padded 4 (nat y))"

definition iso_text :: "int \<Rightarrow> string" where
  "iso_text ms =
     (case civil (ms div 86400000) of
        (y, m, d) \<Rightarrow>
          let t = nat (ms mod 86400000)
          in year_text y @ ''-'' @ padded 2 (m + 1) @ ''-'' @ padded 2 (d + 1) @ ''T''
             @ padded 2 (t div 3600000) @ '':'' @ padded 2 (t div 60000 mod 60) @ '':''
             @ padded 2 (t div 1000 mod 60) @ ''.'' @ padded 3 (t mod 1000) @ ''Z'')"

text \<open>The range of \<open>Date\<close>.\<close>

definition date_range :: "int \<Rightarrow> bool" where
  "date_range ms \<longleftrightarrow> - 8640000000000000 \<le> ms \<and> ms \<le> 8640000000000000"

section \<open>Reading it back\<close>

definition days_of_civil :: "int \<Rightarrow> nat \<Rightarrow> nat \<Rightarrow> int" where
  "days_of_civil y m d =
     (let cycle = (y - 1970) div 400; y' = 1970 + nat ((y - 1970) mod 400)
      in 146097 * cycle + int (days_before_year 1970 y' + sum_list (take m (month_lengths y')) + d))"

definition number_at :: "nat \<Rightarrow> nat \<Rightarrow> string \<Rightarrow> nat" where
  "number_at i w s = nat_of_digits (take w (drop i s))"

definition read_year :: "string \<Rightarrow> int \<times> string" where
  "read_year s =
     (if starts_with ''-'' s then (- int (number_at 1 6 s), drop 7 s)
      else if starts_with ''+'' s then (int (number_at 1 6 s), drop 7 s)
      else (int (number_at 0 4 s), drop 4 s))"

definition moment_of :: "string \<Rightarrow> int" where
  "moment_of s =
     (case read_year s of
        (y, r) \<Rightarrow> 86400000 * days_of_civil y (number_at 1 2 r - 1) (number_at 4 2 r - 1)
           + int (3600000 * number_at 7 2 r + 60000 * number_at 10 2 r + 1000 * number_at 13 2 r
                  + number_at 16 3 r))"

definition read_iso :: "string \<Rightarrow> int option" where
  "read_iso s =
     (let ms = moment_of s in if date_range ms \<and> iso_text ms = s then Some ms else None)"

lemma read_iso_Some: "read_iso s = Some ms \<Longrightarrow> date_range ms \<and> iso_text ms = s"
  by (auto simp: read_iso_def Let_def split: if_splits)

section \<open>Round trip\<close>

text \<open>Days before a year in closed form: one more every fourth, not every hundredth, every four hundredth.\<close>

definition day_count :: "nat \<Rightarrow> int" where
  "day_count y = 365 * int y + int ((y + 3) div 4) - int ((y + 99) div 100) + int ((y + 399) div 400)"

lemma next_multiple:
  fixes k y :: nat
  assumes "0 < k" shows "(y + k) div k = (y + (k - 1)) div k + (if k dvd y then 1 else 0)"
proof -
  have e: "y + k = Suc (y + (k - 1))" using assms by simp
  have "Suc (y + (k - 1)) mod k = y mod k" unfolding e[symmetric] by simp
  then show ?thesis unfolding e div_Suc by (simp add: dvd_eq_mod_eq_0)
qed

lemma leap_arith:
  fixes u :: int and a b c :: nat
  assumes "B \<Longrightarrow> A" and "C \<Longrightarrow> B"
  shows "365 * (u + 1) + int (a + (if A then 1 else 0)) - int (b + (if B then 1 else 0))
      + int (c + (if C then 1 else 0)) =
    365 * u + int a - int b + int c + int (if A \<and> (\<not> B \<or> C) then 366 else 365)"
  using assms by (cases A; cases B; cases C) simp_all

lemma day_count_step: "day_count (Suc y) = day_count y + int (year_length y)"
proof -
  have "100 dvd y \<Longrightarrow> 4 dvd y" "400 dvd y \<Longrightarrow> 100 dvd y"
    using dvd_trans[of 4 100 y] dvd_trans[of 100 400 y] by simp_all
  note arith = leap_arith[OF this, where u = "int y"]
  have leap: "leap_year y \<longleftrightarrow> 4 dvd y \<and> (\<not> 100 dvd y \<or> 400 dvd y)"
    by (simp only: leap_year_def dvd_eq_mod_eq_0)
  have s: "Suc y + 3 = y + 4" "Suc y + 99 = y + 100" "Suc y + 399 = y + 400" "int (Suc y) = int y + 1"
    by simp_all
  have n: "(y + 4) div 4 = (y + 3) div 4 + (if 4 dvd y then 1 else 0)"
      "(y + 100) div 100 = (y + 99) div 100 + (if 100 dvd y then 1 else 0)"
      "(y + 400) div 400 = (y + 399) div 400 + (if 400 dvd y then 1 else 0)"
    using next_multiple[of 4 y] next_multiple[of 100 y] next_multiple[of 400 y] by simp_all
  show ?thesis unfolding day_count_def year_length_def leap s n by (rule arith)
qed

lemma days_before_year_closed: "b \<le> y \<Longrightarrow> int (days_before_year b y) = day_count y - day_count b"
proof (induction y rule: dec_induct)
  case (step n)
  then show ?case using day_count_step[of n] by (simp add: days_before_year_def)
qed (simp add: days_before_year_def)

lemma year_and_day_small:
  assumes "d < 146097" and "year_and_day 1970 d = (y, r)"
  shows "y < 2370"
proof (rule ccontr)
  assume "\<not> y < 2370"
  then obtain k where k: "y = 2370 + k" by (metis le_add_diff_inverse not_less)
  have "[1970..<y] = [1970..<2370] @ [2370..<y]"
    unfolding k by (rule upt_add_eq_append) simp
  then have "days_before_year 1970 2370 \<le> days_before_year 1970 y" by (simp add: days_before_year_def)
  moreover have "int (days_before_year 1970 2370) = 146097"
    by (subst days_before_year_closed) (simp_all add: day_count_def)
  ultimately show False using year_and_day_inverse[OF assms(2)] assms(1) by linarith
qed

lemma days_of_civil_civil:
  assumes "civil days = (y, m, d)" shows "days_of_civil y m d = days"
proof -
  let ?n = "nat (days mod 146097)"
  obtain y0 r where yr: "year_and_day 1970 ?n = (y0, r)" by fastforce
  obtain m' d' where md: "locate (month_lengths y0) r = (m', d')" by fastforce
  have e: "m = m'" "d = d'" "y = int y0 + 400 * (days div 146097)"
    using assms by (auto simp: civil_def yr md)
  have y0: "1970 \<le> y0" "r < year_length y0" using year_and_day_bound[OF yr] by auto
  have small: "y0 < 2370" by (rule year_and_day_small[OF _ yr]) simp
  have "sum_list (take m (month_lengths y0)) + d = r"
    using locate_inverse[OF _ md] y0(2) by (simp add: sum_month_lengths e)
  then have "int (days_before_year 1970 y0 + sum_list (take m (month_lengths y0)) + d) = days mod 146097"
    using year_and_day_inverse[OF yr] by (metis add.assoc int_nat_eq pos_mod_sign zero_less_numeral)
  moreover have "(y - 1970) div 400 = days div 146097" "1970 + nat ((y - 1970) mod 400) = y0"
  proof -
    have y: "y - 1970 = (int y0 - 1970) + 400 * (days div 146097)" by (simp add: e(3))
    have "0 \<le> int y0 - 1970" "int y0 - 1970 < 400" using y0(1) small by auto
    then show "(y - 1970) div 400 = days div 146097" "1970 + nat ((y - 1970) mod 400) = y0"
      unfolding y by simp_all
  qed
  ultimately show ?thesis
    unfolding days_of_civil_def Let_def by (metis mult_div_mod_eq)
qed

lemma civil_bounds:
  assumes "civil days = (y, m, d)"
  shows "m < 12" "d < 31" "1970 + 400 * (days div 146097) \<le> y" "y < 2370 + 400 * (days div 146097)"
proof -
  let ?n = "nat (days mod 146097)"
  obtain y0 r where yr: "year_and_day 1970 ?n = (y0, r)" by fastforce
  obtain m' d' where md: "locate (month_lengths y0) r = (m', d')" by fastforce
  have e: "m = m'" "d = d'" "y = int y0 + 400 * (days div 146097)"
    using assms by (auto simp: civil_def yr md)
  have y0: "1970 \<le> y0" "r < year_length y0" using year_and_day_bound[OF yr] by auto
  have small: "y0 < 2370" by (rule year_and_day_small[OF _ yr]) simp
  have l: "m < length (month_lengths y0)" "d < month_lengths y0 ! m"
    using locate_inverse[OF _ md] y0(2) by (simp_all add: sum_month_lengths e)
  show "m < 12" using l(1) by (simp add: month_lengths_def)
  have "\<forall>x \<in> set (month_lengths y0). x \<le> 31" by (simp add: month_lengths_def)
  then show "d < 31" using l nth_mem[OF l(1)] by (meson less_le_trans)
  show "1970 + 400 * (days div 146097) \<le> y" "y < 2370 + 400 * (days div 146097)"
    using y0(1) small by (simp_all add: e(3))
qed

lemma year_bound:
  assumes "date_range ms" and "civil (ms div 86400000) = (y, m, d)"
  shows "- 1000000 < y" "y < 1000000"
proof -
  have "- 100000000 \<le> ms div 86400000" "ms div 86400000 \<le> 100000000"
    using zdiv_mono1[of "- 8640000000000000" ms 86400000] zdiv_mono1[of ms 8640000000000000 86400000] assms(1)
    by (simp_all add: date_range_def)
  then have "- 685 \<le> ms div 86400000 div 146097" "ms div 86400000 div 146097 \<le> 684"
    using zdiv_mono1[of "- 100000000" "ms div 86400000" 146097]
      zdiv_mono1[of "ms div 86400000" 100000000 146097] by simp_all
  then show "- 1000000 < y" "y < 1000000" using civil_bounds(3,4)[OF assms(2)] by linarith+
qed

lemma digit_char:
  fixes n :: nat
  assumes "n < 10" shows "(char_of (48 + n) :: char) \<notin> {CHR ''-'', CHR ''+''}"
proof -
  have "list_all (\<lambda>n. (char_of (48 + n :: nat) :: char) \<notin> {CHR ''-'', CHR ''+''}) [0..<10]" by code_simp
  with assms show ?thesis by (simp add: list_all_iff)
qed

lemma padded_head: "padded (Suc w) n = c # r \<Longrightarrow> c \<notin> {CHR ''-'', CHR ''+''}"
proof (induction w arbitrary: n r)
  case 0
  then show ?case using digit_char[of "n mod 10"] by simp
next
  case (Suc w)
  obtain c' r' where "padded (Suc w) (n div 10) = c' # r'"
    by (metis length_padded length_Suc_conv)
  with Suc show ?case by (metis append_Cons list.inject padded.simps(2))
qed

lemma read_year_text:
  assumes "- 1000000 < y" and "y < 1000000"
  shows "read_year (year_text y @ r) = (y, r)"
proof -
  have "length (padded 4 (nat y)) = Suc 3" by simp
  then obtain c x where p: "padded 4 (nat y) = c # x" by (auto simp only: length_Suc_conv)
  have "Suc 3 = (4 :: nat)" by simp
  then have "padded (Suc 3) (nat y) = c # x" using p by (simp only:)
  from padded_head[OF this] have c: "c \<noteq> CHR ''-''" "c \<noteq> CHR ''+''" by auto
  consider "y < 0" | "9999 < y" | "0 \<le> y \<and> y \<le> 9999" by linarith
  then show ?thesis
  proof cases
    case 1
    then have "nat (- y) < 10 ^ 6" using assms by simp
    with 1 show ?thesis
      by (simp add: year_text_def read_year_def number_at_def nat_of_digits_padded starts_with_def)
  next
    case 2
    then have "nat y < 10 ^ 6" using assms by simp
    with 2 show ?thesis
      by (simp add: year_text_def read_year_def number_at_def nat_of_digits_padded starts_with_def)
  next
    case 3
    then have "nat y < 10 ^ 4" by (simp add: nat_less_iff)
    moreover have "\<not> starts_with ''-'' (padded 4 (nat y) @ r)" "\<not> starts_with ''+'' (padded 4 (nat y) @ r)"
      using c by (simp_all add: p starts_with_def)
    ultimately show ?thesis using 3
      by (simp add: year_text_def read_year_def number_at_def nat_of_digits_padded)
  qed
qed

lemma time_of_day:
  fixes t :: nat
  shows "3600000 * (t div 3600000) + 60000 * (t div 60000 mod 60) + 1000 * (t div 1000 mod 60) + t mod 1000 = t"
proof -
  have "t div 3600000 = t div 1000 div 60 div 60" "t div 60000 = t div 1000 div 60"
    by (simp_all flip: div_mult2_eq)
  moreover have "3600000 * (a div 60) + 60000 * (a mod 60) = 60000 * a" for a :: nat
    using mult_div_mod_eq[of 60 a] by linarith
  ultimately have "3600000 * (t div 3600000) + 60000 * (t div 60000 mod 60) = 60000 * (t div 1000 div 60)"
    by metis
  moreover have "60000 * (t div 1000 div 60) + 1000 * (t div 1000 mod 60) = 1000 * (t div 1000)"
    using mult_div_mod_eq[of 60 "t div 1000"] by linarith
  ultimately show ?thesis using mult_div_mod_eq[of 1000 t] by linarith
qed

theorem read_iso_text:
  assumes "date_range ms" shows "read_iso (iso_text ms) = Some ms"
proof -
  obtain y m d where c: "civil (ms div 86400000) = (y, m, d)" by (cases "civil (ms div 86400000)")
  let ?t = "nat (ms mod 86400000)"
  let ?r = "''-'' @ padded 2 (m + 1) @ ''-'' @ padded 2 (d + 1) @ ''T''
     @ padded 2 (?t div 3600000) @ '':'' @ padded 2 (?t div 60000 mod 60) @ '':''
     @ padded 2 (?t div 1000 mod 60) @ ''.'' @ padded 3 (?t mod 1000) @ ''Z''"
  have t: "?t < 86400000" by simp
  have "?t div 3600000 < 100" using t by (simp add: less_mult_imp_div_less)
  then have fields: "number_at 1 2 ?r = m + 1" "number_at 4 2 ?r = d + 1" "number_at 7 2 ?r = ?t div 3600000"
      "number_at 10 2 ?r = ?t div 60000 mod 60" "number_at 13 2 ?r = ?t div 1000 mod 60"
      "number_at 16 3 ?r = ?t mod 1000"
    using civil_bounds(1,2)[OF c] by (simp_all add: number_at_def nat_of_digits_padded)
  have i: "iso_text ms = year_text y @ ?r" by (simp add: iso_text_def c Let_def)
  have ry: "read_year (iso_text ms) = (y, ?r)"
    unfolding i by (rule read_year_text[OF year_bound[OF assms c]])
  have "moment_of (iso_text ms) = 86400000 * (ms div 86400000) + int ?t"
    unfolding moment_of_def ry prod.case fields time_of_day
    by (simp add: days_of_civil_civil[OF c])
  then have "moment_of (iso_text ms) = ms" by simp
  with assms show ?thesis by (simp add: read_iso_def)
qed

end
