(* ===== verification/JsonText.thy ===== *)
theory JsonText
  imports Requests
begin

text \<open>
  \<open>JSON.parse\<close> on the bytes of a text in UTF-8, and base64url as Node's \<open>Buffer\<close> reads and writes it:
  what \<open>src/intents/cursor.ts\<close> needs of them. A number with a fraction, an exponent or more than
  fifteen digits keeps its text; \<open>\\u\<close> escapes become the bytes of the code unit.
\<close>

section \<open>Base64url\<close>

definition base64url_alphabet :: string where
  "base64url_alphabet = ''ABCDEFGHIJKLMNOPQRSTUVWXYZabcdefghijklmnopqrstuvwxyz0123456789-_''"

definition sextet_char :: "nat \<Rightarrow> char" where
  "sextet_char n = base64url_alphabet ! n"

text \<open>Both alphabets are read; every other character is skipped.\<close>

definition sextet :: "char \<Rightarrow> nat option" where
  "sextet c =
     (if c = CHR ''+'' then Some 62
      else if c = CHR ''/'' then Some 63
      else if c \<in> set base64url_alphabet
      then Some (length (takeWhile (\<lambda>x. x \<noteq> c) base64url_alphabet)) else None)"

abbreviation byte :: "char \<Rightarrow> nat" where
  "byte c \<equiv> of_char c"

fun sextets_of_bytes :: "nat list \<Rightarrow> nat list" where
  "sextets_of_bytes (a # b # c # r) =
     [a div 4, a mod 4 * 16 + b div 16, b mod 16 * 4 + c div 64, c mod 64] @ sextets_of_bytes r"
| "sextets_of_bytes [a, b] = [a div 4, a mod 4 * 16 + b div 16, b mod 16 * 4]"
| "sextets_of_bytes [a] = [a div 4, a mod 4 * 16]"
| "sextets_of_bytes [] = []"

fun bytes_of_sextets :: "nat list \<Rightarrow> nat list" where
  "bytes_of_sextets (w # x # y # z # r) =
     [w * 4 + x div 16, x mod 16 * 16 + y div 4, y mod 4 * 64 + z] @ bytes_of_sextets r"
| "bytes_of_sextets [w, x, y] = [w * 4 + x div 16, x mod 16 * 16 + y div 4]"
| "bytes_of_sextets [w, x] = [w * 4 + x div 16]"
| "bytes_of_sextets _ = []"

definition to_base64url :: "string \<Rightarrow> string" where
  "to_base64url s = map sextet_char (sextets_of_bytes (map byte s))"

definition from_base64url :: "string \<Rightarrow> string" where
  "from_base64url s = map char_of (bytes_of_sextets (List.map_filter sextet s))"

lemma sextet_sextet_char: "n < 64 \<Longrightarrow> sextet (sextet_char n) = Some n"
proof -
  have "list_all (\<lambda>n. sextet (sextet_char n) = Some n) [0..<64]" by code_simp
  then show "n < 64 \<Longrightarrow> sextet (sextet_char n) = Some n" by (simp add: list_all_iff)
qed

lemma sextets_bound: "\<forall>b \<in> set bs. b < 256 \<Longrightarrow> \<forall>n \<in> set (sextets_of_bytes bs). n < 64"
  by (induction bs rule: sextets_of_bytes.induct) (auto simp: less_mult_imp_div_less)

lemma bytes_of_sextets_of_bytes: "\<forall>b \<in> set bs. b < 256 \<Longrightarrow> bytes_of_sextets (sextets_of_bytes bs) = bs"
  by (induction bs rule: sextets_of_bytes.induct) (auto simp: less_mult_imp_div_less)

lemma from_to_base64url: "from_base64url (to_base64url s) = s"
proof -
  let ?n = "sextets_of_bytes (map byte s)"
  have b: "\<forall>x \<in> set (map byte s). x < 256" by auto
  have "List.map_filter sextet (map sextet_char ns) = ns" if "\<forall>n \<in> set ns. n < 64" for ns
    using that by (induction ns) (simp_all add: List.map_filter_simps sextet_sextet_char)
  from this[OF sextets_bound[OF b]] show ?thesis
    unfolding from_base64url_def to_base64url_def
    by (simp add: bytes_of_sextets_of_bytes[OF b] map_idI)
qed

section \<open>\<open>JSON.parse\<close>\<close>

definition json_space :: "char \<Rightarrow> bool" where
  "json_space c \<longleftrightarrow> byte c \<in> {9, 10, 13, 32}"

definition skip_space :: "string \<Rightarrow> string" where
  "skip_space s = dropWhile json_space s"

definition hex_digits_text :: string where
  "hex_digits_text = ''0123456789abcdefABCDEF''"

definition hex_number :: "char \<Rightarrow> nat" where
  "hex_number c = (if byte c < 58 then byte c - 48 else if byte c < 71 then byte c - 55 else byte c - 87)"

definition utf8_unit :: "nat \<Rightarrow> string" where
  "utf8_unit n =
     (if n < 128 then [char_of n]
      else if n < 2048 then [char_of (192 + n div 64), char_of (128 + n mod 64)]
      else [char_of (224 + n div 4096), char_of (128 + n div 64 mod 64), char_of (128 + n mod 64)])"

fun simple_escape :: "char \<Rightarrow> char option" where
  "simple_escape c =
     (if c \<in> {CHR 0x22, CHR 0x5C, CHR ''/''} then Some c
      else if c = CHR ''b'' then Some (CHR 0x08)
      else if c = CHR ''f'' then Some (CHR 0x0C)
      else if c = CHR ''n'' then Some (CHR 0x0A)
      else if c = CHR ''r'' then Some (CHR 0x0D)
      else if c = CHR ''t'' then Some (CHR 0x09)
      else None)"

text \<open>After the opening quote: the characters of the string and what follows the closing quote.\<close>

function string_body :: "string \<Rightarrow> (string \<times> string) option" where
  "string_body s =
     (case s of
        [] \<Rightarrow> None
      | c # r \<Rightarrow>
          if c = CHR 0x22 then Some ([], r)
          else if byte c < 32 then None
          else if c \<noteq> CHR 0x5C then map_option (apfst (Cons c)) (string_body r)
          else (case r of
                  [] \<Rightarrow> None
                | k # r2 \<Rightarrow>
                    if k = CHR ''u''
                    then if length r2 < 4 \<or> \<not> all_in hex_digits_text (take 4 r2) then None
                         else map_option (apfst (append (utf8_unit (foldl (\<lambda>n h. 16 * n + hex_number h) 0 (take 4 r2)))))
                                (string_body (drop 4 r2))
                    else (case simple_escape k of
                            None \<Rightarrow> None
                          | Some x \<Rightarrow> map_option (apfst (Cons x)) (string_body r2))))"
  by pat_completeness auto

termination by (relation "measure length") auto

declare string_body.simps [simp del]

lemma string_body_Cons:
  "string_body (c # r) =
     (if c = CHR 0x22 then Some ([], r)
      else if byte c < 32 then None
      else if c \<noteq> CHR 0x5C then map_option (apfst (Cons c)) (string_body r)
      else (case r of
              [] \<Rightarrow> None
            | k # r2 \<Rightarrow>
                if k = CHR ''u''
                then if length r2 < 4 \<or> \<not> all_in hex_digits_text (take 4 r2) then None
                     else map_option (apfst (append (utf8_unit (foldl (\<lambda>n h. 16 * n + hex_number h) 0 (take 4 r2)))))
                            (string_body (drop 4 r2))
                else (case simple_escape k of
                        None \<Rightarrow> None
                      | Some x \<Rightarrow> map_option (apfst (Cons x)) (string_body r2))))"
  by (subst string_body.simps) simp

lemma string_body_shorter: "string_body s = Some (x, r) \<Longrightarrow> length r < length s"
proof (induction "length s" arbitrary: s x r rule: less_induct)
  case less
  have *: "length r < length s'" if "string_body s' = Some (y, r)" "length s' < length s" for s' y
    using less.hyps[OF that(2,1)] .
  show ?case
  proof (cases s)
    case Nil
    then show ?thesis using less.prems by (simp add: string_body.simps[of "[]"])
  next
    case (Cons c s')
    show ?thesis
    proof (cases "c \<noteq> CHR 0x5C")
      case True
      then show ?thesis using less.prems *[of s'] Cons by (auto simp: string_body_Cons split: if_splits)
    next
      case False
      then obtain k r2 where r2: "s' = k # r2" using less.prems Cons by (cases s') (auto simp: string_body_Cons)
      then show ?thesis using less.prems Cons False *[of "drop 4 r2"] *[of r2]
        by (fastforce simp: string_body_Cons simp del: simple_escape.simps split: if_splits option.splits)
    qed
  qed
qed

text \<open>The grammar of numbers: sign, integer part, optional fraction, optional exponent.\<close>

definition decimal_digit :: "char \<Rightarrow> bool" where
  "decimal_digit c \<longleftrightarrow> c \<in> set ''0123456789''"

definition take_digits :: "string \<Rightarrow> string \<times> string" where
  "take_digits s = (takeWhile decimal_digit s, dropWhile decimal_digit s)"

definition fraction_part :: "string \<Rightarrow> (string \<times> string) option" where
  "fraction_part s =
     (if \<not> starts_with ''.'' s then Some ([], s)
      else case take_digits (tl s) of (d, r) \<Rightarrow> if d = [] then None else Some (''.'' @ d, r))"

definition exponent_part :: "string \<Rightarrow> (string \<times> string) option" where
  "exponent_part s =
     (if \<not> (starts_with ''e'' s \<or> starts_with ''E'' s) then Some ([], s)
      else let t = tl s; sign = (if starts_with ''+'' t \<or> starts_with ''-'' t then [hd t] else [])
           in case take_digits (drop (length sign) t) of
                (d, r) \<Rightarrow> if d = [] then None else Some (hd s # sign @ d, r))"

definition json_number :: "string \<Rightarrow> (json \<times> string) option" where
  "json_number s =
     (let neg = starts_with ''-'' s
      in case take_digits (if neg then tl s else s) of (d, r) \<Rightarrow>
           if d = [] \<or> (starts_with ''0'' d \<and> 1 < length d) then None
           else case fraction_part r of
                  None \<Rightarrow> None
                | Some (f, r2) \<Rightarrow>
                    (case exponent_part r2 of
                       None \<Rightarrow> None
                     | Some (e, r3) \<Rightarrow>
                         let v = (if neg then - int (nat_of_digits d) else int (nat_of_digits d))
                         in Some (if f = [] \<and> e = [] \<and> length d \<le> 15 then JNum v
                                  else JDec ((if neg then ''-'' else []) @ d @ f @ e), r3)))"

definition json_literal :: "string \<Rightarrow> (json \<times> string) option" where
  "json_literal s =
     (if starts_with ''true'' s then Some (JBool True, drop 4 s)
      else if starts_with ''false'' s then Some (JBool False, drop 5 s)
      else if starts_with ''null'' s then Some (JNull, drop 4 s)
      else json_number s)"

text \<open>What is being read: a value, the rest of an array, the rest of an object.\<close>

datatype parsing = Value | Elements "json list" | Members object

lemma skip_space_le: "length (skip_space s) \<le> length s"
  by (simp add: skip_space_def length_dropWhile_le)

text \<open>
  A repeated key keeps its place and takes the last value. The comparisons of lengths always
  succeed (\<open>parse_shorter\<close>); they let the recursion be seen to end.
\<close>

function parse :: "parsing \<Rightarrow> string \<Rightarrow> (json \<times> string) option" where
  "parse Value s =
     (case skip_space s of
        [] \<Rightarrow> None
      | c # r \<Rightarrow>
          if c = CHR ''{''
          then (if starts_with ''}'' (skip_space r) then Some (JObj [], tl (skip_space r))
                else parse (Members []) r)
          else if c = CHR ''[''
          then (if starts_with '']'' (skip_space r) then Some (JArr [], tl (skip_space r))
                else parse (Elements []) r)
          else if c = CHR 0x22 then map_option (apfst JStr) (string_body r)
          else json_literal (c # r))"
| "parse (Elements vs) s =
     (case parse Value s of
        None \<Rightarrow> None
      | Some (v, r) \<Rightarrow>
          (case skip_space r of
             [] \<Rightarrow> None
           | c # r2 \<Rightarrow>
               if c = CHR '','' \<and> length r2 < length s then parse (Elements (vs @ [v])) r2
               else if c = CHR '']'' then Some (JArr (vs @ [v]), r2) else None))"
| "parse (Members ob) s =
     (case skip_space s of
        [] \<Rightarrow> None
      | q # r \<Rightarrow>
          if q \<noteq> CHR 0x22 then None
          else (case string_body r of
                  None \<Rightarrow> None
                | Some (k, r2) \<Rightarrow>
                    (case skip_space r2 of
                       [] \<Rightarrow> None
                     | d # r3 \<Rightarrow>
                         if d \<noteq> CHR '':'' then None
                         else (case parse Value r3 of
                                 None \<Rightarrow> None
                               | Some (v, r4) \<Rightarrow>
                                   (case skip_space r4 of
                                      [] \<Rightarrow> None
                                    | c # r5 \<Rightarrow>
                                        if c = CHR '','' \<and> length r5 < length s
                                        then parse (Members (put k v ob)) r5
                                        else if c = CHR ''}'' then Some (JObj (put k v ob), r5)
                                        else None)))))"
  by pat_completeness auto

termination
proof (relation "measure (\<lambda>(m, s). 2 * length s + (case m of Value \<Rightarrow> 0 | _ \<Rightarrow> 1))", goal_cases)
  case 1
  then show ?case by simp
next
  case (2 s c r)
  then show ?case using skip_space_le[of s] by simp
next
  case (3 s c r)
  then show ?case using skip_space_le[of s] by simp
next
  case (4 vs s)
  then show ?case by simp
next
  case (5 vs s x v r c r2)
  then show ?case by simp
next
  case (6 ob s q r x k r2 d r3)
  then show ?case using skip_space_le[of s] string_body_shorter[of r k r2] skip_space_le[of r2] by simp
next
  case 7
  then show ?case by simp
qed

definition json_parse :: "string \<Rightarrow> json option" where
  "json_parse s =
     (case parse Value s of
        Some (v, r) \<Rightarrow> if skip_space r = [] then Some v else None
      | None \<Rightarrow> None)"

declare parse.simps [simp del]

section \<open>Reading back what was written\<close>

lemma json_number_shorter: "json_number s = Some (v, r) \<Longrightarrow> length r < length s"
proof -
  have digits: "length (fst (take_digits u)) + length (snd (take_digits u)) = length u" for u
    unfolding take_digits_def fst_conv snd_conv by (metis length_append takeWhile_dropWhile_id)
  have frac: "length r \<le> length u" if "fraction_part u = Some (f, r)" for u f r
    using that digits[of "tl u"] by (auto simp: fraction_part_def split: if_splits prod.splits)
  have expo: "length r \<le> length u" if "exponent_part u = Some (f, r)" for u f r
    using that digits[of "drop (length (if starts_with ''+'' (tl u) \<or> starts_with ''-'' (tl u) then [hd (tl u)] else [])) (tl u)"]
    by (auto simp: exponent_part_def Let_def split: if_splits prod.splits)
  assume "json_number s = Some (v, r)"
  then obtain u d r1 f r2 e where "take_digits u = (d, r1)" "length u \<le> length s" "d \<noteq> []"
      "fraction_part r1 = Some (f, r2)" "exponent_part r2 = Some (e, r)"
    by (fastforce simp: json_number_def Let_def split: if_splits prod.splits option.splits)
  then show ?thesis using digits[of u] frac[of r1 f r2] expo[of r2 e r] by (cases d) auto
qed

text \<open>Every value takes at least one character, so the comparisons of lengths in \<open>parse\<close> succeed.\<close>

lemma json_literal_shorter: "json_literal s = Some (v, r) \<Longrightarrow> length r < length s"
  by (auto simp: json_literal_def starts_with_def dest: json_number_shorter split: if_splits)
    (cases s; simp)+

lemma parse_shorter: "parse m s = Some (v, r) \<Longrightarrow> length r < length s"
proof (induction m s arbitrary: v r rule: parse.induct)
  case (1 s)
  have skip: "length (skip_space u) \<le> length u" for u by (rule skip_space_le)
  show ?case
  proof (cases "skip_space s")
    case Nil
    then show ?thesis using 1(3) by (simp add: parse.simps(1)[of s])
  next
    case (Cons c u)
    have "length r < Suc (length u)"
      using 1(3) Cons 1(1,2)[OF Cons] skip[of u] string_body_shorter[of u] json_literal_shorter[of "c # u"]
      by (cases "skip_space u") (auto simp: parse.simps(1)[of s] split: if_splits dest: less_SucI)
    then show ?thesis using skip[of s] Cons by simp
  qed
next
  case (2 vs s)
  then obtain x r1 where x: "parse Value s = Some (x, r1)"
    by (auto simp: parse.simps(2)[of vs s] split: option.splits)
  from 2(1)[OF x] have s: "length r1 < length s" .
  obtain c r2 where c: "skip_space r1 = c # r2"
    using 2(3) x by (auto simp: parse.simps(2)[of vs s] split: list.splits)
  have "length r2 < length r1" using skip_space_le[of r1] c by simp
  then show ?case using 2(2)[OF x refl c] 2(3) x c s by (auto simp: parse.simps(2)[of vs s] split: if_splits)
next
  case (3 ob s)
  obtain q u where q: "skip_space s = q # u" "q = CHR 0x22"
    using 3(3) by (auto simp: parse.simps(3)[of ob s] split: list.splits if_splits)
  obtain k r2 where k: "string_body u = Some (k, r2)"
    using 3(3) q by (auto simp: parse.simps(3)[of ob s] split: option.splits)
  obtain d r3 where d: "skip_space r2 = d # r3" "d = CHR '':''"
    using 3(3) q k by (auto simp: parse.simps(3)[of ob s] split: list.splits if_splits)
  obtain x r4 where x: "parse Value r3 = Some (x, r4)"
    using 3(3) q k d by (auto simp: parse.simps(3)[of ob s] split: option.splits)
  obtain c r5 where c: "skip_space r4 = c # r5"
    using 3(3) q k d x by (auto simp: parse.simps(3)[of ob s] split: list.splits)
  have "length u < length s" "length r2 < length u" "length r3 < length r2" "length r5 < length r4"
    using skip_space_le[of s] skip_space_le[of r2] skip_space_le[of r4] q(1) d(1) c string_body_shorter[OF k]
    by simp_all
  moreover have "length r4 < length r3"
    by (rule 3(1)[OF q(1) _ k _ d(1) _ x]) (use q(2) d(2) in simp_all)
  ultimately show ?case
    using 3(3) 3(2)[OF q(1) _ k refl d(1) _ x refl c] q k d x c by (auto simp: parse.simps(3)[of ob s] split: if_splits)
qed

text \<open>What \<open>escape_char\<close> wrote, \<open>string_body\<close> reads.\<close>

lemma hex_digit_read: "m < 16 \<Longrightarrow> hex_number (hex_digit m) = m \<and> hex_digit m \<in> set hex_digits_text"
proof -
  have "list_all (\<lambda>m. hex_number (hex_digit m) = m \<and> hex_digit m \<in> set hex_digits_text) [0..<16]"
    by code_simp
  then show "m < 16 \<Longrightarrow> hex_number (hex_digit m) = m \<and> hex_digit m \<in> set hex_digits_text"
    by (simp add: list_all_iff)
qed

lemma string_body_unicode:
  assumes "n < 256"
  shows "string_body ([CHR 0x5C, CHR ''u'', CHR ''0'', CHR ''0'', hex_digit (n div 16), hex_digit (n mod 16)] @ r) =
    map_option (apfst (append (utf8_unit n))) (string_body r)"
proof -
  have d: "n div 16 < 16" using assms by (simp add: less_mult_imp_div_less)
  have z: "hex_number (CHR ''0'') = 0" by (simp add: hex_number_def)
  have "hex_digit (n div 16) \<in> set hex_digits_text" "hex_digit (n mod 16) \<in> set hex_digits_text"
    using hex_digit_read[OF d] hex_digit_read[of "n mod 16"] by simp_all
  moreover have "CHR ''0'' \<in> set hex_digits_text" by (simp add: hex_digits_text_def)
  ultimately show ?thesis
    using hex_digit_read[OF d] hex_digit_read[of "n mod 16"] z
    by (simp add: string_body_Cons all_in_def)
qed

lemma string_body_escape: "string_body (escape_char c @ r) = map_option (apfst (Cons c)) (string_body r)"
proof -
  let ?n = "byte c"
  have c: "c = char_of ?n" by simp
  consider "?n \<in> {34, 92, 8, 9, 10, 12, 13}" | "?n < 32" "?n \<notin> {8, 9, 10, 12, 13}"
    | "32 \<le> ?n" "?n \<noteq> 34" "?n \<noteq> 92" by fastforce
  then show ?thesis
  proof cases
    case 1
    have "\<forall>m \<in> {34, 92, 8, 9, 10, 12, 13 :: nat}. (char_of m :: char)
        \<in> {CHR 0x22, CHR 0x5C, CHR 0x08, CHR 0x09, CHR 0x0A, CHR 0x0C, CHR 0x0D}" by code_simp
    from bspec[OF this 1] have "c \<in> {CHR 0x22, CHR 0x5C, CHR 0x08, CHR 0x09, CHR 0x0A, CHR 0x0C, CHR 0x0D}"
      by (simp only: char_of_char)
    then show ?thesis by (auto simp: escape_char_def string_body_Cons)
  next
    case 2
    then have "escape_char c = [CHR 0x5C, CHR ''u'', CHR ''0'', CHR ''0'', hex_digit (?n div 16), hex_digit (?n mod 16)]"
      by (simp add: escape_char_def Let_def)
    moreover have "utf8_unit ?n = [c]" using 2(1) by (simp add: utf8_unit_def)
    moreover have "append [c] = Cons c" by (simp add: fun_eq_iff)
    ultimately show ?thesis using string_body_unicode[of ?n r] by simp
  next
    case 3
    then have "escape_char c = [c]" by (simp add: escape_char_def Let_def)
    moreover have "c \<noteq> CHR 0x22" "c \<noteq> CHR 0x5C" using 3(2,3) by auto
    ultimately show ?thesis using 3(1) by (simp add: string_body_Cons)
  qed
qed

lemma string_body_quoted: "string_body (concat (map escape_char s) @ CHR 0x22 # r) = Some (s, r)"
  by (induction s) (simp_all add: string_body_escape string_body_Cons)

lemma parse_quote: "parse Value (quote s @ r) = Some (JStr s, r)"
  by (subst parse.simps) (simp add: quote_def skip_space_def json_space_def string_body_quoted)

end
