(* ===== verification/Cursor.thy ===== *)
theory Cursor
  imports Dates JsonText
begin

text \<open>
  The keyset cursor of the intent list (\<open>src/intents/cursor.ts\<close>): the base64url text of a small JSON
  object with the creation time and the id of the last row seen.
\<close>

definition lower_hex :: string where
  "lower_hex = ''0123456789abcdef''"

definition uuid_shape :: "string \<Rightarrow> bool" where
  "uuid_shape s \<longleftrightarrow>
     length s = 36 \<and>
     list_all (\<lambda>n. if n \<in> {8, 13, 18, 23} then s ! n = CHR ''-'' else s ! n \<in> set lower_hex) [0..<36]"

definition invalid_cursor :: exn where
  "invalid_cursor = api_error VALIDATION_ERROR ''cursor is not valid''"

definition cursor_object :: "int \<times> string \<Rightarrow> object" where
  "cursor_object cursor = [(''c'', JStr (iso_text (fst cursor))), (''i'', JStr (snd cursor))]"

definition encode_cursor :: "int \<times> string \<Rightarrow> string" where
  "encode_cursor cursor = to_base64url (stringify (JObj (cursor_object cursor)))"

definition decode_cursor :: "string \<Rightarrow> exn + (int \<times> string)" where
  "decode_cursor v =
     (case json_parse (from_base64url v) of
        Some (JObj ob) \<Rightarrow>
          (case (optional_str (field ob ''c''), optional_str (field ob ''i'')) of
             (Some c, Some i) \<Rightarrow>
               if \<not> uuid_shape i then Inl invalid_cursor
               else (case read_iso c of None \<Rightarrow> Inl invalid_cursor | Some t \<Rightarrow> Inr (t, i))
           | _ \<Rightarrow> Inl invalid_cursor)
      | _ \<Rightarrow> Inl invalid_cursor)"

lemma parse_colon: "skip_space (CHR '':'' # r) = CHR '':'' # r" "skip_space (CHR '','' # r) = CHR '','' # r"
    "skip_space (CHR ''}'' # r) = CHR ''}'' # r" "skip_space (CHR 0x22 # r) = CHR 0x22 # r"
    "skip_space (CHR ''{'' # r) = CHR ''{'' # r" "skip_space [] = []"
  by (simp_all add: skip_space_def json_space_def)

lemma parse_members_quote:
  "parse (Members ob) (quote k @ CHR '':'' # quote v @ c # r) =
     (case skip_space (c # r) of
        [] \<Rightarrow> None
      | d # r5 \<Rightarrow>
          if d = CHR '','' \<and> length r5 < length (quote k @ CHR '':'' # quote v @ c # r)
          then parse (Members (put k (JStr v) ob)) r5
          else if d = CHR ''}'' then Some (JObj (put k (JStr v) ob), r5) else None)"
proof -
  have q: "quote k @ CHR '':'' # quote v @ c # r =
      CHR 0x22 # concat (map escape_char k) @ CHR 0x22 # CHR '':'' # quote v @ c # r"
    by (simp add: quote_def)
  show ?thesis
    unfolding parse.simps(3)[of ob] q parse_colon list.case
    by (simp add: string_body_quoted parse_colon parse_quote)
qed

lemma json_parse_cursor:
  "json_parse (stringify (JObj [(''c'', JStr a), (''i'', JStr b)])) = Some (JObj [(''c'', JStr a), (''i'', JStr b)])"
proof -
  have t: "stringify (JObj [(''c'', JStr a), (''i'', JStr b)]) =
      CHR ''{'' # quote ''c'' @ CHR '':'' # quote a @ CHR '','' # quote ''i'' @ CHR '':'' # quote b @ [CHR ''}'']"
    by simp
  have "\<not> starts_with ''}'' (skip_space (quote ''c'' @ r))" for r
    by (simp add: quote_def parse_colon starts_with_def)
  then have "parse Value (CHR ''{'' # quote ''c'' @ r) = parse (Members []) (quote ''c'' @ r)" for r
    by (subst parse.simps) (simp add: parse_colon)
  moreover have "parse (Members [(''c'', JStr a)]) (quote ''i'' @ CHR '':'' # quote b @ [CHR ''}'']) =
      Some (JObj [(''c'', JStr a), (''i'', JStr b)], [])"
    unfolding parse_members_quote by (simp add: parse_colon)
  ultimately show ?thesis
    unfolding json_parse_def t by (simp add: parse_members_quote parse_colon)
qed

lemma decode_encode_cursor:
  assumes "date_range (fst cursor)" and "uuid_shape (snd cursor)"
  shows "decode_cursor (encode_cursor cursor) = Inr cursor"
  using assms
  by (cases cursor)
    (simp add: decode_cursor_def encode_cursor_def cursor_object_def from_to_base64url json_parse_cursor
      field_def optional_str_def read_iso_text del: stringify.simps)

text \<open>
  A cursor from outside, whatever bytes it holds, is either refused with the one validation error
  or read as a moment that \<open>Date\<close> can represent and an id of the form of a UUID.
\<close>

lemma decode_cursor_outcomes:
  "decode_cursor v = Inl invalid_cursor \<or>
     (\<exists>t i. decode_cursor v = Inr (t, i) \<and> date_range t \<and> uuid_shape i)"
  by (auto simp: decode_cursor_def split: option.splits json.splits dest: read_iso_Some)

section \<open>Properties\<close>

text \<open>
  C33. Every cursor the service hands out is accepted back and means the same moment and row; and so
  is the cursor made of anything that was once read from a text of the client.
\<close>

theorem cursor_round_trip:
  assumes "date_range (fst cursor)" and "uuid_shape (snd cursor)" and "decode_cursor v = Inr other"
  shows "decode_cursor (encode_cursor cursor) = Inr cursor \<and>
    decode_cursor (encode_cursor other) = Inr other"
proof -
  have "date_range (fst other) \<and> uuid_shape (snd other)"
    using assms(3) decode_cursor_outcomes[of v] by auto
  then show ?thesis using assms(1,2) by (simp add: decode_encode_cursor)
qed

theorem cursor_round_trip_witness:
  "\<exists>v. decode_cursor (encode_cursor (1700000000123, ''01234567-89ab-cdef-0123-456789abcdef'')) =
     Inr (1700000000123, ''01234567-89ab-cdef-0123-456789abcdef'') \<and>
     decode_cursor v = Inr (1700000000123, ''01234567-89ab-cdef-0123-456789abcdef'')"
proof -
  let ?c = "(1700000000123 :: int, ''01234567-89ab-cdef-0123-456789abcdef'')"
  have u: "uuid_shape (snd ?c)" by code_simp
  have d: "date_range (fst ?c)" by (simp add: date_range_def)
  from cursor_round_trip[OF d u decode_encode_cursor[OF d u]] show ?thesis by blast
qed

end
