(* ===== verification/Intents.thy ===== *)
theory Intents
  imports Finality Cursor
begin

text \<open>
  Creation and queries (\<open>src/intents/intents.service.ts\<close>). \<open>randomUUID()\<close> is an argument.
\<close>

section \<open>The service\<close>

definition new_row :: "codec \<Rightarrow> nat \<Rightarrow> string \<Rightarrow> string \<Rightarrow> payload \<Rightarrow> nat \<Rightarrow> intent_row" where
  "new_row X N uuid key p now =
     \<lparr>intent_id = uuid, idempotency_key = key, request_hash = request_hash_of X p,
      network_id = N, intent_type = payload_type p, source_account = account p,
      status = CREATED, intent_payload = JObj (payload_object p),
      prepared_tx_json = None, prepared_tx_blob = None, prepared_ledger_index = None,
      sequence = None, fee_drops = None, last_ledger_sequence = None,
      simulation_engine_result = None, simulation_result = None,
      signed_tx_blob = None, transaction_hash = None, signing_pub_key = None,
      submission_attempt_count = 0, submission_validated_ledger = None,
      submit_engine_result = None, submit_response = None, last_submit_attempt_at = None,
      final_result = None, final_ledger_index = None, final_ledger_hash = None,
      final_tx_json = None, final_meta = None, failure_code = None,
      created_at = now, prepared_at = None, simulated_at = None, signed_at = None,
      submitted_at = None, finalized_at = None, updated_at = now\<rparr>"

definition create ::
  "codec \<Rightarrow> nat \<Rightarrow> string \<Rightarrow> string \<Rightarrow> create_intent_dto \<Rightarrow> (bool \<times> intent_row) svc" where
  "create X N uuid key dto =
     (let p = to_canonical_intent dto; hash = request_hash_of X p
      in await current_time (\<lambda>now.
         await (create_idempotent (new_row X N uuid key p now)) (\<lambda>(created, intent).
           if \<not> created \<and> request_hash intent \<noteq> hash
           then Throw (api_error IDEMPOTENCY_KEY_REUSED
                  ''This Idempotency-Key was already used for a different request.'')
           else Return (created, intent))))"

definition get_intent :: "string \<Rightarrow> intent_row svc" where
  "get_intent i = load i"

definition intent_list_default_limit :: nat where
  "intent_list_default_limit = 25"

record list_query =
  query_type :: "intent_type option"
  query_status :: "intent_status option"
  query_account :: "string option"
  query_limit :: "nat option"
  query_cursor :: "string option"

definition page_limit :: "list_query \<Rightarrow> nat" where
  "page_limit q = (case query_limit q of None \<Rightarrow> intent_list_default_limit | Some n \<Rightarrow> n)"

definition page_filter :: "list_query \<Rightarrow> (int \<times> string) option \<Rightarrow> list_filter" where
  "page_filter q before =
     \<lparr>filter_type = query_type q, filter_status = query_status q,
      filter_account = query_account q, filter_before = before,
      filter_limit = page_limit q + 1\<rparr>"

definition query_before :: "list_query \<Rightarrow> exn + (int \<times> string) option" where
  "query_before q =
     (case query_cursor q of
        None \<Rightarrow> Inr None
      | Some v \<Rightarrow> rbind (decode_cursor v) (\<lambda>before. Inr (Some before)))"

text \<open>The page and the cursor of the next one, from one row more than the page holds.\<close>

definition page_of :: "nat \<Rightarrow> intent_row list \<Rightarrow> intent_row list \<times> string option" where
  "page_of limit rows =
     (let page = take limit rows
      in (page,
          if limit < length rows \<and> page \<noteq> []
          then Some (encode_cursor (int (created_at (last page)), intent_id (last page))) else None))"

definition list_page :: "list_query \<Rightarrow> (intent_row list \<times> string option) svc" where
  "list_page q =
     await (lift_result (query_before q)) (\<lambda>before.
     await (list_intents (page_filter q before)) (\<lambda>rows. Return (page_of (page_limit q) rows)))"

definition transitions_of :: "string \<Rightarrow> transition_row list svc" where
  "transitions_of i = await (get_intent i) (\<lambda>_. list_by_intent i)"

section \<open>What its answers establish\<close>

lemma new_row_ok: "row_ok X N (new_row X N uuid key p now)"
  by (auto simp: row_ok_def identity_ok_def unprepared_def unsigned_row_def new_row_def)

text \<open>
  The row of an answer holds the key and the hash of the request, whether it was created for it
  or found.
\<close>

definition created_for :: "codec \<Rightarrow> nat \<Rightarrow> string \<Rightarrow> payload \<Rightarrow> intent_row \<Rightarrow> world \<Rightarrow> bool" where
  "created_for X N key p r w \<longleftrightarrow>
     known X N r w \<and> idempotency_key r = key \<and> request_hash r = request_hash_of X p"

lemma wp_create_idempotent:
  assumes new: "row_ok X N row" "status row = CREATED"
    and created: "\<And>w'. evolves w w' \<Longrightarrow> known X N row w' \<Longrightarrow> Q (True, row) tr w'"
    and found: "\<And>r w'. evolves w w' \<Longrightarrow> known X N r w' \<Longrightarrow> idempotency_key r = idempotency_key row \<Longrightarrow>
      Q (False, r) tr w'"
    and err: "\<And>e w'. evolves w w' \<Longrightarrow> E e tr w'"
  shows "meets X N (create_idempotent row) Q E tr w"
proof -
  have "permitted X N tr w1 w1 \<and> E ConnectionLost tr w1 \<and>
      permitted X N tr w1 (snd (create_idempotent_tx row w1)) \<and>
      E ConnectionLost tr (snd (create_idempotent_tx row w1)) \<and>
      (case fst (create_idempotent_tx row w1) of
         Inl e \<Rightarrow> E e tr (snd (create_idempotent_tx row w1))
       | Inr res \<Rightarrow> Q res tr (snd (create_idempotent_tx row w1)))"
    if R: "evolves w w1" and I: "world_ok X N w1" for w1
  proof (cases rule: create_idempotent_tx_cases[of w1 row])
    case (Existing r)
    then show ?thesis
      using R I found[OF R known_row[OF I Existing(1)]] err
      by (auto intro: permitted_refl world_ok_store)
  next
    case (Refused e)
    then show ?thesis using R I err by (auto intro: permitted_refl world_ok_store)
  next
    case Inserted
    let ?w = "insert_transition (intent_id row) None CREATED INTENT_CREATED None
        (w1\<lparr>intents := intents w1 @ [row]\<rparr>)"
    have "store_ok ?w"
      using store_ok_create_idempotent_tx[OF world_ok_store[OF I] new(2)] by (simp add: Inserted(3))
    moreover have "row_created X N w1 ?w" unfolding row_created_def using new by blast
    ultimately have G: "permitted X N tr w1 ?w" by (simp add: permitted_def)
    have R': "evolves w ?w" by (rule evolves_trans[OF R permitted_evolves[OF I G]])
    have "known X N row ?w" by (rule known_row[OF permitted_world_ok[OF I G]]) simp
    then show ?thesis
      using created[OF R'] err[OF R'] err[OF R] G I
      by (simp add: Inserted(3) permitted_refl world_ok_store)
  qed
  then show ?thesis unfolding create_idempotent_def db_def wp_transaction by blast
qed

lemma wp_create:
  assumes Q: "\<And>c r w'. evolves w w' \<Longrightarrow> created_for X N key (to_canonical_intent dto) r w' \<Longrightarrow>
      Q (c, r) tr w'"
    and E: "\<And>e w'. evolves w w' \<Longrightarrow> E e tr w'"
  shows "meets X N (create X N uuid key dto) Q E tr w"
  unfolding create_def Let_def
proof (rule wp_await[THEN iffD2], rule wp_current_time, goal_cases)
  case (1 now w1)
  show ?case
    unfolding wp_await
    by (rule wp_create_idempotent[OF new_row_ok])
      (auto simp: new_row_def created_for_def intro: Q E evolves_trans[OF 1])
qed

lemma wp_get_intent:
  assumes "\<And>r w'. evolves w w' \<Longrightarrow> known X N r w' \<Longrightarrow> intent_id r = i \<Longrightarrow> Q r tr w'"
    and "\<And>e w'. evolves w w' \<Longrightarrow> E e tr w'"
  shows "meets X N (get_intent i) Q E tr w"
  unfolding get_intent_def by (rule wp_load) (rule assms; assumption)+

lemma wp_list_page:
  assumes "\<And>before w'. query_before q = Inr before \<Longrightarrow> evolves w w' \<Longrightarrow> world_ok X N w' \<Longrightarrow>
      Q (page_of (page_limit q) (list_rows (page_filter q before) w')) tr w'"
    and "\<And>e w'. evolves w w' \<Longrightarrow> E e tr w'"
    and "\<And>e. query_before q = Inl e \<Longrightarrow> E e tr w"
  shows "meets X N (list_page q) Q E tr w"
proof (cases "query_before q")
  case (Inl e)
  then show ?thesis by (simp add: list_page_def assms(3))
next
  case (Inr before)
  then show ?thesis
    unfolding list_page_def list_intents_def wp_await
    by (auto simp: wp_lift_result intro!: wp_db_read intro: assms(1,2))
qed

lemma wp_transitions_of:
  assumes "\<And>w'. evolves w w' \<Longrightarrow> world_ok X N w' \<Longrightarrow> Q (sort_key transition_id (trail_of i w')) tr w'"
    and "\<And>e w'. evolves w w' \<Longrightarrow> E e tr w'"
  shows "meets X N (transitions_of i) Q E tr w"
  unfolding transitions_of_def wp_await list_by_intent_def
  by (rule wp_get_intent, rule wp_db_read; rule assms; (erule (1) evolves_trans | assumption)+)

end
