(* ===== verification/System.thy ===== *)
theory System
  imports Signing Submission Intents
begin

text \<open>
  The running service: any number of requests and finality cycles, interleaved await by await,
  with a moving clock, lost database acknowledgements and restarts that lose all memory. The
  handlers of the components meet the contract of the pool, so what the contract says holds of
  every execution.
\<close>

section \<open>The process\<close>

text \<open>What the controller and the scheduler start. \<open>Create\<close> carries the generated UUID.\<close>

datatype api_call =
    CallCreate string string create_intent_dto
  | CallGet string
  | CallList list_query
  | CallTransitions string
  | CallPrepare string
  | CallSignature string string
  | CallSubmit string
  | CallCycle

definition forget :: "'r svc \<Rightarrow> unit svc" where
  "forget p = await p (\<lambda>_. Return ())"

fun handler :: "codec \<Rightarrow> nat \<Rightarrow> api_call \<Rightarrow> unit svc" where
  "handler X N (CallCreate uuid key dto) = forget (create X N uuid key dto)"
| "handler X N (CallGet i) = forget (get_intent i)"
| "handler X N (CallList q) = forget (list_page q)"
| "handler X N (CallTransitions i) = forget (transitions_of i)"
| "handler X N (CallPrepare i) = forget (prepare X N i)"
| "handler X N (CallSignature i tx_blob) = forget (attach_signature X i tx_blob)"
| "handler X N (CallSubmit i) = forget (submit i)"
| "handler X N CallCycle = cycle"

definition service_handler :: "codec \<Rightarrow> nat \<Rightarrow> unit svc \<Rightarrow> bool" where
  "service_handler X N p \<longleftrightarrow> (\<exists>c. p = handler X N c)"

text \<open>The clock of the host is set by others, in any direction.\<close>

definition clock_moves :: "world \<Rightarrow> world \<Rightarrow> bool" where
  "clock_moves w w' \<longleftrightarrow> (\<exists>t. w' = w\<lparr>clock := t\<rparr>)"

definition restart :: "world \<Rightarrow> world" where
  "restart w = w\<lparr>health := STARTING, recovered := False, last_successful_cycle_at := None\<rparr>"

definition fresh_database :: "world \<Rightarrow> bool" where
  "fresh_database w \<longleftrightarrow>
     intents w = [] \<and> trail w = [] \<and> health w = STARTING \<and> \<not> recovered w \<and>
     last_successful_cycle_at w = None"

definition execution ::
  "codec \<Rightarrow> nat \<Rightarrow> world \<Rightarrow> (world, env_call, env_answer) event list \<Rightarrow> bool" where
  "execution X N w log \<longleftrightarrow>
     (\<exists>ts. reachable (\<lambda>_. service_handler X N) clock_moves restart fresh_database (w, ts, log))"

section \<open>The handlers meet the contract\<close>

lemma meets_forget:
  assumes "meets X N p (\<lambda>_ _ _. True) (\<lambda>_ _ _. True) tr w"
  shows "meets X N (forget p) (\<lambda>_ _ _. True) (\<lambda>_ _ _. True) tr w"
  unfolding forget_def wp_await using assms by simp

lemma handler_meets: "meets X N (handler X N c) (\<lambda>_ _ _. True) (\<lambda>_ _ _. True) [] w"
proof (cases c)
  case (CallCreate uuid key dto)
  then show ?thesis by (simp only: handler.simps) (rule meets_forget, rule wp_create; simp)
next
  case (CallGet i)
  then show ?thesis by (simp only: handler.simps) (rule meets_forget, rule wp_get_intent; simp)
next
  case (CallList q)
  then show ?thesis by (simp only: handler.simps) (rule meets_forget, rule wp_list_page; simp)
next
  case (CallTransitions i)
  then show ?thesis by (simp only: handler.simps) (rule meets_forget, rule wp_transitions_of; simp)
next
  case (CallPrepare i)
  then show ?thesis by (simp only: handler.simps) (rule meets_forget, rule wp_prepare; simp)
next
  case (CallSignature i b)
  then show ?thesis by (simp only: handler.simps) (rule meets_forget, rule wp_attach_signature; simp)
next
  case (CallSubmit i)
  then show ?thesis by (simp only: handler.simps) (rule meets_forget, rule wp_submit; simp)
next
  case CallCycle
  then show ?thesis by (simp only: handler.simps) (rule wp_cycle; simp)
qed

lemma memory_world_ok:
  "intents w' = intents w \<Longrightarrow> trail w' = trail w \<Longrightarrow> next_transition_id w' = next_transition_id w \<Longrightarrow>
     world_ok X N w \<Longrightarrow> world_ok X N w'"
  by (auto simp: world_ok_def store_ok_def trail_ok_def intent_trail_ok_def trail_of_def)

lemma fresh_world_ok: "fresh_database w \<Longrightarrow> world_ok X N w"
  by (auto simp: fresh_database_def world_ok_def store_ok_def table_ok_def trail_ok_def)

interpretation service: rely_guarantee "service_handler X N" clock_moves restart fresh_database
  "world_ok X N" evolves "permitted X N" request_ok for X N
proof unfold_locales
  fix w w' :: world
  show "world_ok X N w \<Longrightarrow> world_ok X N (restart w)"
    by (rule memory_world_ok[of "restart w" w]) (simp_all add: restart_def)
  show "clock_moves w w' \<Longrightarrow> world_ok X N w \<Longrightarrow> world_ok X N w'"
    by (rule memory_world_ok[of w' w]) (auto simp: clock_moves_def)
  show "clock_moves w w' \<Longrightarrow> world_ok X N w \<Longrightarrow> evolves w w'"
    by (auto simp: clock_moves_def evolves_def intro: row_evolves_refl)
  show "service_handler X N p \<Longrightarrow> world_ok X N w \<Longrightarrow>
      meets X N p (\<lambda>_ _ _. True) (\<lambda>_ _ _. True) [] w" for p
    by (auto simp: service_handler_def intro: handler_meets)
qed (auto intro: evolves_trans fresh_world_ok permitted_world_ok permitted_evolves)

section \<open>What holds of every execution\<close>

lemma execution_world_ok: "execution X N w log \<Longrightarrow> world_ok X N w"
  unfolding execution_def by (blast dest: service.reachable_inv)

lemma execution_sent:
  "execution X N w log \<Longrightarrow> Sent q w1 \<in> set log \<Longrightarrow> world_ok X N w1 \<and> request_ok q w1"
  unfolding execution_def by (blast dest: service.reachable_sent)

lemma execution_committed:
  "execution X N w log \<Longrightarrow> Committed tr w1 w2 \<in> set log \<Longrightarrow>
     world_ok X N w1 \<and> permitted X N tr w1 w2"
  unfolding execution_def by (blast dest: service.reachable_committed)

lemma execution_start: "fresh_database w \<Longrightarrow> execution X N w []"
  unfolding execution_def by (blast intro: reachable.Start)

lemma execution_handler:
  assumes "execution X N w log" and "run env (handler X N c) [] w = (res, tr, w')"
  shows "execution X N w' (log @ run_events env (handler X N c) [] w)"
proof -
  have h: "service_handler X N (handler X N c)" by (auto simp: service_handler_def)
  from assms(1) obtain ts where
    "reachable (\<lambda>_. service_handler X N) clock_moves restart fresh_database (w, ts, log)"
    unfolding execution_def by blast
  from reachable_handler[where handlers = "\<lambda>_. service_handler X N", OF this h assms(2)] show ?thesis
    unfolding execution_def by blast
qed

text \<open>
  A commit seen through one intent: the row is the same, was touched, or moved by a step with its
  evidence and its audit entry.
\<close>

lemma world_ok_find: "world_ok X N w \<Longrightarrow> find_row i w = Some r \<longleftrightarrow> r \<in> set (intents w) \<and> intent_id r = i"
  by (rule find_row_Some_iff) (simp add: world_ok_def store_ok_def)

lemma put_row_find:
  assumes "world_ok X N w1" "world_ok X N w2" "intents w2 = intents (put_row new w1)"
    and "q \<in> set (intents w1)" "intent_id new = intent_id q"
    and "find_row i w1 = Some r" "find_row i w2 = Some r'"
  shows "if intent_id q = i then q = r \<and> r' = new else r' = r"
proof -
  have r: "r \<in> set (intents w1)" "intent_id r = i" and r': "r' \<in> set (intents w2)" "intent_id r' = i"
    using assms(6,7) world_ok_find[OF assms(1)] world_ok_find[OF assms(2)] by auto
  have r'2: "r' = new \<or> r' \<in> set (intents w1) \<and> intent_id r' \<noteq> intent_id new"
    using r'(1) assms(3) set_put_row by auto
  show ?thesis
    using r r' r'2 assms(4,5) world_ok_unique[OF assms(1)] by (auto split: if_splits)
qed

lemma commit_cases:
  assumes "execution X N w log" and "Committed tr w1 w2 \<in> set log"
    and "find_row i w1 = Some r" and "find_row i w2 = Some r'"
  obtains (Same) "r' = r"
  | (Touched) "row_touch tr r r'" "trail w2 = trail w1"
  | (Moved) reason d where "row_step X N tr reason r r'"
      "w2 = insert_transition i (Some (status r)) (status r') reason d (put_row r' w1)"
proof -
  from execution_committed[OF assms(1,2)] have I: "world_ok X N w1" and G: "permitted X N tr w1 w2"
    by auto
  have I2: "world_ok X N w2" by (rule permitted_world_ok[OF I G])
  have r: "r \<in> set (intents w1)" "intent_id r = i" and r': "r' \<in> set (intents w2)" "intent_id r' = i"
    using assms(3,4) world_ok_find[OF I] world_ok_find[OF I2] by auto
  from G show thesis unfolding permitted_def
  proof (elim conjE disjE)
    assume "memory_only tr w1 w2"
    then have "r' \<in> set (intents w1)" using r'(1) by (simp add: memory_only_def)
    then show thesis using Same world_ok_unique[OF I _ r(1)] r(2) r'(2) by auto
  next
    assume "row_created X N w1 w2"
    then have "r \<in> set (intents w2)" using r(1) by (auto simp: row_created_def)
    then show thesis using Same world_ok_unique[OF I2 r'(1)] r(2) r'(2) by auto
  next
    assume "row_moved X N tr w1 w2"
    then obtain q new reason d where q: "q \<in> set (intents w1)" "row_step X N tr reason q new"
        "w2 = insert_transition (intent_id q) (Some (status q)) (status new) reason d (put_row new w1)"
      unfolding row_moved_def by blast
    have "intent_id new = intent_id q"
      using row_step_identity[OF q(2)] by (simp add: same_identity_def)
    from put_row_find[OF I I2 _ q(1) this assms(3,4)] q show thesis
      using Same Moved by (auto split: if_splits)
  next
    assume "row_touched tr w1 w2"
    then obtain q new where q: "q \<in> set (intents w1)" "row_touch tr q new" "w2 = put_row new w1"
      unfolding row_touched_def by blast
    have "intent_id new = intent_id q"
      using row_touch_identity[OF q(2)] by (simp add: same_identity_def)
    from put_row_find[OF I I2 _ q(1) this assms(3,4)] q show thesis
      using Same Touched by (auto simp: put_row_def split: if_splits)
  qed
qed

lemma commit_status_change:
  assumes "execution X N w log" and "Committed tr w1 w2 \<in> set log"
    and "find_row i w1 = Some r" and "find_row i w2 = Some r'" and "status r' \<noteq> status r"
  shows "\<exists>reason d. row_step X N tr reason r r' \<and>
     w2 = insert_transition i (Some (status r)) (status r') reason d (put_row r' w1)"
  by (rule commit_cases[OF assms(1-4)]) (use assms(5) in \<open>auto dest: row_touch_status\<close>)

text \<open>A submit command goes out only after recovery, for the signed blob of a row.\<close>

lemma lookup_request_command: "lookup_request r = Some q \<Longrightarrow> command q = ''tx''"
  by (auto simp: lookup_request_def tx_request_def split: option.splits)

lemma request_ok_submit:
  assumes "request_ok (Request req) w" and "command req = ''submit''"
  obtains r b where "r \<in> set (intents w)" "signed_tx_blob r = Some b" "req = submit_request b" "recovered w"
  using assms
  by (auto simp: request_ok_def reads_def simulate_request_def dest!: lookup_request_command)

text \<open>What such a blob is: the signature of what was prepared and simulated.\<close>

lemma submit_artifacts:
  assumes I: "world_ok X N w" and C: "request_ok (Request req) w" and "command req = ''submit''"
  shows "recovered w \<and>
    (\<exists>r \<in> set (intents w). \<exists>p fee seq ledger tx pb v.
       req = submit_request (vb_tx_blob v) \<and> signed_tx_blob r = Some (vb_tx_blob v) \<and>
       intent_payload r = JObj (payload_object p) \<and> prepared_as X N p fee seq ledger tx pb \<and>
       prepared_tx_blob r = Some pb \<and> verify X (vb_tx_blob v) pb = Inr v \<and>
       simulation_engine_result r = Some ''tesSUCCESS'')"
proof -
  obtain r b where r: "r \<in> set (intents w)" "signed_tx_blob r = Some b" "req = submit_request b"
      and rec: "recovered w"
    using C assms(3) by (rule request_ok_submit)
  from row_ok_blob[OF world_ok_row[OF I r(1)] r(2)]
  have ok: "signed_ok X r" "prepared_ok X N r" "simulation_engine_result r = Some ''tesSUCCESS''"
    by auto
  then show ?thesis
    using rec r unfolding signed_ok_def prepared_ok_def by auto blast
qed

end
