(* ===== verification/Scenario.thy ===== *)
theory Scenario
  imports System
begin

text \<open>
  Concrete executions: one intent driven through the service against a scripted ledger. The codec
  here answers with constants, which satisfies every check of the service.
\<close>

definition demo_hash :: string where
  "demo_hash = replicate 64 CHR ''A''"

definition demo_codec :: codec where
  "demo_codec =
     \<lparr>x_encode = \<lambda>ob. Inr ''ABCD'',
      x_decode = \<lambda>b. Inr ((''Account'', JStr ''rAlice'')
                  # (if b = ''ABCD'' then []
                     else [(''SigningPubKey'', JStr ''ED01''), (''TxnSignature'', JStr ''FF'')])),
      x_validate = \<lambda>ob. Inr (), x_encode_for_signing = \<lambda>ob. Inr ''EE'',
      x_verify_signature = \<lambda>m s k. Inr True, x_hash_signed_tx = \<lambda>b. Inr demo_hash,
      x_derive_address = \<lambda>k. Inr ''rAlice'', x_is_classic_address = \<lambda>a. True,
      x_sha256_hex = \<lambda>t. replicate 64 CHR ''b''\<rparr>"

record demo_ledger =
  demo_index :: nat
  demo_sequence :: nat
  demo_simulation :: string
  demo_submit :: string
  demo_tx :: ledger_response

definition demo_answer :: "demo_ledger \<Rightarrow> ledger_request \<Rightarrow> ledger_response" where
  "demo_answer l req =
     (if command req = ''account_info''
      then RespOk [(''validated'', JBool True), (''ledger_index'', JNum (int (demo_index l))),
                   (''account_data'', JObj [(''Sequence'', JNum (int (demo_sequence l)))])]
      else if command req = ''ledger''
      then RespOk [(''validated'', JBool True), (''ledger_index'', JNum (int (demo_index l)))]
      else if command req = ''fee''
      then RespOk [(''drops'', JObj [(''open_ledger_fee'', JStr ''10'')])]
      else if command req = ''simulate''
      then RespOk [(''engine_result'', JStr (demo_simulation l)), (''tx_json'', JObj [])]
      else if command req = ''submit''
      then RespOk [(''engine_result'', JStr (demo_submit l))]
      else demo_tx l)"

definition demo_env :: "demo_ledger \<Rightarrow> (env_call, env_answer) answers" where
  "demo_env l tr q =
     (case q of
        Request req \<Rightarrow> Response (demo_answer l req)
      | SwitchEndpoint reason \<Rightarrow> Response (RespOk []))"

definition demo_found :: "string \<Rightarrow> nat \<Rightarrow> string \<Rightarrow> ledger_response" where
  "demo_found h n res =
     RespOk [(''hash'', JStr h), (''validated'', JBool True), (''ledger_index'', JNum (int n)),
             (''meta'', JObj [(''TransactionResult'', JStr res)])]"

definition demo_absent :: ledger_response where
  "demo_absent = RespErr ''txnNotFound'' None [(''searched_all'', JBool True)]"

definition at_ledger :: "nat \<Rightarrow> demo_ledger" where
  "at_ledger n =
     \<lparr>demo_index = n, demo_sequence = 7, demo_simulation = ''tesSUCCESS'',
      demo_submit = ''tesSUCCESS'', demo_tx = demo_absent\<rparr>"

definition empty_world :: world where
  "empty_world =
     \<lparr>intents = [], trail = [], next_transition_id = 1, clock = 0, health = STARTING,
      recovered = False, last_successful_cycle_at = None\<rparr>"

text \<open>One row in the table, the clock at zero.\<close>

definition demo_state :: "world \<Rightarrow> intent_row \<Rightarrow> bool \<Rightarrow> bool" where
  "demo_state w r rec \<longleftrightarrow> intents w = [r] \<and> recovered w = rec \<and> clock w = 0"

definition demo_payload :: payload where
  "demo_payload = PaymentIntent ''rAlice'' ''rBob'' (XrpAmount ''25'') None"

definition demo_payment :: create_intent_dto where
  "demo_payment = PaymentIntentDto ''rAlice'' ''rBob'' (XrpAmountDto ''25'') TagAbsent"

definition demo_created :: intent_row where
  "demo_created = new_row demo_codec 2 ''id1'' ''key1'' demo_payload 0"

definition demo_transaction :: object where
  "demo_transaction =
     build_transaction demo_payload
       \<lparr>param_fee = ''10'', param_sequence = 7, param_last_ledger_sequence = 120, param_network_id = 2\<rparr>"

definition demo_prepared :: intent_row where
  "demo_prepared =
     moved (request_patch (prepared_transition demo_transaction ''ABCD'' 100 7 ''10'' 120 0))
       PREPARED 0 demo_created"

definition demo_simulated :: "string \<Rightarrow> intent_row" where
  "demo_simulated er =
     moved [SimulationEngineResult er,
            SimulationResult (JObj [(''engine_result'', JStr er), (''tx_json'', JObj [])]),
            SimulatedAt 0] SIMULATED 0 demo_prepared"

definition demo_awaiting :: intent_row where
  "demo_awaiting = moved [] AWAITING_SIGNATURE 0 (demo_simulated ''tesSUCCESS'')"

definition demo_signed :: intent_row where
  "demo_signed =
     moved [SignedTxBlob ''ABCDEF'', TransactionHash demo_hash, SigningPubKey ''ED01'', SignedAt 0]
       SIGNED 0 demo_awaiting"

lemma demo_hash_ok: "hash64 demo_hash" "upper demo_hash = demo_hash"
  by code_simp+

lemma demo_sha_ok: "hash64 (upper (x_sha256_hex demo_codec t))"
proof -
  have "hash64 (upper (replicate 64 CHR ''b''))" by code_simp
  then show ?thesis by (simp add: demo_codec_def)
qed

section \<open>Evaluation\<close>

text \<open>
  A program is evaluated one await at a time: the continuations stay closed until their turn.
\<close>

lemma lazy_await: "p = p' \<Longrightarrow> await p k = await p' k" by simp
lemma lazy_try: "p = p' \<Longrightarrow> try_catch p h = try_catch p' h" by simp
lemma lazy_sync: "sync f = sync f" by simp
lemma lazy_db: "db f = db f" by simp
lemma lazy_Let: "x = y \<Longrightarrow> Let x f = Let y f" by simp

lemmas lazy = lazy_await lazy_try lazy_sync lazy_db lazy_Let

lemma run_db: "run env (db f) tr w = (case f w of (x, w') \<Rightarrow> (x, tr, w'))"
  by (simp add: db_def run_transaction split: prod.split)

lemma run_sync_once: "run env (sync f) tr w = (case f w of (x, w') \<Rightarrow> (x, tr, w'))"
  by (simp add: run_sync split: prod.split)

lemma run_forget:
  "run env (forget p) tr w =
     (case run env p tr w of
        (Inl e, tr', w') \<Rightarrow> (Inl e, tr', w')
      | (Inr x, tr', w') \<Rightarrow> (Inr (), tr', w'))"
  by (simp add: forget_def run_await split: prod.split sum.split)

lemma run_required:
  "run env (required v col) tr w =
     (case v of None \<Rightarrow> (Inl (missing_column col), tr, w) | Some x \<Rightarrow> (Inr x, tr, w))"
  by (cases v) (simp_all add: required_def)

lemma run_assert_recovered: "recovered w \<Longrightarrow> run env assert_recovered tr w = (Inr (), tr, w)"
  by (simp add: assert_recovered_def run_sync)

text \<open>The table has one row: lookups and updates are about it.\<close>

lemma find_single: "intents w = [r] \<Longrightarrow> intent_id r = i \<Longrightarrow> find_row i w = Some r"
  by (simp add: find_row_def)

lemma run_load: "find_row i w = Some r \<Longrightarrow> run env (load i) tr w = (Inr r, tr, w)"
  by (simp add: load_def find_by_id_def db_def run_simps)

lemma run_load_single: "intents w = [r] \<Longrightarrow> intent_id r = i \<Longrightarrow> run env (load i) tr w = (Inr r, tr, w)"
  by (simp add: run_load find_single)

lemma run_transition_single:
  assumes "intents w = [r]" "intent_id r = i" "status r \<in> set (request_from req)"
    "can_transition (status r) (request_to req)"
    "row_checks (moved (request_patch req) (request_to req) (clock w) r)"
  shows "run env (transition i req) tr w =
     (Inr (Some (moved (request_patch req) (request_to req) (clock w) r)), tr,
      insert_transition i (Some (status r)) (request_to req) (request_reason req)
        (request_details req) (w\<lparr>intents := [moved (request_patch req) (request_to req) (clock w) r]\<rparr>))"
proof -
  have "constraint_error [] (moved (request_patch req) (request_to req) (clock w) r) = None"
    using assms(5) by (simp add: constraint_error_None_iff)
  then have "update_row (moved (request_patch req) (request_to req) (clock w) r) w =
      Inr (w\<lparr>intents := [moved (request_patch req) (request_to req) (clock w) r]\<rparr>)"
    using assms(1,2) by (simp add: update_row_def moved_def map_where_def)
  then show ?thesis
    using assms(1-4) by (simp add: transition_def run_try_catch run_db transition_tx_def find_single moved_def Let_def)
qed

lemma run_update_single:
  assumes "intents w = [r]" "intent_id r = i" "status r \<in> set ss"
    "row_checks (touched cols (clock w) r)"
  shows "run env (update_in_status i ss cols) tr w =
     (Inr (Some (touched cols (clock w) r)), tr, w\<lparr>intents := [touched cols (clock w) r]\<rparr>)"
proof -
  have "constraint_error [] (touched cols (clock w) r) = None"
    using assms(4) by (simp add: constraint_error_None_iff)
  then have "update_row (touched cols (clock w) r) w = Inr (w\<lparr>intents := [touched cols (clock w) r]\<rparr>)"
    using assms(1,2) by (simp add: update_row_def touched_def map_where_def)
  then show ?thesis
    using assms(1-3) by (simp add: update_in_status_def run_db update_in_status_tx_def find_single touched_def Let_def)
qed

text \<open>The ledger commands against the script.\<close>

definition asked :: "demo_ledger \<Rightarrow> ledger_request \<Rightarrow> env_call \<times> env_answer" where
  "asked l q = (Request q, Response (demo_answer l q))"

definition demo_account :: "demo_ledger \<Rightarrow> account_info" where
  "demo_account l =
     \<lparr>ai_validated = True, ai_ledger_index = Some (demo_index l), ai_sequence = demo_sequence l,
      ai_regular_key = None, ai_disable_master_key = False, ai_queued_transaction_count = 0\<rparr>"

definition demo_ok :: "demo_ledger \<Rightarrow> bool" where
  "demo_ok l \<longleftrightarrow> demo_index l \<le> max_safe_integer \<and> demo_sequence l \<le> max_safe_integer"

lemmas request_defs =
  validated_ledger_request_def validated_account_request_def current_account_request_def
  fee_request_def simulate_request_def submit_request_def tx_request_def

lemmas parser_defs =
  parse_ledger_def numeric_index_def safe_uint_def nullish_def field_def as_record_def is_true_def
  optional_str_def parse_account_info_def parse_disable_master_def parse_ledger_index_def
  optional_safe_uint_def record_of_def str_def parse_open_ledger_fee_def parse_simulation_def
  parse_submit_def optional_bool_def js_has_bit_def lsf_disable_master_def

lemma run_connection_request_demo:
  "run (demo_env l) (connection_request q) tr w = (Inr (demo_answer l q), tr @ [asked l q], w)"
  by (simp add: run_connection_request demo_env_def asked_def)

lemma run_demo_ledger:
  "demo_ok l \<Longrightarrow> run (demo_env l) validated_ledger_index tr w =
     (Inr (demo_index l), tr @ [asked l validated_ledger_request], w)"
  by (simp add: validated_ledger_index_def run_await run_connection_request_demo run_lift_result
      demo_answer_def request_defs read_validated_ledger_def parser_defs demo_ok_def)

lemma run_demo_validated_account:
  "demo_ok l \<Longrightarrow> run (demo_env l) (validated_account_info a) tr w =
     (Inr (Some (demo_account l)), tr @ [asked l (validated_account_request a)], w)"
  by (simp add: validated_account_info_def run_await run_connection_request_demo run_lift_result
      demo_answer_def request_defs parser_defs demo_ok_def demo_account_def)

lemma run_demo_current_account:
  "demo_ok l \<Longrightarrow> run (demo_env l) (current_account_info a) tr w =
     (Inr (demo_account l), tr @ [asked l (current_account_request a)], w)"
  by (simp add: current_account_info_def run_await run_connection_request_demo run_lift_result
      demo_answer_def request_defs read_current_account_def parser_defs demo_ok_def demo_account_def)

lemma demo_fee_ok: "check_fee ''10'' = Inr ''10''"
  by code_simp

lemma run_demo_fee:
  "run (demo_env l) capped_open_ledger_fee tr w = (Inr ''10'', tr @ [asked l fee_request], w)"
  by (simp add: capped_open_ledger_fee_def open_ledger_fee_def run_await run_connection_request_demo
      run_lift_result demo_answer_def request_defs read_open_ledger_fee_def parser_defs demo_fee_ok)

definition demo_outcome :: "demo_ledger \<Rightarrow> simulation_outcome" where
  "demo_outcome l =
     \<lparr>sim_engine_result = demo_simulation l, sim_engine_result_message = None, sim_tx_json = Some []\<rparr>"

lemma run_demo_simulate:
  "run (demo_env l) (ledger_simulate c) tr w =
     (Inr (demo_outcome l, [(''engine_result'', JStr (demo_simulation l)), (''tx_json'', JObj [])]),
      tr @ [asked l (simulate_request c)], w)"
  by (simp add: ledger_simulate_def run_await run_connection_request_demo run_lift_result
      demo_answer_def request_defs read_simulation_def parser_defs demo_outcome_def)

definition demo_submitted :: "demo_ledger \<Rightarrow> submit_outcome" where
  "demo_submitted l =
     \<lparr>sub_engine_result = demo_submit l, sub_engine_result_message = None, sub_accepted = None,
      sub_applied = None, sub_broadcast = None, sub_kept = None, sub_queued = None\<rparr>"

lemma run_demo_submit:
  "run (demo_env l) (ledger_submit b) tr w =
     (Inr (demo_submitted l, [(''engine_result'', JStr (demo_submit l))]),
      tr @ [asked l (submit_request b)], w)"
  by (simp add: ledger_submit_def run_await run_connection_request_demo run_lift_result
      demo_answer_def request_defs read_submit_def parser_defs demo_submitted_def)

lemma run_demo_tx:
  "run (demo_env l) (ledger_tx h m n) tr w =
     (read_tx (demo_tx l), tr @ [asked l (tx_request h m n)], w)"
  by (simp add: ledger_tx_def run_await run_connection_request_demo run_lift_result
      demo_answer_def request_defs split: sum.split)

lemmas run_demo =
  run_demo_ledger run_demo_validated_account run_demo_current_account run_demo_fee
  run_demo_simulate run_demo_submit run_demo_tx

section \<open>The phases\<close>

lemma new_row_checks: "row_checks demo_created"
  using demo_sha_ok
  by (simp add: row_checks_def check_constraints_def demo_created_def new_row_def optional_check_def
      request_hash_of_def uint32_max_def)

lemma demo_create:
  "\<exists>tr w. run (demo_env l) (handler demo_codec 2 (CallCreate ''id1'' ''key1'' demo_payment)) [] empty_world =
     (Inr (), tr, w) \<and> demo_state w demo_created False"
proof -
  have "constraint_error [] demo_created = None"
    using new_row_checks by (simp add: constraint_error_None_iff)
  moreover have "to_canonical_intent demo_payment = demo_payload"
    by (simp add: demo_payment_def demo_payload_def)
  ultimately show ?thesis
    by (simp add: run_forget create_def run_await current_time_def run_sync_once create_idempotent_def
        run_db create_idempotent_tx_def empty_world_def demo_created_def[symmetric] demo_state_def
        insert_transition_def cong: lazy)
qed

lemma demo_recover:
  assumes "demo_state w demo_created False" and "demo_ok l"
  shows "\<exists>w'. run (demo_env l) (handler demo_codec 2 CallCycle) [] w =
       (Inr (), [asked l validated_ledger_request], w') \<and> demo_state w' demo_created True"
  using assms
  by (simp add: cycle_def run_await run_try_catch run_demo find_by_statuses_def run_db demo_state_def
      demo_created_def new_row_def status_groups finish_cycle_def run_sync_once cong: lazy)

lemma check_simps: "row_checks r \<longleftrightarrow>
   length (idempotency_key r) \<le> 128 \<and> submission_attempt_count r \<le> 2147483647 \<and>
   optional_check (fee_drops r) (\<lambda>f. 0 < nat_of_digits f) \<and>
   optional_check (last_ledger_sequence r) (\<lambda>l. optional_check (prepared_ledger_index r) (\<lambda>p. p < l)) \<and>
   network_id r \<le> uint32_max \<and> optional_check (prepared_ledger_index r) (\<lambda>p. 0 < p) \<and>
   hash64 (request_hash r) \<and> optional_check (transaction_hash r) hash64"
  by (simp add: row_checks_def check_constraints_def)

lemma demo_digits: "nat_of_digits ''10'' = 10"
  by code_simp

lemma at_ledger_simps [simp]:
  "demo_index (at_ledger n) = n" "demo_sequence (at_ledger n) = 7"
  "demo_simulation (at_ledger n) = ''tesSUCCESS''" "demo_submit (at_ledger n) = ''tesSUCCESS''"
  "demo_tx (at_ledger n) = demo_absent"
  by (simp_all add: at_ledger_def)

lemma demo_built:
  "build_and_encode demo_codec demo_payload
     \<lparr>param_fee = ''10'', param_sequence = 7, param_last_ledger_sequence = 120, param_network_id = 2\<rparr> =
   Inr (demo_transaction, ''ABCD'')"
proof -
  have "upper ''ABCD'' = ''ABCD''" by code_simp
  then show ?thesis
    unfolding build_and_encode_def Let_def demo_transaction_def[symmetric] validate_transaction_def
      encode_transaction_def
    by (simp add: demo_transaction_def to_canonical_form_build demo_codec_def split: payload.split)
qed

lemma demo_last_ledger: "last_ledger_sequence_for 100 = 120"
  by (simp add: last_ledger_sequence_for_def last_ledger_offset_def js_add_def max_safe_integer_def)

lemma demo_prepared_checks: "row_checks demo_prepared"
  using new_row_checks
  by (simp add: check_simps demo_prepared_def moved_def prepared_transition_def demo_digits
      optional_check_def demo_created_def new_row_def)

lemma demo_step_created:
  assumes w: "demo_state w demo_created True"
  shows "\<exists>tr1 w1. run (demo_env (at_ledger 100)) (preparation_step demo_codec 2 demo_created) tr w =
     (Inr (Advanced demo_prepared), tr1, w1) \<and> demo_state w1 demo_prepared True"
proof -
  have ok: "demo_ok (at_ledger 100)" by (simp add: demo_ok_def max_safe_integer_def)
  let ?req = "prepared_transition demo_transaction ''ABCD'' 100 7 ''10'' 120 0"
  have row: "intents w = [demo_created]" "recovered w" "clock w = 0" using w by (auto simp: demo_state_def)
  have created: "status demo_created = CREATED" "intent_id demo_created = ''id1''"
    "intent_payload demo_created = JObj (payload_object demo_payload)"
    by (simp_all add: demo_created_def new_row_def)
  have req: "request_from ?req = [CREATED]" "request_to ?req = PREPARED"
    by (simp_all add: prepared_transition_def)
  have moved: "moved (request_patch ?req) PREPARED 0 demo_created = demo_prepared"
    by (simp add: demo_prepared_def)
  have "run env (transition ''id1'' ?req) tr w =
      (Inr (Some demo_prepared), tr,
       insert_transition ''id1'' (Some CREATED) PREPARED (request_reason ?req) (request_details ?req)
         (w\<lparr>intents := [demo_prepared]\<rparr>))" for env :: "(env_call, env_answer) answers" and tr
    using run_transition_single[of w demo_created "''id1''" ?req env tr] row created req moved
      demo_prepared_checks by simp
  then show ?thesis
    unfolding preparation_step_def
    by (simp add: created prepare_created_def run_await run_assert_recovered row run_lift_result
        quiescent_sequence_def run_demo ok demo_account_def demo_last_ledger demo_built run_try_catch
        current_time_def run_sync_once Let_def demo_state_def insert_transition_def cong: lazy)
qed

lemma demo_prepared_simps [simp]:
  "status demo_prepared = PREPARED" "intent_id demo_prepared = ''id1''"
  "prepared_tx_json demo_prepared = Some (JObj demo_transaction)"
  "last_ledger_sequence demo_prepared = Some 120"
  "prepared_tx_blob demo_prepared = Some ''ABCD''" "sequence demo_prepared = Some 7"
  "prepared_ledger_index demo_prepared = Some 100"
  "source_account demo_prepared = ''rAlice''" "signed_tx_blob demo_prepared = None"
  "submission_validated_ledger demo_prepared = None"
  by (simp_all add: demo_prepared_def moved_def prepared_transition_def demo_created_def new_row_def
      demo_payload_def)

lemma demo_canonical:
  "\<exists>c. to_canonical_form demo_transaction = Inr c"
  by (simp add: demo_transaction_def to_canonical_form_build)

lemma demo_matches: "simulation_matches_prepared demo_codec demo_transaction (Some [])"
proof -
  obtain c where "to_canonical_form demo_transaction = Inr c" using demo_canonical by blast
  then show ?thesis
    by (simp add: simulation_matches_prepared_def encode_comparable_transaction_def demo_codec_def
        to_canonical_form_def field_def)
qed

lemma demo_step_prepared:
  assumes w: "demo_state w demo_prepared True"
  shows "\<exists>tr1 w1. run (demo_env (at_ledger 100)) (preparation_step demo_codec 2 demo_prepared) tr w =
     (Inr (Advanced (demo_simulated ''tesSUCCESS'')), tr1, w1) \<and>
     demo_state w1 (demo_simulated ''tesSUCCESS'') True"
proof -
  have ok: "demo_ok (at_ledger 100)" by (simp add: demo_ok_def max_safe_integer_def)
  obtain c where c: "to_canonical_form demo_transaction = Inr c" using demo_canonical by blast
  let ?raw = "[(''engine_result'', JStr ''tesSUCCESS''), (''tx_json'', JObj [])]"
  let ?req = "simulated_transition (demo_outcome (at_ledger 100)) ?raw 0"
  have row: "intents w = [demo_prepared]" "recovered w" "clock w = 0" using w by (auto simp: demo_state_def)
  have req: "request_from ?req = [PREPARED]" "request_to ?req = SIMULATED"
    by (simp_all add: simulated_transition_def)
  have moved: "moved (request_patch ?req) SIMULATED 0 demo_prepared = demo_simulated ''tesSUCCESS''"
    by (simp add: demo_simulated_def simulated_transition_def demo_outcome_def)
  have checks: "row_checks (demo_simulated ''tesSUCCESS'')"
    using demo_prepared_checks by (simp add: check_simps demo_simulated_def moved_def)
  have "run env (transition ''id1'' ?req) tr w =
      (Inr (Some (demo_simulated ''tesSUCCESS'')), tr,
       insert_transition ''id1'' (Some PREPARED) SIMULATED (request_reason ?req) (request_details ?req)
         (w\<lparr>intents := [demo_simulated ''tesSUCCESS'']\<rparr>))" for env :: "(env_call, env_answer) answers" and tr
    using run_transition_single[of w demo_prepared "''id1''" ?req env tr] row req moved checks by simp
  moreover have "sim_tx_json (demo_outcome (at_ledger 100)) = Some []" by (simp add: demo_outcome_def)
  moreover have "stored_transaction demo_prepared = Inr demo_transaction"
    by (simp add: stored_transaction_def as_record_def)
  ultimately show ?thesis
    unfolding preparation_step_def
    by (simp add: simulate_prepared_def run_await run_assert_recovered row run_lift_result
        run_required run_demo ok simulate_def c demo_matches current_time_def run_sync_once
        demo_state_def insert_transition_def cong: lazy)
qed

lemma demo_step_simulated:
  assumes w: "demo_state w (demo_simulated ''tesSUCCESS'') True"
  shows "\<exists>tr1 w1. run (demo_env (at_ledger 100))
       (preparation_step demo_codec 2 (demo_simulated ''tesSUCCESS'')) tr w =
     (Inr (Advanced demo_awaiting), tr1, w1) \<and> demo_state w1 demo_awaiting True"
proof -
  let ?r = "demo_simulated ''tesSUCCESS''"
  have row: "intents w = [?r]" "recovered w" "clock w = 0" using w by (auto simp: demo_state_def)
  have r: "status ?r = SIMULATED" "intent_id ?r = ''id1''" "simulation_engine_result ?r = Some ''tesSUCCESS''"
    by (simp_all add: demo_simulated_def moved_def)
  have checks: "row_checks (moved [] AWAITING_SIGNATURE 0 ?r)"
    using demo_prepared_checks by (simp add: check_simps demo_simulated_def moved_def)
  have "run env (transition ''id1'' \<lparr>request_from = [SIMULATED], request_to = AWAITING_SIGNATURE,
        request_reason = SIMULATION_PASSED, request_details = None, request_patch = []\<rparr>) tr w =
      (Inr (Some demo_awaiting), tr,
       insert_transition ''id1'' (Some SIMULATED) AWAITING_SIGNATURE SIMULATION_PASSED None
         (w\<lparr>intents := [demo_awaiting]\<rparr>))" for env :: "(env_call, env_answer) answers" and tr
    using run_transition_single[of w ?r "''id1''" _ env tr] row r checks by (simp add: demo_awaiting_def)
  then show ?thesis
    unfolding preparation_step_def
    by (simp add: r complete_simulation_def run_await run_required
        demo_state_def row insert_transition_def cong: lazy)
qed

lemma demo_awaiting_simps [simp]:
  "status demo_awaiting = AWAITING_SIGNATURE" "intent_id demo_awaiting = ''id1''"
  "last_ledger_sequence demo_awaiting = Some 120" "prepared_tx_blob demo_awaiting = Some ''ABCD''"
  "sequence demo_awaiting = Some 7" "prepared_ledger_index demo_awaiting = Some 100"
  "source_account demo_awaiting = ''rAlice''" "signed_tx_blob demo_awaiting = None"
  "submission_validated_ledger demo_awaiting = None"
  by (simp_all add: demo_awaiting_def demo_simulated_def moved_def)

lemma run_prepare_loop:
  assumes "0 < n"
  shows "run env (prepare_loop X N i n r) tr w =
     (case run env (preparation_step X N r) tr w of
        (Inl e, tr', w') \<Rightarrow> (Inl e, tr', w')
      | (Inr Done, tr', w') \<Rightarrow> (Inr r, tr', w')
      | (Inr (Advanced r'), tr', w') \<Rightarrow> run env (prepare_loop X N i (n - 1) r') tr' w'
      | (Inr Reread, tr', w') \<Rightarrow> run env (await (load i) (prepare_loop X N i (n - 1))) tr' w')"
  using assms by (cases n) (auto simp: run_await split: prod.split sum.split step_result.split)

lemma demo_prepare:
  assumes w: "demo_state w demo_created True"
  shows "\<exists>tr w'. run (demo_env (at_ledger 100)) (handler demo_codec 2 (CallPrepare ''id1'')) [] w =
     (Inr (), tr, w') \<and> demo_state w' demo_awaiting True"
proof -
  let ?run = "\<lambda>r. run (demo_env (at_ledger 100)) (preparation_step demo_codec 2 r)"
  obtain tr1 w1 where 1: "?run demo_created [] w = (Inr (Advanced demo_prepared), tr1, w1)"
      "demo_state w1 demo_prepared True"
    using demo_step_created[OF w] by blast
  obtain tr2 w2 where 2: "?run demo_prepared tr1 w1 = (Inr (Advanced (demo_simulated ''tesSUCCESS'')), tr2, w2)"
      "demo_state w2 (demo_simulated ''tesSUCCESS'') True"
    using demo_step_prepared[OF 1(2)] by blast
  obtain tr3 w3 where 3: "?run (demo_simulated ''tesSUCCESS'') tr2 w2 = (Inr (Advanced demo_awaiting), tr3, w3)"
      "demo_state w3 demo_awaiting True"
    using demo_step_simulated[OF 2(2)] by blast
  have 4: "?run demo_awaiting tr3 w3 = (Inr Done, tr3, w3)" by (simp add: preparation_step_def)
  have "run (demo_env (at_ledger 100)) (load ''id1'') [] w = (Inr demo_created, [], w)"
    using w by (intro run_load_single) (auto simp: demo_state_def demo_created_def new_row_def)
  then show ?thesis
    by (simp add: run_forget prepare_def run_await max_preparation_steps_def run_prepare_loop 1 2 3 4)
qed

lemma demo_verify:
  "verify demo_codec ''abcdef'' ''ABCD'' =
     Inr \<lparr>vb_tx_blob = ''ABCDEF'', vb_transaction_hash = demo_hash, vb_signing_pub_key = ''ED01''\<rparr>"
proof -
  have u: "upper ''abcdef'' = ''ABCDEF''" "upper ''ED01'' = ''ED01''" "upper ''ABCD'' = ''ABCD''"
    "is_hex ''abcdef''"
    by code_simp+
  then have "well_formed_hex ''abcdef''" by (simp add: well_formed_hex_def signed_tx_max_hex_chars_def)
  then show ?thesis
    by (simp add: verify_def u demo_codec_def demo_hash_ok decode_signed_def required_string_def field_def
        refuse_forbidden_def forbidden_signed_fields_def has_field_def same_as_prepared_def
        signature_fields_def without_def signature_valid_def)
qed

lemma demo_signed_checks: "row_checks demo_signed"
  using demo_prepared_checks
  by (simp add: check_simps demo_signed_def demo_awaiting_def demo_simulated_def moved_def
      optional_check_def demo_hash_ok)

lemma demo_signed_simps [simp]:
  "status demo_signed = SIGNED" "intent_id demo_signed = ''id1''"
  "last_ledger_sequence demo_signed = Some 120" "prepared_ledger_index demo_signed = Some 100"
  "sequence demo_signed = Some 7" "source_account demo_signed = ''rAlice''"
  "signed_tx_blob demo_signed = Some ''ABCDEF''" "transaction_hash demo_signed = Some demo_hash"
  "submission_validated_ledger demo_signed = None" "created_at demo_signed = 0"
  "submission_attempt_count demo_signed = 0"
  by (simp_all add: demo_signed_def demo_awaiting_def demo_simulated_def demo_prepared_def moved_def
      prepared_transition_def demo_created_def new_row_def demo_payload_def)

lemma demo_sign:
  assumes w: "demo_state w demo_awaiting True"
  shows "\<exists>tr w'. run (demo_env (at_ledger 101)) (handler demo_codec 2 (CallSignature ''id1'' ''abcdef'')) [] w =
     (Inr (), tr, w') \<and> demo_state w' demo_signed True"
proof -
  have ok: "demo_ok (at_ledger 101)" by (simp add: demo_ok_def max_safe_integer_def)
  let ?v = "\<lparr>vb_tx_blob = ''ABCDEF'', vb_transaction_hash = demo_hash, vb_signing_pub_key = ''ED01''\<rparr>"
  let ?req = "signed_transition ?v 0"
  have row: "intents w = [demo_awaiting]" "recovered w" "clock w = 0" using w by (auto simp: demo_state_def)
  have req: "request_from ?req = [AWAITING_SIGNATURE]" "request_to ?req = SIGNED"
    by (simp_all add: signed_transition_def)
  have moved: "moved (request_patch ?req) SIGNED 0 demo_awaiting = demo_signed"
    by (simp add: demo_signed_def signed_transition_def)
  have "run env (transition ''id1'' ?req) tr w =
      (Inr (Some demo_signed), tr,
       insert_transition ''id1'' (Some AWAITING_SIGNATURE) SIGNED (request_reason ?req) (request_details ?req)
         (w\<lparr>intents := [demo_signed]\<rparr>))" for env :: "(env_call, env_answer) answers" and tr
    using run_transition_single[of w demo_awaiting "''id1''" ?req env tr] row req moved
      demo_signed_checks by simp
  moreover have "assert_authorized demo_codec ''ED01'' ''rAlice'' (demo_account (at_ledger 101)) = Inr ()"
    by (simp add: assert_authorized_def demo_codec_def demo_account_def)
  moreover have "settled_answer demo_awaiting ''abcdef'' = Inr None" by (simp add: settled_answer_None)
  moreover have "run env (load ''id1'') tr w = (Inr demo_awaiting, tr, w)"
    for env :: "(env_call, env_answer) answers" and tr
    by (rule run_load_single) (simp_all add: row)
  moreover have "ai_ledger_index (demo_account (at_ledger 101)) = Some 101"
    "ai_sequence (demo_account (at_ledger 101)) = 7" by (simp_all add: demo_account_def)
  ultimately show ?thesis
    by (simp add: run_forget attach_signature_def run_await run_lift_result run_assert_recovered row
        run_required demo_verify run_demo ok check_and_attach_def attach_verified_def
        current_time_def run_sync_once demo_state_def insert_transition_def cong: lazy)
qed

definition demo_recorded :: intent_row where
  "demo_recorded = touched [SubmissionValidatedLedger 102] 0 demo_signed"

definition demo_sent :: intent_row where
  "demo_sent =
     moved (recorded (demo_submitted (at_ledger 102)) [(''engine_result'', JStr ''tesSUCCESS'')] 0
              @ [SubmittedAt 0]) SUBMITTED 0 demo_recorded"

lemma demo_sent_simps [simp]:
  "status demo_sent = SUBMITTED" "intent_id demo_sent = ''id1''"
  "last_ledger_sequence demo_sent = Some 120" "prepared_ledger_index demo_sent = Some 100"
  "sequence demo_sent = Some 7" "source_account demo_sent = ''rAlice''"
  "signed_tx_blob demo_sent = Some ''ABCDEF''" "transaction_hash demo_sent = Some demo_hash"
  "created_at demo_sent = 0"
  by (simp_all add: demo_sent_def demo_recorded_def touched_def moved_def recorded_def)

lemma demo_sent_checks: "row_checks demo_recorded" "row_checks demo_sent"
  using demo_signed_checks
  by (simp_all add: check_simps demo_sent_def demo_recorded_def touched_def moved_def recorded_def)

lemma run_submit_loop:
  assumes "0 < n" and "status r = SIGNED"
  shows "run env (submit_loop i n r) tr w =
     (case run env (submit_signed r) tr w of
        (Inl e, tr', w') \<Rightarrow> (Inl e, tr', w')
      | (Inr (Some r'), tr', w') \<Rightarrow> (Inr r', tr', w')
      | (Inr None, tr', w') \<Rightarrow> run env (await (load i) (submit_loop i (n - 1))) tr' w')"
  using assms by (cases n) (auto simp: run_await split: prod.split sum.split option.split)

lemma demo_submit_run:
  assumes w: "demo_state w demo_signed True"
  shows "\<exists>w'. run (demo_env (at_ledger 102)) (handler demo_codec 2 (CallSubmit ''id1'')) [] w =
     (Inr (), [asked (at_ledger 102) validated_ledger_request,
               asked (at_ledger 102) (submit_request ''ABCDEF'')], w') \<and>
     demo_state w' demo_sent True"
proof -
  let ?env = "demo_env (at_ledger 102)"
  have ok: "demo_ok (at_ledger 102)" by (simp add: demo_ok_def max_safe_integer_def)
  have row: "intents w = [demo_signed]" "recovered w" "clock w = 0" using w by (auto simp: demo_state_def)
  have touched: "touched [SubmissionValidatedLedger 102] 0 demo_signed = demo_recorded"
    by (simp add: demo_recorded_def)
  let ?res = "demo_submitted (at_ledger 102)"
  let ?raw = "[(''engine_result'', JStr ''tesSUCCESS'')]"
  let ?req = "submission_transition SUBMITTED TRANSACTION_SUBMITTED ?res (recorded ?res ?raw 0 @ [SubmittedAt 0])"
  let ?w = "w\<lparr>intents := [demo_recorded]\<rparr>"
  have baseline: "run env (update_in_status ''id1'' [SIGNED] [SubmissionValidatedLedger 102]) tr w =
      (Inr (Some demo_recorded), tr, ?w)" for env :: "(env_call, env_answer) answers" and tr
    using run_update_single[of w demo_signed "''id1''" "[SIGNED]" "[SubmissionValidatedLedger 102]" env tr]
      row touched demo_sent_checks(1) by simp
  have rec: "status demo_recorded = SIGNED" "intent_id demo_recorded = ''id1''"
    by (simp_all add: demo_recorded_def touched_def)
  have req: "request_from ?req = [SIGNED]" "request_to ?req = SUBMITTED"
    "moved (request_patch ?req) SUBMITTED 0 demo_recorded = demo_sent"
    by (simp_all add: submission_transition_def demo_sent_def)
  have sent: "run env (transition ''id1'' ?req) tr ?w =
      (Inr (Some demo_sent), tr,
       insert_transition ''id1'' (Some SIGNED) SUBMITTED (request_reason ?req) (request_details ?req)
         (w\<lparr>intents := [demo_sent]\<rparr>))" for env :: "(env_call, env_answer) answers" and tr
    using run_transition_single[of ?w demo_recorded "''id1''" ?req env tr] row req rec
      demo_sent_checks(2) by simp
  have load: "run env (load ''id1'') tr w = (Inr demo_signed, tr, w)"
    for env :: "(env_call, env_answer) answers" and tr
    by (rule run_load_single) (simp_all add: row)
  have tes: "\<not> starts_with ''tem'' (sub_engine_result ?res)"
    by (simp add: demo_submitted_def starts_with_def)
  have attempt: "run ?env (attempt demo_signed ''ABCDEF'') tr ?w =
      (Inr (Some demo_sent), tr @ [asked (at_ledger 102) (submit_request ''ABCDEF'')],
       insert_transition ''id1'' (Some SIGNED) SUBMITTED (request_reason ?req) (request_details ?req)
         (w\<lparr>intents := [demo_sent]\<rparr>))" for tr
    using sent tes
    by (simp add: attempt_def run_await run_try_catch current_time_def run_sync_once row run_demo
        record_submission_def cong: lazy)
  have "run ?env (submit ''id1'') [] w = (Inr demo_sent,
      [asked (at_ledger 102) validated_ledger_request, asked (at_ledger 102) (submit_request ''ABCDEF'')],
      insert_transition ''id1'' (Some SIGNED) SUBMITTED (request_reason ?req) (request_details ?req)
         (w\<lparr>intents := [demo_sent]\<rparr>))"
    by (simp add: submit_def run_await load max_submission_steps_def run_submit_loop submit_signed_def
        run_assert_recovered row run_required run_demo ok baseline attempt cong: lazy)
  then show ?thesis
    by (simp add: run_forget demo_state_def insert_transition_def row)
qed

definition finds :: "nat \<Rightarrow> ledger_response \<Rightarrow> demo_ledger" where
  "finds n resp = (at_ledger n)\<lparr>demo_tx := resp\<rparr>"

lemma finds_simps [simp]:
  "demo_index (finds n resp) = n" "demo_sequence (finds n resp) = 7" "demo_tx (finds n resp) = resp"
  by (simp_all add: finds_def)

lemma demo_rows:
  assumes "demo_state w demo_sent True"
  shows "run env (find_by_statuses sequence_active_statuses) tr w = (Inr [demo_sent], tr, w)"
  using assms by (simp add: find_by_statuses_def run_db demo_state_def status_groups)

lemma demo_reconcile:
  assumes "run env (resolve_signed demo_sent n 1) tr w = (Inr (outcome, left), tr', w')"
  shows "run env (reconcile [demo_sent] n 1 False) tr w = (Inr (outcome = O_UNPROVABLE), tr', w')"
  using assms by (simp add: status_groups run_await)

text \<open>A cycle over the one submitted intent ends as its resolution does.\<close>

lemma demo_cycle:
  assumes w: "demo_state w demo_sent True" and ok: "demo_ok l"
    and resolved: "\<And>tr. \<exists>tr' w'. run (demo_env l) (resolve_signed demo_sent (demo_index l) 1) tr w =
      (Inr (outcome, left), tr', w') \<and> demo_state w' r True"
  shows "\<exists>tr w'. run (demo_env l) (handler demo_codec 2 CallCycle) [] w = (Inr (), tr, w') \<and>
     demo_state w' r True"
proof -
  let ?tr = "[asked l validated_ledger_request]"
  obtain tr' w' where r: "run (demo_env l) (resolve_signed demo_sent (demo_index l) 1) ?tr w =
      (Inr (outcome, left), tr', w')" and w': "demo_state w' r True"
    using resolved by blast
  have loop: "run (demo_env l) (reconcile [demo_sent] (demo_index l) 1 False) ?tr w =
      (Inr (outcome = O_UNPROVABLE), tr', w')"
    by (rule demo_reconcile[OF r])
  from w' show ?thesis
    by (simp add: cycle_def run_await run_try_catch run_demo ok demo_rows[OF w] loop
        finish_cycle_def run_sync_once demo_state_def del: reconcile.simps One_nat_def cong: lazy)
qed

definition demo_lookup :: tx_lookup where
  "demo_lookup =
     \<lparr>lk_hash = Some demo_hash, lk_validated = True, lk_ledger_index = Some 105,
      lk_ledger_hash = None, lk_transaction_result = Some ''tesSUCCESS'', lk_tx_json = None,
      lk_meta = Some [(''TransactionResult'', JStr ''tesSUCCESS'')]\<rparr>"

lemma demo_read_found:
  "\<exists>raw. read_tx (demo_found demo_hash 105 ''tesSUCCESS'') = Inr (Found demo_lookup raw)"
  by (simp add: demo_found_def parse_tx_def parser_defs demo_lookup_def max_safe_integer_def Let_def)

definition demo_final :: "object \<Rightarrow> intent_row" where
  "demo_final raw =
     moved (request_patch (validated_transition demo_lookup raw ''tesSUCCESS'' 105 0)) VALIDATED 0 demo_sent"

lemma demo_validate:
  assumes w: "demo_state w demo_sent True"
  shows "\<exists>tr w' raw. run (demo_env (finds 106 (demo_found demo_hash 105 ''tesSUCCESS'')))
       (handler demo_codec 2 CallCycle) [] w = (Inr (), tr, w') \<and> demo_state w' (demo_final raw) True"
proof -
  let ?l = "finds 106 (demo_found demo_hash 105 ''tesSUCCESS'')"
  have ok: "demo_ok ?l" by (simp add: demo_ok_def max_safe_integer_def)
  obtain raw where raw: "read_tx (demo_found demo_hash 105 ''tesSUCCESS'') = Inr (Found demo_lookup raw)"
    using demo_read_found by blast
  have row: "intents w = [demo_sent]" "recovered w" "clock w = 0" using w by (auto simp: demo_state_def)
  let ?req = "validated_transition demo_lookup raw ''tesSUCCESS'' 105 0"
  have req: "request_from ?req = [SIGNED, SUBMITTED]" "request_to ?req = VALIDATED"
    by (simp_all add: validated_transition_def status_groups)
  have checks: "row_checks (demo_final raw)"
    using demo_sent_checks(2)
    by (simp add: check_simps demo_final_def moved_def validated_transition_def)
  have moved: "moved (request_patch ?req) VALIDATED 0 demo_sent = demo_final raw"
    by (simp add: demo_final_def)
  have run_move: "run (demo_env ?l) (transition ''id1'' ?req) tr w =
      (Inr (Some (demo_final raw)), tr,
       insert_transition ''id1'' (Some SUBMITTED) VALIDATED (request_reason ?req) (request_details ?req)
         (w\<lparr>intents := [demo_final raw]\<rparr>))" for tr
    using run_transition_single[of w demo_sent "''id1''" ?req "demo_env ?l" tr] row req checks moved by simp
  have tes: "tes_or_tec ''tesSUCCESS''" by (simp add: tes_or_tec_def starts_with_def)
  have resolved: "\<exists>tr' w'. run (demo_env ?l) (resolve_signed demo_sent (demo_index ?l) 1) tr w =
      (Inr (O_VALIDATED, 1), tr', w') \<and> demo_state w' (demo_final raw) True" for tr
    by (simp add: resolve_signed_def run_await run_required run_demo raw apply_found_def demo_lookup_def
        demo_hash_ok tes record_validated_def current_time_def run_sync_once row
        run_move[unfolded demo_lookup_def] demo_state_def insert_transition_def cong: lazy)
  from demo_cycle[OF w ok resolved] show ?thesis by blast
qed

definition demo_expired :: intent_row where
  "demo_expired = moved [] EXPIRED 0 demo_sent"

lemma demo_expire:
  assumes w: "demo_state w demo_sent True"
  shows "\<exists>tr w'. run (demo_env (at_ledger 130)) (handler demo_codec 2 CallCycle) [] w = (Inr (), tr, w') \<and>
     demo_state w' demo_expired True"
proof -
  let ?l = "at_ledger 130"
  have ok: "demo_ok ?l" by (simp add: demo_ok_def max_safe_integer_def)
  have row: "intents w = [demo_sent]" "recovered w" "clock w = 0" using w by (auto simp: demo_state_def)
  have checks: "row_checks demo_expired"
    using demo_sent_checks(2) by (simp add: check_simps demo_expired_def moved_def)
  have absent: "read_tx demo_absent = Inr (NotFound True)"
    by (simp add: demo_absent_def field_def is_true_def)
  have acct: "ai_ledger_index (demo_account ?l) = Some 130" "ai_sequence (demo_account ?l) = 7"
    by (simp_all add: demo_account_def)
  have run_move: "run (demo_env ?l) (transition ''id1''
        \<lparr>request_from = signed_active_statuses, request_to = EXPIRED,
         request_reason = LAST_LEDGER_SEQUENCE_EXPIRED, request_details = d, request_patch = []\<rparr>) tr w =
      (Inr (Some demo_expired), tr,
       insert_transition ''id1'' (Some SUBMITTED) EXPIRED LAST_LEDGER_SEQUENCE_EXPIRED d
         (w\<lparr>intents := [demo_expired]\<rparr>))" for tr d
    using run_transition_single[of w demo_sent "''id1''" _ "demo_env ?l" tr] row checks
    by (simp add: status_groups demo_expired_def)
  have resolved: "\<exists>tr' w'. run (demo_env ?l) (resolve_signed demo_sent (demo_index ?l) 1) tr w =
      (Inr (O_EXPIRED, 1), tr', w') \<and> demo_state w' demo_expired True" for tr
    by (simp add: resolve_signed_def run_await run_required run_demo ok absent apply_proven_absent_def
        settle_absent_def acct run_move row demo_state_def insert_transition_def cong: lazy)
  from demo_cycle[OF w ok resolved] show ?thesis by blast
qed

section \<open>Histories\<close>

text \<open>An execution that ends with the one row, and the commit that gave it its status.\<close>

definition history :: "intent_row \<Rightarrow> bool" where
  "history r \<longleftrightarrow> (\<exists>w log. execution demo_codec 2 w log \<and> demo_state w r True)"

definition arrival :: "intent_row \<Rightarrow> intent_row \<Rightarrow> bool" where
  "arrival r0 r \<longleftrightarrow>
     (\<exists>w log tr1 w1 w2 r1 r2. execution demo_codec 2 w log \<and> demo_state w r True \<and>
        Committed tr1 w1 w2 \<in> set log \<and> find_row ''id1'' w1 = Some r1 \<and>
        find_row ''id1'' w2 = Some r2 \<and> row_evolves r0 r1 \<and> status r1 \<noteq> status r \<and>
        status r2 = status r)"

lemma arrival_history: "arrival r0 r \<Longrightarrow> history r"
  unfolding arrival_def history_def by blast

lemma arrivalE:
  assumes "arrival r0 r"
  obtains w log tr w1 w2 r1 r2 where "execution demo_codec 2 w log" "Committed tr w1 w2 \<in> set log"
    "find_row ''id1'' w1 = Some r1" "find_row ''id1'' w2 = Some r2" "row_evolves r0 r1"
    "status r1 \<noteq> status r" "status r2 = status r"
  using assms unfolding arrival_def by blast

lemma history_created: "history demo_created"
proof -
  obtain tr w where 1: "run (demo_env (at_ledger 100)) (handler demo_codec 2 (CallCreate ''id1'' ''key1'' demo_payment)) []
      empty_world = (Inr (), tr, w)" "demo_state w demo_created False"
    using demo_create by blast
  have "execution demo_codec 2 empty_world []"
    by (rule execution_start) (simp add: fresh_database_def empty_world_def)
  from execution_handler[OF this 1(1)] have e1: "\<exists>log. execution demo_codec 2 w log" by blast
  obtain tr2 w2 where 2: "run (demo_env (at_ledger 100)) (handler demo_codec 2 CallCycle) [] w = (Inr (), tr2, w2)"
      "demo_state w2 demo_created True"
    using demo_recover[OF 1(2), of "at_ledger 100"] by (auto simp: demo_ok_def max_safe_integer_def)
  from e1 execution_handler[OF _ 2(1)] 2(2) show ?thesis unfolding history_def by blast
qed

lemma status_commit:
  assumes e: "execution X N w log" and r: "find_row i w = Some r" "\<not> Q (status r)"
    and run: "run env (handler X N c) [] w = (res, tr, w')"
    and r': "find_row i w' = Some r'" "Q (status r')"
  shows "\<exists>log' tr1 w1 w2 r1 r2. execution X N w' log' \<and> Committed tr1 w1 w2 \<in> set log' \<and>
     find_row i w1 = Some r1 \<and> find_row i w2 = Some r2 \<and> row_evolves r r1 \<and>
     \<not> Q (status r1) \<and> Q (status r2)"
proof -
  let ?P = "\<lambda>w. \<exists>r. find_row i w = Some r \<and> \<not> Q (status r)"
  let ?events = "run_events env (handler X N c) [] w"
  have e': "execution X N w' (log @ ?events)" by (rule execution_handler[OF e run])
  from run_events_change[OF run, of ?P] r r' obtain tr1 w1 w2 where
    c: "Committed tr1 w1 w2 \<in> set ?events" "?P w1" "\<not> ?P w2" by auto
  then have c': "Committed tr1 w1 w2 \<in> set (log @ ?events)" by simp
  obtain r1 where r1: "find_row i w1 = Some r1" "\<not> Q (status r1)" using c(2) by blast
  have I: "world_ok X N w1" and G: "permitted X N tr1 w1 w2"
    using execution_committed[OF e' c'] by auto
  have "known X N r1 w2"
    using known_evolves[OF known_row[OF I] permitted_evolves[OF I G]] find_row_SomeD[OF r1(1)] by blast
  then obtain r2 where "find_row (intent_id r1) w2 = Some r2" using known_find by blast
  then have "find_row i w2 = Some r2" using find_row_SomeD[OF r1(1)] by simp
  moreover from this have "Q (status r2)" using c(3) by auto
  moreover have "evolves w w1"
    using c(1) by (rule service.wp_run_events[OF handler_meets execution_world_ok[OF e]])
  then have "known X N r w1"
    using known_evolves[OF known_row[OF execution_world_ok[OF e]]] find_row_SomeD[OF r(1)] by blast
  then have "row_evolves r r1"
    using known_now(1)[OF _ I] r1(1) find_row_SomeD[OF r(1)] by auto
  ultimately show ?thesis using e' c' r1 by blast
qed

text \<open>One more request: the history goes on, with the commit of the new status in it.\<close>

lemma history_step:
  assumes "history r"
    and "\<And>w. demo_state w r True \<Longrightarrow> \<exists>tr w'. run env (handler demo_codec 2 c) [] w = (Inr (), tr, w') \<and>
      demo_state w' r' True"
    and "intent_id r = ''id1''" "intent_id r' = ''id1''" "status r \<noteq> status r'"
  shows "arrival r r'"
proof -
  obtain w log where w: "execution demo_codec 2 w log" "demo_state w r True"
    using assms(1) unfolding history_def by blast
  obtain tr w' where w': "run env (handler demo_codec 2 c) [] w = (Inr (), tr, w')" "demo_state w' r' True"
    using assms(2)[OF w(2)] by blast
  have "find_row ''id1'' w = Some r" "find_row ''id1'' w' = Some r'"
    using w(2) w'(2) assms(3,4) by (auto simp: demo_state_def intro: find_single)
  from status_commit[OF w(1) this(1) _ w'(1) this(2), of "\<lambda>s. s = status r'"] assms(5) w'(2)
  show ?thesis unfolding arrival_def by blast
qed

lemma arrival_awaiting: "arrival demo_created demo_awaiting"
  by (rule history_step[OF history_created demo_prepare]) (simp_all add: demo_created_def new_row_def)

text \<open>The commit with which the intent left CREATED.\<close>

lemma departure_created:
  obtains w log tr w1 w2 r1 r2 where "execution demo_codec 2 w log" "Committed tr w1 w2 \<in> set log"
    "find_row ''id1'' w1 = Some r1" "find_row ''id1'' w2 = Some r2" "status r1 = CREATED"
    "status r2 \<noteq> CREATED"
proof -
  obtain w log where w: "execution demo_codec 2 w log" "demo_state w demo_created True"
    using history_created unfolding history_def by blast
  obtain tr w' where w': "run (demo_env (at_ledger 100)) (handler demo_codec 2 (CallPrepare ''id1'')) [] w =
      (Inr (), tr, w')" "demo_state w' demo_awaiting True"
    using demo_prepare[OF w(2)] by blast
  have "find_row ''id1'' w = Some demo_created" "find_row ''id1'' w' = Some demo_awaiting"
    using w(2) w'(2) by (auto simp: demo_state_def demo_created_def new_row_def intro!: find_single)
  moreover have "status demo_created = CREATED" "status demo_awaiting \<noteq> CREATED"
    by (simp_all add: demo_created_def new_row_def)
  ultimately show ?thesis
    using status_commit[OF w(1) _ _ w'(1), of "''id1''" demo_created "\<lambda>s. s \<noteq> CREATED" demo_awaiting] that
    by blast
qed

lemma arrival_signed: "arrival demo_awaiting demo_signed"
  by (rule history_step[OF arrival_history[OF arrival_awaiting] demo_sign]) simp_all

lemma demo_submits:
  "demo_state w demo_signed True \<Longrightarrow>
     \<exists>tr w'. run (demo_env (at_ledger 102)) (handler demo_codec 2 (CallSubmit ''id1'')) [] w =
     (Inr (), tr, w') \<and> demo_state w' demo_sent True"
  using demo_submit_run by blast

lemma arrival_submitted: "arrival demo_signed demo_sent"
  by (rule history_step[OF arrival_history[OF arrival_signed] demo_submits]) simp_all

lemma arrival_validated: "\<exists>raw. arrival demo_sent (demo_final raw)"
proof -
  let ?env = "demo_env (finds 106 (demo_found demo_hash 105 ''tesSUCCESS''))"
  obtain w log where w: "execution demo_codec 2 w log" "demo_state w demo_sent True"
    using arrival_history[OF arrival_submitted] unfolding history_def by blast
  obtain tr w' raw where w': "run ?env (handler demo_codec 2 CallCycle) [] w = (Inr (), tr, w')"
      "demo_state w' (demo_final raw) True"
    using demo_validate[OF w(2)] by blast
  have r: "status (demo_final raw) = VALIDATED" "intent_id (demo_final raw) = ''id1''"
    by (simp_all add: demo_final_def moved_def)
  have "find_row ''id1'' w = Some demo_sent" "find_row ''id1'' w' = Some (demo_final raw)"
    using w(2) w'(2) r by (auto simp: demo_state_def intro: find_single)
  from status_commit[OF w(1) this(1) _ w'(1) this(2), of "\<lambda>s. s = VALIDATED"] w'(2) r show ?thesis
    unfolding arrival_def by fastforce
qed

lemma arrival_expired: "arrival demo_sent demo_expired"
  by (rule history_step[OF arrival_history[OF arrival_submitted] demo_expire])
    (simp_all add: demo_expired_def moved_def)

text \<open>A submission on record.\<close>

lemma submission_sent:
  "\<exists>w log w1. execution demo_codec 2 w log \<and> Sent (Request (submit_request ''ABCDEF'')) w1 \<in> set log"
proof -
  obtain w log where w: "execution demo_codec 2 w log" "demo_state w demo_signed True"
    using arrival_history[OF arrival_signed] unfolding history_def by blast
  obtain tr w' where w': "run (demo_env (at_ledger 102)) (handler demo_codec 2 (CallSubmit ''id1'')) [] w =
      (Inr (), tr, w')" "asked (at_ledger 102) (submit_request ''ABCDEF'') \<in> set tr"
    using demo_submit_run[OF w(2)] by auto
  from run_events_sent[OF w'(1)] w'(2) execution_handler[OF w(1) w'(1)] show ?thesis
    by (fastforce simp: asked_def)
qed

end
