(* ===== verification/Idempotency.thy ===== *)
theory Idempotency
  imports Scenario
begin

text \<open>
  Creating an intent again: what the second request with a key that is in use gets, and when two
  requests count as the same (\<open>src/intents/intents.service.ts\<close>, \<open>intent-payload.ts\<close>).
\<close>

lemma create_idempotent_tx_found:
  assumes "world_ok X N w" and "known X N r w" and "idempotency_key row = idempotency_key r"
  obtains r' where "create_idempotent_tx row w = (Inr (False, r'), w)" and "row_evolves r r'"
proof -
  obtain r1 where r1: "r1 \<in> set (intents w)" "row_evolves r r1" using assms(2) by (auto simp: known_def)
  then have key: "idempotency_key r1 = idempotency_key row"
    using assms(3) by (simp add: row_evolves_def same_identity_def)
  then have "find (\<lambda>r. idempotency_key r = idempotency_key row) (intents w) \<noteq> None"
    using r1(1) by (auto simp: find_None_iff)
  then obtain r2 where f: "find (\<lambda>r. idempotency_key r = idempotency_key row) (intents w) = Some r2" by blast
  from find_Some_in[OF f] have r2: "r2 \<in> set (intents w)" "idempotency_key r2 = idempotency_key row" by auto
  have "row_clash r1 r2" using key r2(2) by (simp add: row_clash_iff)
  then have "r1 = r2"
    using assms(1) r1(1) r2(1) by (auto simp: world_ok_def store_ok_def intro: table_ok_no_clash)
  with f r1(2) show ?thesis by (intro that[of r2]) (simp_all add: create_idempotent_tx_def)
qed

section \<open>Properties\<close>

text \<open>
  C20. A request with an Idempotency-Key that is in use never creates a second intent. If it is the
  request the key was used for, by its hash, it is answered with that intent; otherwise it is
  refused; the only other outcome is a lost database connection.
\<close>

theorem create_is_idempotent:
  assumes "known X N r w"
  shows "meets X N (create X N uuid (idempotency_key r) dto)
     (\<lambda>(created, r') tr' w'. \<not> created \<and> row_evolves r r' \<and>
        request_hash r = request_hash_of X (to_canonical_intent dto))
     (\<lambda>e tr' w'. e = ConnectionLost \<or>
        (is_api_error IDEMPOTENCY_KEY_REUSED e \<and>
         request_hash r \<noteq> request_hash_of X (to_canonical_intent dto))) tr w"
proof -
  let ?hash = "request_hash_of X (to_canonical_intent dto)"
  let ?E = "\<lambda>e tr' w'. e = ConnectionLost \<or> (is_api_error IDEMPOTENCY_KEY_REUSED e \<and> request_hash r \<noteq> ?hash)"
  have insert: "meets X N (create_idempotent row)
      (\<lambda>(created, r') tr' w'. \<not> created \<and> row_evolves r r') ?E tr' w1"
    if "known X N r w1" "idempotency_key row = idempotency_key r" for row tr' w1
    unfolding create_idempotent_def db_def wp_transaction
  proof (intro allI impI, goal_cases)
    case (1 w2)
    from create_idempotent_tx_found[OF 1(2) known_evolves[OF that(1) 1(1)] that(2)]
    obtain r' where "create_idempotent_tx row w2 = (Inr (False, r'), w2)" "row_evolves r r'" .
    then show ?case using permitted_refl[OF world_ok_store[OF 1(2)]] by simp
  qed
  have hash: "request_hash r' = request_hash r" if "row_evolves r r'" for r'
    using that by (simp add: row_evolves_def same_identity_def)
  show ?thesis
    unfolding create_def Let_def
  proof (rule wp_await[THEN iffD2], rule wp_current_time, goal_cases)
    case (1 now w1)
    show ?case
      unfolding wp_await
    proof (rule wp_mono[OF insert[OF known_evolves[OF assms 1]]], goal_cases)
      case (2 res tr' w')
      then show ?case using hash[of "snd res"] by (cases res) (auto simp: new_row_def)
    qed (simp_all add: new_row_def)
  qed
qed

text \<open>
  The hash stands for the request: two requests with the same hash are the same canonical
  intent, field by field, unless two different texts have the same SHA-256.
\<close>

lemma request_hash_identifies_the_request:
  "request_hash_of X p = request_hash_of X q \<longleftrightarrow>
     p = q \<or>
     (let s = stringify (JObj (payload_object p)); t = stringify (JObj (payload_object q))
      in s \<noteq> t \<and> upper (x_sha256_hex X s) = upper (x_sha256_hex X t))"
  using stringify_payload_inj[of p q] by (auto simp: request_hash_of_def Let_def simp del: stringify.simps)

theorem create_is_idempotent_witness:
  "\<exists>w tr. known demo_codec 2 demo_sent w \<and>
     meets demo_codec 2 (create demo_codec 2 ''id9'' (idempotency_key demo_sent) demo_payment)
       (\<lambda>(created, r') tr' w'. \<not> created \<and> row_evolves demo_sent r')
       (\<lambda>e tr' w'. e = ConnectionLost \<or> is_api_error IDEMPOTENCY_KEY_REUSED e) tr w"
proof -
  obtain w log where w: "execution demo_codec 2 w log" "demo_state w demo_sent True"
    using arrival_history[OF arrival_submitted] unfolding history_def by blast
  have k: "known demo_codec 2 demo_sent w"
    using w(2) by (intro known_row[OF execution_world_ok[OF w(1)]]) (simp add: demo_state_def)
  have "meets demo_codec 2 (create demo_codec 2 ''id9'' (idempotency_key demo_sent) demo_payment)
      (\<lambda>(created, r') tr' w'. \<not> created \<and> row_evolves demo_sent r')
      (\<lambda>e tr' w'. e = ConnectionLost \<or> is_api_error IDEMPOTENCY_KEY_REUSED e) [] w"
    by (rule wp_mono[OF create_is_idempotent[OF k]]) auto
  with k show ?thesis by blast
qed

end
