(* ===== verification/Config.thy ===== *)
theory Config
  imports Requests
begin

text \<open>
  The environment variables of the process (\<open>src/config/config.validation.ts\<close>): six settings, read,
  defaulted and checked, with every problem reported at once and no value echoed. Whether a text
  is a URL and of which protocol is the parameter \<open>url_protocol\<close> (the WHATWG parser of the
  runtime; \<open>None\<close> is its thrown error).
\<close>

datatype log_level = Fatal | Error | Warn | Log | Debug | Verbose

fun level_name :: "log_level \<Rightarrow> string" where
  "level_name Fatal = ''fatal''"
| "level_name Error = ''error''"
| "level_name Warn = ''warn''"
| "level_name Log = ''log''"
| "level_name Debug = ''debug''"
| "level_name Verbose = ''verbose''"

definition config_log_levels :: "log_level list" where
  "config_log_levels = [Fatal, Error, Warn, Log, Debug, Verbose]"

record app_config =
  database_url :: string
  xrpl_network_id :: nat
  xrpl_primary_url :: string
  xrpl_secondary_url :: string
  log_level :: log_level
  port :: nat

definition default_network_id :: nat where "default_network_id = 1"
definition default_log_level :: log_level where "default_log_level = Log"
definition default_port :: nat where "default_port = 3000"

section \<open>Reading one variable\<close>

definition js_space :: "char \<Rightarrow> bool" where
  "js_space c \<longleftrightarrow> (of_char c :: nat) \<in> {9, 10, 11, 12, 13, 32, 160}"

definition trim :: "string \<Rightarrow> string" where
  "trim s = rev (dropWhile js_space (rev (dropWhile js_space s)))"

definition optional_string :: "object \<Rightarrow> string \<Rightarrow> string option" where
  "optional_string env name =
     (case field env name of
        Some (JStr v) \<Rightarrow> (let t = trim v in if t = [] then None else Some t)
      | _ \<Rightarrow> None)"

definition canonical_digits :: "string \<Rightarrow> bool" where
  "canonical_digits s \<longleftrightarrow>
     s = ''0'' \<or> (s \<noteq> [] \<and> hd s \<in> set ''123456789'' \<and> all_in ''0123456789'' s)"

text \<open>\<open>None\<close> is the refused value; \<open>Number\<close> of more than \<open>2 ^ 53 - 1\<close> is not a safe integer.\<close>

definition integer_setting :: "object \<Rightarrow> string \<Rightarrow> nat \<Rightarrow> nat \<Rightarrow> nat \<Rightarrow> nat option" where
  "integer_setting env name fallback low high =
     (case optional_string env name of
        None \<Rightarrow> Some fallback
      | Some raw \<Rightarrow>
          if \<not> canonical_digits raw then None
          else let v = nat_of_digits raw
               in if v \<le> max_safe_integer \<and> low \<le> v \<and> v \<le> high then Some v else None)"

definition is_web_socket_url :: "(string \<Rightarrow> string option) \<Rightarrow> string \<Rightarrow> bool" where
  "is_web_socket_url url_protocol v =
     (case url_protocol v of None \<Rightarrow> False | Some p \<Rightarrow> p = ''ws:'' \<or> p = ''wss:'')"

definition is_postgres_url :: "string \<Rightarrow> bool" where
  "is_postgres_url v \<longleftrightarrow> starts_with ''postgres://'' v \<or> starts_with ''postgresql://'' v"

section \<open>Validation\<close>

definition problem :: "bool \<Rightarrow> string \<Rightarrow> string list" where
  "problem b text = (if b then [text] else [])"

definition required_problem :: "string option \<Rightarrow> string \<Rightarrow> string list" where
  "required_problem v name = problem (v = None) (name @ '' is required'')"

text \<open>The settings as read, before they are judged.\<close>

definition read_log_level :: "object \<Rightarrow> log_level option" where
  "read_log_level env =
     (let raw = (case optional_string env ''LOG_LEVEL'' of
                   None \<Rightarrow> level_name default_log_level | Some l \<Rightarrow> l)
      in find (\<lambda>l. level_name l = raw) config_log_levels)"

definition uint32_limit :: nat where
  "uint32_limit = 4294967295"

definition read_network_id :: "object \<Rightarrow> nat option" where
  "read_network_id env = integer_setting env ''XRPL_NETWORK_ID'' default_network_id 0 uint32_limit"

definition read_port :: "object \<Rightarrow> nat option" where
  "read_port env = integer_setting env ''PORT'' default_port 1 65535"

definition config_problems :: "(string \<Rightarrow> string option) \<Rightarrow> object \<Rightarrow> string list" where
  "config_problems url_protocol env =
     (let db = optional_string env ''DATABASE_URL'';
          primary = optional_string env ''XRPL_PRIMARY_URL'';
          secondary = optional_string env ''XRPL_SECONDARY_URL'';
          bad = (\<lambda>v. case v of None \<Rightarrow> False | Some u \<Rightarrow> \<not> is_web_socket_url url_protocol u)
      in required_problem db ''DATABASE_URL''
         @ problem (case db of None \<Rightarrow> False | Some u \<Rightarrow> \<not> is_postgres_url u)
             ''DATABASE_URL must be a postgres:// or postgresql:// URL''
         @ required_problem primary ''XRPL_PRIMARY_URL''
         @ required_problem secondary ''XRPL_SECONDARY_URL''
         @ problem (bad primary) ''XRPL_PRIMARY_URL must be a ws:// or wss:// URL''
         @ problem (bad secondary) ''XRPL_SECONDARY_URL must be a ws:// or wss:// URL''
         @ problem (primary \<noteq> None \<and> primary = secondary)
             ''XRPL_PRIMARY_URL and XRPL_SECONDARY_URL must be different endpoints''
         @ problem (read_network_id env = None)
             ''XRPL_NETWORK_ID must be an integer between 0 and 4294967295''
         @ problem (read_port env = None) ''PORT must be an integer between 1 and 65535''
         @ problem (read_log_level env = None)
             ''LOG_LEVEL must be one of: fatal, error, warn, log, debug, verbose'')"

definition newline_dash :: string where
  "newline_dash = CHR 0x0A # ''- ''"

definition validate_config :: "(string \<Rightarrow> string option) \<Rightarrow> object \<Rightarrow> exn + app_config" where
  "validate_config url_protocol env =
     (let problems = config_problems url_protocol env
      in case (problems, optional_string env ''DATABASE_URL'', optional_string env ''XRPL_PRIMARY_URL'',
               optional_string env ''XRPL_SECONDARY_URL'', read_network_id env, read_port env,
               read_log_level env) of
           ([], Some db, Some primary, Some secondary, Some network, Some p, Some level) \<Rightarrow>
             Inr \<lparr>database_url = db, xrpl_network_id = network, xrpl_primary_url = primary,
                  xrpl_secondary_url = secondary, log_level = level, port = p\<rparr>
         | _ \<Rightarrow> Inl (PlainError (''Invalid configuration:'' @ newline_dash
                                @ join newline_dash problems)))"

definition enabled_log_levels :: "log_level \<Rightarrow> log_level list" where
  "enabled_log_levels level =
     take (length (takeWhile (\<lambda>l. l \<noteq> level) config_log_levels) + 1) config_log_levels"

section \<open>What a configuration satisfies\<close>

lemma problem_Nil_iff [simp]: "problem b t = [] \<longleftrightarrow> \<not> b"
  by (simp add: problem_def)

lemma integer_setting_bounds:
  "integer_setting env name fallback low high = Some v \<Longrightarrow> low \<le> fallback \<Longrightarrow> fallback \<le> high \<Longrightarrow>
     low \<le> v \<and> v \<le> high"
  by (auto simp: integer_setting_def Let_def split: option.splits if_splits)

lemma optional_string_trimmed:
  "optional_string env name = Some v \<Longrightarrow> v \<noteq> [] \<and> (\<exists>raw. field env name = Some (JStr raw) \<and> v = trim raw)"
  by (auto simp: optional_string_def Let_def split: option.splits json.splits if_splits)

text \<open>The texts a failed start may print.\<close>

definition config_problem_texts :: "string list" where
  "config_problem_texts =
     [''DATABASE_URL is required'', ''XRPL_PRIMARY_URL is required'',
      ''XRPL_SECONDARY_URL is required'',
      ''DATABASE_URL must be a postgres:// or postgresql:// URL'',
      ''XRPL_PRIMARY_URL must be a ws:// or wss:// URL'',
      ''XRPL_SECONDARY_URL must be a ws:// or wss:// URL'',
      ''XRPL_PRIMARY_URL and XRPL_SECONDARY_URL must be different endpoints'',
      ''XRPL_NETWORK_ID must be an integer between 0 and 4294967295'',
      ''PORT must be an integer between 1 and 65535'',
      ''LOG_LEVEL must be one of: fatal, error, warn, log, debug, verbose'']"

lemma config_problems_known: "set (config_problems up env) \<subseteq> set config_problem_texts"
  by (auto simp: config_problems_def config_problem_texts_def required_problem_def problem_def Let_def)

lemma no_problems_iff:
  "config_problems up env = [] \<longleftrightarrow>
     (\<exists>db p s n pt l. optional_string env ''DATABASE_URL'' = Some db \<and> is_postgres_url db \<and>
        optional_string env ''XRPL_PRIMARY_URL'' = Some p \<and> is_web_socket_url up p \<and>
        optional_string env ''XRPL_SECONDARY_URL'' = Some s \<and> is_web_socket_url up s \<and> p \<noteq> s \<and>
        read_network_id env = Some n \<and> read_port env = Some pt \<and> read_log_level env = Some l)"
  by (auto simp: config_problems_def required_problem_def Let_def split: option.splits)

section \<open>Properties\<close>

text \<open>
  The service starts exactly with a usable configuration: the three URLs given and of the right
  kind, two different endpoints, a 32-bit network id, a TCP port and a known log level; the
  configuration holds those values, trimmed.
\<close>

lemma config_accepted_iff:
  "validate_config up env = Inr c \<longleftrightarrow>
     optional_string env ''DATABASE_URL'' = Some (database_url c) \<and> is_postgres_url (database_url c) \<and>
     optional_string env ''XRPL_PRIMARY_URL'' = Some (xrpl_primary_url c) \<and>
     is_web_socket_url up (xrpl_primary_url c) \<and>
     optional_string env ''XRPL_SECONDARY_URL'' = Some (xrpl_secondary_url c) \<and>
     is_web_socket_url up (xrpl_secondary_url c) \<and> xrpl_primary_url c \<noteq> xrpl_secondary_url c \<and>
     read_network_id env = Some (xrpl_network_id c) \<and> xrpl_network_id c \<le> 4294967295 \<and>
     read_port env = Some (port c) \<and> 1 \<le> port c \<and> port c \<le> 65535 \<and>
     read_log_level env = Some (log_level c)" (is "?accepted \<longleftrightarrow> ?good")
proof
  assume ?accepted
  then show ?good
    using no_problems_iff[of up env]
      integer_setting_bounds[of env "''XRPL_NETWORK_ID''" default_network_id 0 uint32_limit]
      integer_setting_bounds[of env "''PORT''" default_port 1 65535]
    by (auto simp: validate_config_def Let_def read_network_id_def read_port_def uint32_limit_def
        default_network_id_def default_port_def split: list.splits option.splits)
next
  assume good: ?good
  then have "config_problems up env = []" by (auto simp: no_problems_iff)
  with good show ?accepted by (simp add: validate_config_def)
qed

text \<open>
  A refused configuration is reported by fixed texts alone: no value of the environment, such
  as the password in DATABASE_URL, can reach the message.
\<close>

lemma config_errors_echo_no_value:
  assumes "validate_config up env = Inl e"
  shows "\<exists>ps. ps \<noteq> [] \<and> set ps \<subseteq> set config_problem_texts \<and>
     e = PlainError (''Invalid configuration:'' @ newline_dash @ join newline_dash ps)"
proof (intro exI conjI)
  let ?ps = "config_problems up env"
  show "?ps \<noteq> []"
  proof
    assume none: "?ps = []"
    with assms no_problems_iff[of up env] show False by (auto simp: validate_config_def)
  qed
  show "e = PlainError (''Invalid configuration:'' @ newline_dash @ join newline_dash ?ps)"
    using assms by (auto simp: validate_config_def Let_def split: list.splits option.splits)
qed (rule config_problems_known)

lemma config_errors_echo_no_value_witness:
  "\<exists>e. validate_config (\<lambda>u. None) [(''DATABASE_URL'', JStr ''mysql://u:secret@h/d'')] = Inl e \<and>
     (\<exists>ps. ps \<noteq> [] \<and> set ps \<subseteq> set config_problem_texts \<and>
        e = PlainError (''Invalid configuration:'' @ newline_dash @ join newline_dash ps))"
proof -
  obtain e where e: "validate_config (\<lambda>u. None) [(''DATABASE_URL'', JStr ''mysql://u:secret@h/d'')] = Inl e"
    by (cases "validate_config (\<lambda>u. None) [(''DATABASE_URL'', JStr ''mysql://u:secret@h/d'')]")
      (auto simp: validate_config_def optional_string_def field_def Let_def split: list.splits option.splits)
  from config_errors_echo_no_value[OF this] e show ?thesis by blast
qed

end
