(* ===== verification/Endpoint.thy ===== *)
theory Endpoint
  imports Requests
begin

text \<open>
  May an XRPL endpoint be used at all? The narrowing of server_info and server_definitions
  (\<open>src/xrpl/types.ts\<close>) and the fixed checks on them (\<open>src/xrpl/capability.service.ts\<close>).
\<close>

section \<open>server_info and server_definitions\<close>

record validated_ledger_info =
  vl_index :: nat
  vl_age_seconds :: nat

record server_info =
  si_network_id :: "nat option"
  si_server_state :: string
  si_build_version :: string
  si_validated_ledger :: "validated_ledger_info option"

definition parse_validated_ledger :: "object option \<Rightarrow> string + validated_ledger_info option" where
  "parse_validated_ledger validated =
     (case validated of
        None \<Rightarrow> Inr None
      | Some v \<Rightarrow>
          rbind (safe_uint (field v ''seq'') ''validated_ledger.seq'') (\<lambda>index.
          rbind (safe_uint (field v ''age'') ''validated_ledger.age'') (\<lambda>age.
            Inr (Some \<lparr>vl_index = index, vl_age_seconds = age\<rparr>))))"

definition parse_server_info :: "object \<Rightarrow> string + server_info" where
  "parse_server_info result =
     rbind (record_of (field result ''info'') ''server_info.info'') (\<lambda>info.
     rbind (optional_safe_uint (field info ''network_id'') ''server_info.info.network_id'') (\<lambda>network.
     rbind (str (field info ''server_state'') ''server_info.info.server_state'') (\<lambda>state.
     rbind (parse_validated_ledger (as_record (field info ''validated_ledger''))) (\<lambda>validated.
       Inr \<lparr>si_network_id = network, si_server_state = state,
            si_build_version = (case optional_str (field info ''build_version'') of
               None \<Rightarrow> ''unknown'' | Some v \<Rightarrow> v),
            si_validated_ledger = validated\<rparr>))))"

record server_definitions =
  sd_transaction_formats :: "string list"
  sd_hash :: "string option"

definition parse_server_definitions :: "object \<Rightarrow> server_definitions" where
  "parse_server_definitions result =
     \<lparr>sd_transaction_formats = (case as_record (field result ''TRANSACTION_FORMATS'') of
        None \<Rightarrow> [] | Some formats \<Rightarrow> map fst formats),
      sd_hash = optional_str (field result ''hash'')\<rparr>"

section \<open>The checks\<close>

definition validated_ledger_max_age_seconds :: nat where
  "validated_ledger_max_age_seconds = 20"

definition usable_server_states :: "string list" where
  "usable_server_states = [''tracking'', ''full'', ''validating'', ''proposing'']"

definition required_transaction_formats :: "string list" where
  "required_transaction_formats = [''Payment'', ''TrustSet'']"

text \<open>\<open>Inl\<close> carries the reason of \<open>{ ok: false, reason }\<close>.\<close>

definition check_server_info :: "nat \<Rightarrow> server_info \<Rightarrow> string + unit" where
  "check_server_info configured info =
     (if si_network_id info \<noteq> Some configured
      then Inl (''network_id '' @ (case si_network_id info of None \<Rightarrow> ''undefined'' | Some n \<Rightarrow> decimal n)
                @ '' does not match configured '' @ decimal configured)
      else if si_server_state info \<notin> set usable_server_states
      then Inl (''server_state '' @ si_server_state info @ '' is not usable'')
      else case si_validated_ledger info of
             None \<Rightarrow> Inl ''server has no validated ledger''
           | Some v \<Rightarrow>
               if validated_ledger_max_age_seconds \<le> vl_age_seconds v
               then Inl (''validated ledger is '' @ decimal (vl_age_seconds v) @ ''s old'')
               else Inr ())"

definition check_definitions :: "server_definitions \<Rightarrow> string + unit" where
  "check_definitions definitions =
     (let missing = filter (\<lambda>n. n \<notin> set (sd_transaction_formats definitions))
                      required_transaction_formats
      in if missing = [] then Inr ()
         else Inl (''server_definitions lacks '' @ join '', '' missing))"

lemma check_server_info_Inr_iff:
  "check_server_info n info = Inr u \<longleftrightarrow>
     si_network_id info = Some n \<and> si_server_state info \<in> set usable_server_states \<and>
     (\<exists>v. si_validated_ledger info = Some v \<and> vl_age_seconds v < validated_ledger_max_age_seconds)"
  by (auto simp: check_server_info_def split: option.splits)

lemma check_definitions_Inr_iff:
  "check_definitions d = Inr u \<longleftrightarrow> set required_transaction_formats \<subseteq> set (sd_transaction_formats d)"
  by (auto simp: check_definitions_def Let_def filter_empty_conv)

text \<open>The whole verdict on the two raw answers of a server.\<close>

definition usable_answers :: "nat \<Rightarrow> object \<Rightarrow> object \<Rightarrow> server_info \<Rightarrow> bool" where
  "usable_answers n raw_info raw_definitions info \<longleftrightarrow>
     parse_server_info raw_info = Inr info \<and> check_server_info n info = Inr () \<and>
     check_definitions (parse_server_definitions raw_definitions) = Inr ()"

lemma usable_answers_cases:
  "(\<exists>info. usable_answers n raw_info raw_definitions info) \<longleftrightarrow>
     (\<exists>ob state vl index age formats.
        field raw_info ''info'' = Some (JObj ob) \<and>
        field ob ''network_id'' = Some (JNum (int n)) \<and> n \<le> max_safe_integer \<and>
        field ob ''server_state'' = Some (JStr state) \<and>
        state \<in> {''tracking'', ''full'', ''validating'', ''proposing''} \<and>
        field ob ''validated_ledger'' = Some (JObj vl) \<and>
        field vl ''seq'' = Some (JNum (int index)) \<and> index \<le> max_safe_integer \<and>
        field vl ''age'' = Some (JNum (int age)) \<and> age < 20 \<and>
        field raw_definitions ''TRANSACTION_FORMATS'' = Some (JObj formats) \<and>
        has_field formats ''Payment'' \<and> has_field formats ''TrustSet'')" (is "?usable \<longleftrightarrow> ?good")
proof
  assume ?usable
  then obtain info where u: "usable_answers n raw_info raw_definitions info" ..
  then obtain ob where ob: "field raw_info ''info'' = Some (JObj ob)"
      "field ob ''network_id'' = Some (JNum (int n))" "n \<le> max_safe_integer"
      "field ob ''server_state'' = Some (JStr (si_server_state info))"
      "parse_validated_ledger (as_record (field ob ''validated_ledger'')) = Inr (si_validated_ledger info)"
    by (auto simp: usable_answers_def parse_server_info_def check_server_info_Inr_iff
        record_of_Inr_iff optional_safe_uint_Inr_iff safe_uint_Inr_iff str_Inr_iff)
  from u obtain v where v: "si_validated_ledger info = Some v" "vl_age_seconds v < 20"
    by (auto simp: usable_answers_def check_server_info_Inr_iff validated_ledger_max_age_seconds_def)
  obtain vl where vl: "field ob ''validated_ledger'' = Some (JObj vl)"
      "field vl ''seq'' = Some (JNum (int (vl_index v)))" "vl_index v \<le> max_safe_integer"
      "field vl ''age'' = Some (JNum (int (vl_age_seconds v)))"
    using ob(5) v(1)
    by (auto simp: parse_validated_ledger_def as_record_def safe_uint_Inr_iff
        split: option.splits json.splits)
  have "set required_transaction_formats \<subseteq> set (sd_transaction_formats (parse_server_definitions raw_definitions))"
    using u by (simp add: usable_answers_def check_definitions_Inr_iff)
  then obtain formats where "field raw_definitions ''TRANSACTION_FORMATS'' = Some (JObj formats)"
      "has_field formats ''Payment''" "has_field formats ''TrustSet''"
    by (auto simp: parse_server_definitions_def required_transaction_formats_def as_record_def
        has_field_def split: option.splits json.splits)
  moreover have "si_server_state info \<in> {''tracking'', ''full'', ''validating'', ''proposing''}"
    using u by (auto simp: usable_answers_def check_server_info_Inr_iff usable_server_states_def)
  ultimately show ?good using ob(1-4) v(2) vl by blast
next
  assume ?good
  then obtain ob state vl index age formats where
    g: "field raw_info ''info'' = Some (JObj ob)" "field ob ''network_id'' = Some (JNum (int n))"
      "n \<le> max_safe_integer" "field ob ''server_state'' = Some (JStr state)"
      "state \<in> {''tracking'', ''full'', ''validating'', ''proposing''}"
      "field ob ''validated_ledger'' = Some (JObj vl)" "field vl ''seq'' = Some (JNum (int index))"
      "index \<le> max_safe_integer" "field vl ''age'' = Some (JNum (int age))" "age < 20"
      "field raw_definitions ''TRANSACTION_FORMATS'' = Some (JObj formats)"
      "has_field formats ''Payment''" "has_field formats ''TrustSet''"
    by blast
  have age: "age \<le> max_safe_integer" using g(10) by (simp add: max_safe_integer_def)
  have "parse_validated_ledger (as_record (field ob ''validated_ledger'')) =
      Inr (Some \<lparr>vl_index = index, vl_age_seconds = age\<rparr>)"
    using g(6-9) age by (simp add: parse_validated_ledger_def as_record_def safe_uint_def)
  then have "\<exists>info. parse_server_info raw_info = Inr info \<and> check_server_info n info = Inr ()"
    using g(1-5,10)
    by (simp add: parse_server_info_def record_of_def as_record_def optional_safe_uint_def safe_uint_def
        str_def check_server_info_Inr_iff usable_server_states_def validated_ledger_max_age_seconds_def)
  moreover have "check_definitions (parse_server_definitions raw_definitions) = Inr ()"
    using g(11-13)
    by (auto simp: check_definitions_Inr_iff parse_server_definitions_def as_record_def
        required_transaction_formats_def has_field_def)
  ultimately show ?usable by (auto simp: usable_answers_def)
qed

section \<open>Properties\<close>

text \<open>
  A server is usable exactly if its raw answers say so: the configured network id, one of the
  four working states, a validated ledger younger than twenty seconds, and both transaction types
  of the service among its formats. A field of another type, or a missing one, is never taken for
  a good value.
\<close>

lemma usable_answers_iff:
  "(\<exists>info. usable_answers n raw_info raw_definitions info) \<longleftrightarrow>
     (\<exists>ob state vl index age formats.
        field raw_info ''info'' = Some (JObj ob) \<and>
        field ob ''network_id'' = Some (JNum (int n)) \<and> n \<le> max_safe_integer \<and>
        field ob ''server_state'' = Some (JStr state) \<and>
        state \<in> {''tracking'', ''full'', ''validating'', ''proposing''} \<and>
        field ob ''validated_ledger'' = Some (JObj vl) \<and>
        field vl ''seq'' = Some (JNum (int index)) \<and> index \<le> max_safe_integer \<and>
        field vl ''age'' = Some (JNum (int age)) \<and> age < 20 \<and>
        field raw_definitions ''TRANSACTION_FORMATS'' = Some (JObj formats) \<and>
        has_field formats ''Payment'' \<and> has_field formats ''TrustSet'')"
  by (rule usable_answers_cases)

end
