(* ===== verification/Connection.thy ===== *)
theory Connection
  imports Pool Ledger Config Endpoint
begin

text \<open>
  The connection manager (\<open>src/xrpl/connection-manager.service.ts\<close>): one XRPL connection, two
  endpoints, failover, retry and reconnection. Its methods and event callbacks are handlers of a
  pool of their own, over its private fields. A \<open>LedgerClient\<close> is known by the number of its
  creation; what it answers is up to the environment.

  The shared promise \<open>switching\<close> is named by the handler that carries out the switch. A handler
  that joins it waits in a \<open>Join\<close> call; the model lets that call return at any time, with any
  failure or with any endpoint that a switch of this process has installed (\<open>installed\<close>), which
  covers what the promise really settles with.
\<close>

section \<open>State\<close>

datatype endpoint_name = Primary | Secondary

fun other_endpoint :: "endpoint_name \<Rightarrow> endpoint_name" where
  "other_endpoint Primary = Secondary"
| "other_endpoint Secondary = Primary"

fun endpoint_text :: "endpoint_name \<Rightarrow> string" where
  "endpoint_text Primary = ''primary''"
| "endpoint_text Secondary = ''secondary''"

definition reconnect_backoff_ms :: "nat list" where
  "reconnect_backoff_ms = [1000, 2000, 5000, 10000, 30000]"

definition reconnect_delay_ms :: "nat \<Rightarrow> nat" where
  "reconnect_delay_ms n =
     (if n < length reconnect_backoff_ms then reconnect_backoff_ms ! n else last reconnect_backoff_ms)"

record active_endpoint =
  ep_name :: endpoint_name
  ep_client :: nat
  ep_network_id :: nat
  ep_build_version :: string
  ep_definitions_hash :: "string option"

text \<open>
  The fields of the service, then the clients: how many were created, which were told to connect
  and have not finished disconnecting, and which of these were told to disconnect. The last fields
  collect what the ledger listeners were called with and the endpoints that were ever made active;
  no decision of the code depends on them.
\<close>

record conn =
  active :: "active_endpoint option"
  preferred :: endpoint_name
  switching :: "nat option"
  latest_validated_ledger :: "nat option"
  reconnect_attempt :: nat
  reconnect_timer :: "nat option"
  destroyed :: bool
  created_clients :: nat
  opened :: "nat list"
  closing :: "nat list"
  ledger_events :: "nat list"
  installed :: "active_endpoint list"

definition fresh_connection :: conn where
  "fresh_connection =
     \<lparr>active = None, preferred = Primary, switching = None, latest_validated_ledger = None,
      reconnect_attempt = 0, reconnect_timer = None, destroyed = False, created_clients = 0,
      opened = [], closing = [], ledger_events = [], installed = []\<rparr>"

text \<open>What is thrown inside: transport failures, refused endpoints, everything else.\<close>

datatype conn_exn = TransportFailure string | EndpointUnusable string | Failed exn

datatype client_call =
    ConnectClient nat string
  | ClientRequest nat ledger_request
  | DisconnectClient nat
  | Join nat

datatype client_answer = Answered ledger_response | Joined active_endpoint | Rejected conn_exn

type_synonym 'r cm = "(conn, conn_exn, client_call, client_answer, 'r) io"

definition unavailable :: conn_exn where
  "unavailable = Failed (api_error XRPL_UNAVAILABLE ''No usable XRPL endpoint is available.'')"

section \<open>Clients\<close>

definition connect_client :: "nat \<Rightarrow> string \<Rightarrow> unit cm" where
  "connect_client c url =
     Call (ConnectClient c url) (\<lambda>a. case a of Rejected e \<Rightarrow> Throw e | _ \<Rightarrow> Return ())"

definition client_request :: "nat \<Rightarrow> ledger_request \<Rightarrow> ledger_response cm" where
  "client_request c q =
     Call (ClientRequest c q) (\<lambda>a. case a of
         Answered r \<Rightarrow> Return r
       | Rejected e \<Rightarrow> Throw e
       | Joined e \<Rightarrow> Throw (TransportFailure ''no response''))"

text \<open>\<open>disconnect()\<close> never rejects.\<close>

definition disconnect_client :: "nat \<Rightarrow> unit cm" where
  "disconnect_client c =
     Call (DisconnectClient c) (\<lambda>a.
       sync (\<lambda>w. (Inr (), w\<lparr>opened := removeAll c (opened w), closing := removeAll c (closing w)\<rparr>)))"

definition join_switch :: "nat \<Rightarrow> active_endpoint cm" where
  "join_switch t =
     Call (Join t) (\<lambda>a. case a of
         Joined e \<Rightarrow>
           sync (\<lambda>w. (if e \<in> set (installed w) then Inr e else Inl unavailable, w))
       | Rejected e \<Rightarrow> Throw e
       | Answered r \<Rightarrow> Throw unavailable)"

definition expect_ok ::
  "nat \<Rightarrow> endpoint_name \<Rightarrow> string \<Rightarrow> object \<Rightarrow> object cm" where
  "expect_ok c name cmd extra =
     await (client_request c \<lparr>command = cmd, request_fields = (''api_version'', JNum 2) # extra\<rparr>)
       (\<lambda>resp. case resp of
           RespOk result \<Rightarrow> Return result
         | RespErr err m data \<Rightarrow>
             Throw (EndpointUnusable (endpoint_text name @ '' endpoint unusable: '' @ cmd
                      @ '' returned '' @ err)))"

section \<open>Bootstrap\<close>

definition endpoint_url :: "app_config \<Rightarrow> endpoint_name \<Rightarrow> string" where
  "endpoint_url cfg name =
     (case name of Primary \<Rightarrow> xrpl_primary_url cfg | Secondary \<Rightarrow> xrpl_secondary_url cfg)"

definition format_checked :: "string + 'a \<Rightarrow> 'a cm" where
  "format_checked v =
     lift_result (case v of Inl m \<Rightarrow> Inl (Failed (PlainError m)) | Inr x \<Rightarrow> Inr x)"

definition endpoint_checked :: "endpoint_name \<Rightarrow> string + unit \<Rightarrow> unit cm" where
  "endpoint_checked name v =
     lift_result (case v of
         Inl reason \<Rightarrow> Inl (EndpointUnusable (endpoint_text name @ '' endpoint unusable: '' @ reason))
       | Inr u \<Rightarrow> Inr u)"

definition create_client :: "nat cm" where
  "create_client =
     sync (\<lambda>w. (Inr (created_clients w),
       w\<lparr>created_clients := created_clients w + 1, opened := created_clients w # opened w\<rparr>))"

text \<open>server_info, checks, server_definitions, checks, subscribe.\<close>

definition interrogate ::
  "app_config \<Rightarrow> endpoint_name \<Rightarrow> nat \<Rightarrow> (server_info \<times> server_definitions) cm" where
  "interrogate cfg name c =
     await (expect_ok c name ''server_info'' []) (\<lambda>raw_info.
     await (format_checked (parse_server_info raw_info)) (\<lambda>info.
     await (endpoint_checked name (check_server_info (xrpl_network_id cfg) info)) (\<lambda>_.
     await (expect_ok c name ''server_definitions'' []) (\<lambda>raw_definitions.
     await (endpoint_checked name (check_definitions (parse_server_definitions raw_definitions))) (\<lambda>_.
     await (expect_ok c name ''subscribe'' [(''streams'', JArr [JStr ''ledger''])]) (\<lambda>_.
     Return (info, parse_server_definitions raw_definitions)))))))"

definition endpoint_of ::
  "app_config \<Rightarrow> endpoint_name \<Rightarrow> nat \<Rightarrow> server_info \<Rightarrow> server_definitions \<Rightarrow> active_endpoint" where
  "endpoint_of cfg name c info definitions =
     \<lparr>ep_name = name, ep_client = c, ep_network_id = xrpl_network_id cfg,
      ep_build_version = si_build_version info, ep_definitions_hash = sd_hash definitions\<rparr>"

definition handshake :: "app_config \<Rightarrow> endpoint_name \<Rightarrow> nat \<Rightarrow> active_endpoint cm" where
  "handshake cfg name c =
     await (connect_client c (endpoint_url cfg name)) (\<lambda>_.
     await (interrogate cfg name c) (\<lambda>(info, definitions).
     sync (\<lambda>w. (Inr (endpoint_of cfg name c info definitions),
       w\<lparr>latest_validated_ledger := map_option vl_index (si_validated_ledger info)\<rparr>))))"

definition abandon_client :: "nat \<Rightarrow> unit cm" where
  "abandon_client c =
     await (sync (\<lambda>w. (Inr (), w\<lparr>closing := c # closing w\<rparr>))) (\<lambda>_. disconnect_client c)"

definition bootstrap :: "app_config \<Rightarrow> endpoint_name \<Rightarrow> active_endpoint cm" where
  "bootstrap cfg name =
     await create_client (\<lambda>c.
       try_catch (handshake cfg name c) (\<lambda>e. await (abandon_client c) (\<lambda>_. Throw e)))"

section \<open>Connecting\<close>

definition schedule_reconnect :: "conn \<Rightarrow> conn" where
  "schedule_reconnect w =
     (if destroyed w \<or> reconnect_timer w \<noteq> None then w
      else w\<lparr>reconnect_timer := Some (reconnect_delay_ms (reconnect_attempt w)),
             reconnect_attempt := reconnect_attempt w + 1\<rparr>)"

definition give_up_connecting :: "active_endpoint cm" where
  "give_up_connecting = await (sync (\<lambda>w. (Inr (), schedule_reconnect w))) (\<lambda>_. Throw unavailable)"

definition install_endpoint :: "active_endpoint \<Rightarrow> active_endpoint cm" where
  "install_endpoint e =
     sync (\<lambda>w. (Inr e, w\<lparr>active := Some e, preferred := ep_name e, reconnect_attempt := 0,
       installed := e # installed w\<rparr>))"

fun connect_in_order :: "app_config \<Rightarrow> endpoint_name list \<Rightarrow> active_endpoint cm" where
  "connect_in_order cfg [] = give_up_connecting"
| "connect_in_order cfg (name # order) =
     await (sync (\<lambda>w. (Inr (destroyed w), w))) (\<lambda>stop.
       if stop then give_up_connecting
       else await (try_catch (await (bootstrap cfg name) (\<lambda>e. Return (Some e))) (\<lambda>_. Return None)) (\<lambda>r.
              case r of
                Some e \<Rightarrow> install_endpoint e
              | None \<Rightarrow> connect_in_order cfg order))"

text \<open>\<open>track\<close>: the switch ends, then its starter goes on with the result.\<close>

definition track :: "nat \<Rightarrow> active_endpoint cm \<Rightarrow> active_endpoint cm" where
  "track k work =
     await (try_catch (await work (\<lambda>e. Return (Inr e))) (\<lambda>x. Return (Inl x))) (\<lambda>res.
     await (sync (\<lambda>w. (Inr (), if switching w = Some k then w\<lparr>switching := None\<rparr> else w))) (\<lambda>_.
     lift_result res))"

text \<open>
  What \<open>connection\<close> and \<open>failover\<close> decide in one go, up to their first await, and the rest.
\<close>

datatype decision =
    UseActive active_endpoint
  | JoinSwitch nat
  | StartConnecting "endpoint_name list"
  | StartFailover nat endpoint_name

definition decide_connection :: "nat \<Rightarrow> conn \<Rightarrow> decision \<times> conn" where
  "decide_connection k w =
     (case active w of
        Some e \<Rightarrow> (UseActive e, w)
      | None \<Rightarrow>
          (case switching w of
             Some t \<Rightarrow> (JoinSwitch t, w)
           | None \<Rightarrow> (StartConnecting [preferred w, other_endpoint (preferred w)],
                      w\<lparr>switching := Some k\<rparr>)))"

definition decide_failover :: "nat \<Rightarrow> nat \<Rightarrow> conn \<Rightarrow> decision \<times> conn" where
  "decide_failover k failed w =
     (case switching w of
        Some t \<Rightarrow> (JoinSwitch t, w)
      | None \<Rightarrow>
          (case active w of
             Some e \<Rightarrow>
               if ep_client e = failed
               then (StartFailover failed (other_endpoint (ep_name e)),
                     w\<lparr>switching := Some k, active := None, closing := failed # closing w\<rparr>)
               else decide_connection k w
           | None \<Rightarrow> decide_connection k w))"

fun carry_out :: "nat \<Rightarrow> app_config \<Rightarrow> decision \<Rightarrow> active_endpoint cm" where
  "carry_out k cfg (UseActive e) = Return e"
| "carry_out k cfg (JoinSwitch t) = join_switch t"
| "carry_out k cfg (StartConnecting order) = track k (connect_in_order cfg order)"
| "carry_out k cfg (StartFailover c alternate) =
     track k (await (disconnect_client c) (\<lambda>_.
              await (sync (\<lambda>w. (Inr (), w\<lparr>preferred := alternate\<rparr>))) (\<lambda>_.
              connect_in_order cfg [alternate])))"

definition connection :: "nat \<Rightarrow> app_config \<Rightarrow> active_endpoint cm" where
  "connection k cfg =
     await (sync (\<lambda>w. case decide_connection k w of (d, w') \<Rightarrow> (Inr d, w'))) (carry_out k cfg)"

definition failover :: "nat \<Rightarrow> app_config \<Rightarrow> nat \<Rightarrow> active_endpoint cm" where
  "failover k cfg failed =
     await (sync (\<lambda>w. case decide_failover k failed w of (d, w') \<Rightarrow> (Inr d, w'))) (carry_out k cfg)"

section \<open>The public methods and the callbacks\<close>

text \<open>\<open>None\<close> is a transport failure; any other error goes through.\<close>

definition attempt_request :: "nat \<Rightarrow> ledger_request \<Rightarrow> ledger_response option cm" where
  "attempt_request c q =
     try_catch (await (client_request c q) (\<lambda>r. Return (Some r)))
       (\<lambda>e. case e of TransportFailure m \<Rightarrow> Return None | _ \<Rightarrow> Throw e)"

definition drop_failed :: "nat \<Rightarrow> conn \<Rightarrow> nat option \<times> conn" where
  "drop_failed c w =
     (case active w of
        Some e \<Rightarrow>
          if ep_client e = c \<and> switching w = None
          then (Some c, w\<lparr>active := None, closing := c # closing w\<rparr>) else (None, w)
      | None \<Rightarrow> (None, w))"

definition request_ledger :: "nat \<Rightarrow> app_config \<Rightarrow> ledger_request \<Rightarrow> ledger_response cm" where
  "request_ledger k cfg q =
     await (connection k cfg) (\<lambda>first.
     await (attempt_request (ep_client first) q) (\<lambda>answer. case answer of
         Some resp \<Rightarrow> Return resp
       | None \<Rightarrow>
           await (failover k cfg (ep_client first)) (\<lambda>second.
           await (attempt_request (ep_client second) q) (\<lambda>again. case again of
               Some resp \<Rightarrow> Return resp
             | None \<Rightarrow>
                 await (sync (\<lambda>w. case drop_failed (ep_client second) w of (d, w') \<Rightarrow> (Inr d, w')))
                   (\<lambda>dropped. case dropped of
                       None \<Rightarrow> Throw unavailable
                     | Some c \<Rightarrow>
                         await (disconnect_client c) (\<lambda>_.
                         await (sync (\<lambda>w. (Inr (), schedule_reconnect w))) (\<lambda>_.
                         Throw unavailable)))))))"

definition ensure_connected :: "nat \<Rightarrow> app_config \<Rightarrow> unit cm" where
  "ensure_connected k cfg = await (connection k cfg) (\<lambda>_. Return ())"

definition switch_away :: "nat \<Rightarrow> app_config \<Rightarrow> unit cm" where
  "switch_away k cfg =
     await (sync (\<lambda>w. case (case active w of
                              None \<Rightarrow> decide_connection k w
                            | Some e \<Rightarrow> decide_failover k (ep_client e) w) of
                        (d, w') \<Rightarrow> (Inr d, w')))
       (\<lambda>d. await (carry_out k cfg d) (\<lambda>_. Return ()))"

text \<open>A promise whose failure nobody looks at.\<close>

definition ignore_failure :: "active_endpoint cm \<Rightarrow> unit cm" where
  "ignore_failure p = try_catch (await p (\<lambda>_. Return ())) (\<lambda>_. Return ())"

definition handle_validated_ledger :: "nat \<Rightarrow> nat \<Rightarrow> unit cm" where
  "handle_validated_ledger c n =
     sync (\<lambda>w. (Inr (),
       if map_option ep_client (active w) \<noteq> Some c then w
       else w\<lparr>latest_validated_ledger :=
                (case latest_validated_ledger w of
                   None \<Rightarrow> Some n | Some m \<Rightarrow> Some (if m < n then n else m)),
              ledger_events := ledger_events w @ [n]\<rparr>))"

definition handle_unexpected_disconnect :: "nat \<Rightarrow> app_config \<Rightarrow> nat \<Rightarrow> unit cm" where
  "handle_unexpected_disconnect k cfg c =
     await (sync (\<lambda>w. if map_option ep_client (active w) \<noteq> Some c then (Inr None, w)
                       else case decide_failover k c w of (d, w') \<Rightarrow> (Inr (Some d), w')))
       (\<lambda>d. case d of None \<Rightarrow> Return () | Some d' \<Rightarrow> ignore_failure (carry_out k cfg d'))"

definition timer_fires :: "nat \<Rightarrow> app_config \<Rightarrow> unit cm" where
  "timer_fires k cfg =
     await (sync (\<lambda>w. if reconnect_timer w = None then (Inr None, w)
                       else case decide_connection k (w\<lparr>reconnect_timer := None\<rparr>) of
                              (d, w') \<Rightarrow> (Inr (Some d), w')))
       (\<lambda>d. case d of None \<Rightarrow> Return () | Some d' \<Rightarrow> ignore_failure (carry_out k cfg d'))"

definition release_active :: "conn \<Rightarrow> nat option \<times> conn" where
  "release_active w =
     (case active w of
        None \<Rightarrow> (None, w)
      | Some e \<Rightarrow> (Some (ep_client e), w\<lparr>active := None, closing := ep_client e # closing w\<rparr>))"

definition shutdown :: "unit cm" where
  "shutdown =
     await (sync (\<lambda>w. (Inr (switching w), w\<lparr>destroyed := True, reconnect_timer := None\<rparr>))) (\<lambda>current.
     await (case current of None \<Rightarrow> Return () | Some t \<Rightarrow> ignore_failure (join_switch t)) (\<lambda>_.
     await (sync (\<lambda>w. case release_active w of (c, w') \<Rightarrow> (Inr c, w'))) (\<lambda>released.
     case released of None \<Rightarrow> Return () | Some c \<Rightarrow> disconnect_client c)))"

record connection_status =
  cs_connected :: bool
  cs_endpoint :: "endpoint_name option"
  cs_network_id :: "nat option"
  cs_build_version :: "string option"
  cs_validated_ledger :: "nat option"
  cs_definitions_compatible :: bool
  cs_ledger_subscription :: bool

definition status_of :: "conn \<Rightarrow> connection_status" where
  "status_of w =
     \<lparr>cs_connected = active w \<noteq> None,
      cs_endpoint = map_option ep_name (active w),
      cs_network_id = map_option ep_network_id (active w),
      cs_build_version = map_option ep_build_version (active w),
      cs_validated_ledger = (if active w = None then None else latest_validated_ledger w),
      cs_definitions_compatible = active w \<noteq> None,
      cs_ledger_subscription = active w \<noteq> None\<rparr>"

definition is_ready :: "conn \<Rightarrow> bool" where
  "is_ready w \<longleftrightarrow> active w \<noteq> None"

definition active_endpoint_name :: "conn \<Rightarrow> endpoint_name option" where
  "active_endpoint_name w = map_option ep_name (active w)"

text \<open>The three ways to ask agree.\<close>

lemma status_agrees:
  "is_ready w \<longleftrightarrow> cs_connected (status_of w)" "active_endpoint_name w = cs_endpoint (status_of w)"
  "is_ready w \<longleftrightarrow> active_endpoint_name w \<noteq> None"
  by (simp_all add: is_ready_def active_endpoint_name_def status_of_def)

end
