(* ===== verification/ConnectionLaws.thy ===== *)
theory ConnectionLaws
  imports Connection
begin

text \<open>
  What the connection manager guarantees under any interleaving of its methods and callbacks: the
  contract between its handlers, one proof rule per method, and what follows for every execution.
  The handler that carries out a switch owns it: nobody else connects, installs or ends it.
\<close>

section \<open>Invariant, rely and guarantee\<close>

text \<open>Told to disconnect, or already disconnected: never to be used again.\<close>

definition dead :: "nat \<Rightarrow> conn \<Rightarrow> bool" where
  "dead c w \<longleftrightarrow> c < created_clients w \<and> (c \<in> set (opened w) \<longrightarrow> c \<in> set (closing w))"

text \<open>Clients that are up, or coming up, beside the active one.\<close>

definition spare :: "conn \<Rightarrow> nat set" where
  "spare w = set (opened w) - set (closing w) - set_option (map_option ep_client (active w))"

definition conn_ok :: "conn \<Rightarrow> bool" where
  "conn_ok w \<longleftrightarrow>
     (\<forall>c \<in> set (opened w). c < created_clients w) \<and> set (closing w) \<subseteq> set (opened w) \<and>
     (\<forall>e. active w = Some e \<longrightarrow>
        ep_client e \<in> set (opened w) \<and> ep_client e \<notin> set (closing w) \<and> spare w = {} \<and>
        preferred w = ep_name e) \<and>
     (switching w = None \<longrightarrow> spare w = {}) \<and> (\<exists>c. spare w \<subseteq> {c})"

definition conn_rely :: "nat \<Rightarrow> conn \<Rightarrow> conn \<Rightarrow> bool" where
  "conn_rely k w w' \<longleftrightarrow>
     (\<forall>c. dead c w \<longrightarrow> dead c w') \<and>
     (switching w = Some k \<longrightarrow>
        switching w' = Some k \<and> spare w' = spare w \<and> (active w' = active w \<or> active w' = None))"

text \<open>
  The endpoint passed the checks: its own client answered server_info, server_definitions and the
  subscription, and the answers are those of a usable server.
\<close>

definition asked_ok ::
  "(client_call, client_answer) trace \<Rightarrow> nat \<Rightarrow> string \<Rightarrow> object \<Rightarrow> object \<Rightarrow> bool" where
  "asked_ok tr c cmd extra result \<longleftrightarrow>
     (ClientRequest c \<lparr>command = cmd, request_fields = (''api_version'', JNum 2) # extra\<rparr>,
      Answered (RespOk result)) \<in> set tr"

definition vetted ::
  "app_config \<Rightarrow> (client_call, client_answer) trace \<Rightarrow> active_endpoint \<Rightarrow> bool" where
  "vetted cfg tr e \<longleftrightarrow>
     ep_network_id e = xrpl_network_id cfg \<and>
     (\<exists>raw_info raw_definitions raw_subscribed info.
        asked_ok tr (ep_client e) ''server_info'' [] raw_info \<and>
        asked_ok tr (ep_client e) ''server_definitions'' [] raw_definitions \<and>
        asked_ok tr (ep_client e) ''subscribe'' [(''streams'', JArr [JStr ''ledger''])] raw_subscribed \<and>
        usable_answers (xrpl_network_id cfg) raw_info raw_definitions info \<and>
        ep_build_version e = si_build_version info)"

definition conn_guarantee ::
  "app_config \<Rightarrow> nat \<Rightarrow> (client_call, client_answer) trace \<Rightarrow> conn \<Rightarrow> conn \<Rightarrow> bool" where
  "conn_guarantee cfg k tr w w' \<longleftrightarrow>
     conn_ok w' \<and> (\<forall>j. j \<noteq> k \<longrightarrow> conn_rely j w w') \<and>
     (active w' = active w \<or> active w' = None \<or>
      active w = None \<and> (\<exists>e. active w' = Some e \<and> vetted cfg tr e))"

definition call_ok :: "client_call \<Rightarrow> conn \<Rightarrow> bool" where
  "call_ok q w =
     (case q of
        ConnectClient c url \<Rightarrow> active w = None \<and> spare w = {c}
      | DisconnectClient c \<Rightarrow> dead c w
      | _ \<Rightarrow> True)"

abbreviation obeys where
  "obeys cfg k \<equiv> wp conn_ok (conn_rely k) (conn_guarantee cfg k) call_ok"

section \<open>Ownership of the switch\<close>

definition owns_idle :: "nat \<Rightarrow> conn \<Rightarrow> bool" where
  "owns_idle k w \<longleftrightarrow> switching w = Some k \<and> spare w = {} \<and> active w = None"

definition owns_client :: "nat \<Rightarrow> nat \<Rightarrow> conn \<Rightarrow> bool" where
  "owns_client k c w \<longleftrightarrow> switching w = Some k \<and> spare w = {c} \<and> active w = None"

definition owns_settled :: "nat \<Rightarrow> conn \<Rightarrow> bool" where
  "owns_settled k w \<longleftrightarrow> switching w = Some k \<and> spare w = {}"

lemma rely_stable:
  assumes "conn_rely k w w'"
  shows "owns_idle k w \<Longrightarrow> owns_idle k w'" "owns_client k c w \<Longrightarrow> owns_client k c w'"
    "owns_settled k w \<Longrightarrow> owns_settled k w'" "dead c w \<Longrightarrow> dead c w'"
  using assms by (auto simp: conn_rely_def owns_idle_def owns_client_def owns_settled_def)

lemma conn_rely_refl [simp]: "conn_rely k w w"
  by (simp add: conn_rely_def)

lemma conn_rely_trans: "conn_rely k w w' \<Longrightarrow> conn_rely k w' w'' \<Longrightarrow> conn_rely k w w''"
  unfolding conn_rely_def by auto

lemma owns_idle_settled: "owns_idle k w \<Longrightarrow> owns_settled k w"
  by (simp add: owns_idle_def owns_settled_def)

lemma obeys_sync:
  assumes "\<And>w1. conn_rely k w w1 \<Longrightarrow> conn_ok w1 \<Longrightarrow> conn_guarantee cfg k tr w1 (snd (f w1)) \<and>
      (case fst (f w1) of Inl e \<Rightarrow> E e tr (snd (f w1)) | Inr r \<Rightarrow> Q r tr (snd (f w1)))"
  shows "obeys cfg k (sync f) Q E tr w"
  using assms by (simp add: wp_sync)

text \<open>Steps that leave clients, switch and active endpoint alone.\<close>

definition same_clients :: "conn \<Rightarrow> conn \<Rightarrow> bool" where
  "same_clients w w' \<longleftrightarrow>
     active w' = active w \<and> switching w' = switching w \<and> created_clients w' = created_clients w \<and>
     opened w' = opened w \<and> closing w' = closing w"

lemma same_clients_spare: "same_clients w w' \<Longrightarrow> spare w' = spare w"
  by (simp add: same_clients_def spare_def)

lemma same_clients_dead: "same_clients w w' \<Longrightarrow> dead c w' = dead c w"
  by (simp add: same_clients_def dead_def)

lemma guarantee_same_clients:
  assumes "conn_ok w" and "same_clients w w'" and "active w \<noteq> None \<Longrightarrow> preferred w' = preferred w"
  shows "conn_guarantee cfg k tr w w'"
  using assms same_clients_spare[OF assms(2)] same_clients_dead[OF assms(2)]
  by (auto simp: conn_guarantee_def conn_ok_def conn_rely_def same_clients_def)

lemma owns_same_clients:
  assumes "same_clients w w'"
  shows "owns_idle k w' = owns_idle k w" "owns_client k c w' = owns_client k c w"
    "owns_settled k w' = owns_settled k w" "dead c w' = dead c w"
  using assms same_clients_spare[OF assms] same_clients_dead[OF assms]
  by (auto simp: same_clients_def owns_idle_def owns_client_def owns_settled_def)

section \<open>The steps that move clients\<close>

lemma guarantee_create:
  assumes ok: "conn_ok w" and own: "owns_idle k w"
    and w': "w' = w\<lparr>created_clients := created_clients w + 1, opened := created_clients w # opened w\<rparr>"
  shows "conn_guarantee cfg k tr w w' \<and> owns_client k (created_clients w) w'"
proof -
  let ?c = "created_clients w"
  have fresh: "?c \<notin> set (opened w)" "?c \<notin> set (closing w)" using ok by (auto simp: conn_ok_def)
  have none: "active w = None" "spare w = {}" "switching w = Some k" using own by (auto simp: owns_idle_def)
  have spare': "spare w' = {?c}" using none fresh by (auto simp: spare_def w')
  have dead': "dead c w'" if "dead c w" for c using that by (auto simp: dead_def w')
  have "conn_ok w'" using ok none spare' by (auto simp: conn_ok_def w')
  then show ?thesis
    using none spare' dead' by (auto simp: conn_guarantee_def conn_rely_def owns_client_def w')
qed

lemma guarantee_remove:
  assumes ok: "conn_ok w" and d: "dead c w"
    and w': "w' = w\<lparr>opened := removeAll c (opened w), closing := removeAll c (closing w)\<rparr>"
  shows "conn_guarantee cfg k tr w w' \<and> spare w' = spare w \<and> switching w' = switching w \<and>
    active w' = active w"
proof -
  have spare': "spare w' = spare w" using d by (auto simp: spare_def dead_def w')
  have dead': "dead x w'" if "dead x w" for x using that by (auto simp: dead_def w')
  have "conn_ok w'" using ok d spare' by (auto simp: conn_ok_def dead_def w')
  then show ?thesis using spare' dead' by (auto simp: conn_guarantee_def conn_rely_def w')
qed

text \<open>The active endpoint is given up: by a failover, a failed retry or the shutdown.\<close>

lemma guarantee_release:
  assumes ok: "conn_ok w" and a: "active w = Some e" and sw: "switching w = None \<or> s = switching w"
    and w': "w' = w\<lparr>active := None, closing := ep_client e # closing w, switching := s\<rparr>"
  shows "conn_guarantee cfg k tr w w' \<and> dead (ep_client e) w' \<and> spare w' = {}"
proof -
  have e: "ep_client e \<in> set (opened w)" "spare w = {}" using ok a by (auto simp: conn_ok_def)
  then have spare': "spare w' = {}" using a by (auto simp: spare_def w')
  have dead': "dead x w'" if "dead x w" for x using that by (auto simp: dead_def w')
  have "conn_ok w'" using ok e spare' by (auto simp: conn_ok_def w')
  moreover have "dead (ep_client e) w'" using ok e by (auto simp: conn_ok_def dead_def w')
  moreover have "conn_rely j w w'" if "j \<noteq> k" for j
    using sw e spare' dead' by (auto simp: conn_rely_def w')
  ultimately show ?thesis using spare' by (auto simp: conn_guarantee_def w')
qed

lemma guarantee_abandon:
  assumes ok: "conn_ok w" and own: "owns_client k c w" and w': "w' = w\<lparr>closing := c # closing w\<rparr>"
  shows "conn_guarantee cfg k tr w w' \<and> owns_idle k w' \<and> dead c w'"
proof -
  have o: "active w = None" "switching w = Some k" "spare w = {c}" using own by (auto simp: owns_client_def)
  then have c: "c \<in> set (opened w)" by (auto simp: spare_def)
  have spare': "spare w' = {}" using o by (auto simp: spare_def w')
  have dead': "dead x w'" if "dead x w" for x using that by (auto simp: dead_def w')
  have "conn_ok w'" using ok o c spare' by (auto simp: conn_ok_def w')
  moreover have "dead c w'" using ok c by (auto simp: conn_ok_def dead_def w')
  ultimately show ?thesis
    using o spare' dead' by (auto simp: conn_guarantee_def conn_rely_def owns_idle_def w')
qed

lemma guarantee_install:
  assumes ok: "conn_ok w" and own: "owns_client k (ep_client e) w" and v: "vetted cfg tr e"
    and w': "w' = w\<lparr>active := Some e, preferred := ep_name e, reconnect_attempt := 0,
      installed := e # installed w\<rparr>"
  shows "conn_guarantee cfg k tr w w' \<and> owns_settled k w'"
proof -
  have o: "active w = None" "switching w = Some k" "spare w = {ep_client e}"
    using own by (auto simp: owns_client_def)
  then have c: "ep_client e \<in> set (opened w)" "ep_client e \<notin> set (closing w)" by (auto simp: spare_def)
  have spare': "spare w' = {}" using o by (auto simp: spare_def w')
  have dead': "dead x w'" if "dead x w" for x using that by (auto simp: dead_def w')
  have "conn_ok w'" using ok o c spare' by (auto simp: conn_ok_def w')
  then show ?thesis
    using o spare' dead' v by (auto simp: conn_guarantee_def conn_rely_def owns_settled_def w')
qed

lemma guarantee_switching:
  assumes ok: "conn_ok w" and sp: "spare w = {}" and s: "switching w = None \<or> switching w = Some k"
    and w': "w' = w\<lparr>switching := s'\<rparr>"
  shows "conn_guarantee cfg k tr w w' \<and> spare w' = {}"
proof -
  have spare': "spare w' = {}" using sp by (simp add: spare_def w')
  have "dead x w' = dead x w" for x by (simp add: dead_def w')
  moreover have "conn_ok w'" using ok spare' sp by (auto simp: conn_ok_def w')
  ultimately show ?thesis using s spare' by (auto simp: conn_guarantee_def conn_rely_def w')
qed

section \<open>The programs\<close>

lemma obeys_return: "Q x tr w \<Longrightarrow> obeys cfg k (Return x) Q E tr w"
  by simp

lemma obeys_disconnect:
  assumes d: "dead c w"
    and Q: "\<And>w1 w'. conn_rely k w w1 \<Longrightarrow> spare w' = spare w1 \<Longrightarrow> switching w' = switching w1 \<Longrightarrow>
      active w' = active w1 \<Longrightarrow> Q () (tr @ [(DisconnectClient c, a)]) w'"
  shows "wp conn_ok (conn_rely k) (conn_guarantee cfg k) call_ok
     (sync (\<lambda>w. (Inr (), w\<lparr>opened := removeAll c (opened w), closing := removeAll c (closing w)\<rparr>)))
     Q E (tr @ [(DisconnectClient c, a)]) w"
proof (rule obeys_sync)
  fix w1 assume w1: "conn_rely k w w1" and ok: "conn_ok w1"
  let ?w' = "w1\<lparr>opened := removeAll c (opened w1), closing := removeAll c (closing w1)\<rparr>"
  have "conn_guarantee cfg k (tr @ [(DisconnectClient c, a)]) w1 ?w' \<and> spare ?w' = spare w1 \<and>
      switching ?w' = switching w1 \<and> active ?w' = active w1"
    by (rule guarantee_remove[OF ok rely_stable(4)[OF w1 d] refl])
  then show "conn_guarantee cfg k (tr @ [(DisconnectClient c, a)]) w1 (snd (Inr (), ?w')) \<and>
      (case fst (Inr (), ?w') of Inl e \<Rightarrow> E e (tr @ [(DisconnectClient c, a)]) (snd (Inr (), ?w'))
       | Inr r \<Rightarrow> Q r (tr @ [(DisconnectClient c, a)]) (snd (Inr (), ?w')))"
    using Q[OF w1, of ?w'] by simp
qed

lemma obeys_disconnect_client:
  assumes d: "dead c w"
    and Q: "\<And>w1 w' tr'. extends tr tr' \<Longrightarrow> conn_rely k w w1 \<Longrightarrow> spare w' = spare w1 \<Longrightarrow>
      switching w' = switching w1 \<Longrightarrow> active w' = active w1 \<Longrightarrow> Q () tr' w'"
  shows "obeys cfg k (disconnect_client c) Q E tr w"
proof -
  have "call_ok (DisconnectClient c) w1" if "conn_rely k w w1" for w1
    using rely_stable(4)[OF that d] by (simp add: call_ok_def)
  moreover have "wp conn_ok (conn_rely k) (conn_guarantee cfg k) call_ok
     (sync (\<lambda>w. (Inr (), w\<lparr>opened := removeAll c (opened w), closing := removeAll c (closing w)\<rparr>)))
     Q E (tr @ [(DisconnectClient c, a)]) w" for a
    by (rule obeys_disconnect[OF d]) (rule Q; simp)
  ultimately show ?thesis by (simp add: disconnect_client_def)
qed

lemma obeys_client_request:
  assumes "\<And>r tr'. tr' = tr @ [(ClientRequest c q, Answered r)] \<Longrightarrow> Q r tr' w"
    and "\<And>x tr'. extends tr tr' \<Longrightarrow> E x tr' w"
  shows "obeys cfg k (client_request c q) Q E tr w"
  using assms by (auto simp: client_request_def call_ok_def split: client_answer.split)

lemma obeys_expect_ok:
  assumes "\<And>r tr'. extends tr tr' \<Longrightarrow> asked_ok tr' c cmd extra r \<Longrightarrow> Q r tr' w"
    and "\<And>x tr'. extends tr tr' \<Longrightarrow> E x tr' w"
  shows "obeys cfg k (expect_ok c name cmd extra) Q E tr w"
  unfolding expect_ok_def wp_await
  by (rule obeys_client_request) (auto intro!: assms simp: asked_ok_def extends_def split: ledger_response.split)

lemma asked_ok_extends: "asked_ok tr c cmd extra r \<Longrightarrow> extends tr tr' \<Longrightarrow> asked_ok tr' c cmd extra r"
  by (auto simp: asked_ok_def extends_def)

lemma obeys_format_checked:
  assumes "\<And>x. v = Inr x \<Longrightarrow> Q x tr w" and "\<And>e. E e tr w"
  shows "obeys cfg k (format_checked v) Q E tr w"
  using assms by (auto simp: format_checked_def wp_lift_result split: sum.split)

lemma obeys_endpoint_checked:
  assumes "v = Inr () \<Longrightarrow> Q () tr w" and "\<And>e. E e tr w"
  shows "obeys cfg k (endpoint_checked name v) Q E tr w"
  using assms by (auto simp: endpoint_checked_def wp_lift_result split: sum.split)

lemma obeys_interrogate:
  assumes Q: "\<And>info d tr'. extends tr tr' \<Longrightarrow> vetted cfg tr' (endpoint_of cfg name c info d) \<Longrightarrow>
      Q (info, d) tr' w"
    and E: "\<And>x tr'. extends tr tr' \<Longrightarrow> E x tr' w"
  shows "obeys cfg k (interrogate cfg name c) Q E tr w"
  unfolding interrogate_def
proof (rule wp_await[THEN iffD2], rule obeys_expect_ok, goal_cases)
  case (1 r1 tr1)
  note x1 = 1(1) and a1 = 1(2)
  show ?case
  proof (rule wp_await[THEN iffD2], rule obeys_format_checked, goal_cases)
    case (1 info)
    note info = 1
    show ?case
    proof (rule wp_await[THEN iffD2], rule obeys_endpoint_checked, goal_cases)
      case 1
      note checked = 1
      show ?case
      proof (rule wp_await[THEN iffD2], rule obeys_expect_ok, goal_cases)
        case (1 r2 tr2)
        note x2 = extends_trans[OF x1 1(1)] and a2 = 1(2) and a12 = asked_ok_extends[OF a1 1(1)]
        show ?case
        proof (rule wp_await[THEN iffD2], rule obeys_endpoint_checked, goal_cases)
          case 1
          have u: "usable_answers (xrpl_network_id cfg) r1 r2 info"
            using info checked 1 by (simp add: usable_answers_def)
          show ?case
          proof (rule wp_await[THEN iffD2], rule obeys_expect_ok, goal_cases)
            case (1 r3 tr3)
            have "vetted cfg tr3 (endpoint_of cfg name c info (parse_server_definitions r2))"
              using asked_ok_extends[OF a12 1(1)] asked_ok_extends[OF a2 1(1)] 1(2) u
              by (auto simp: vetted_def endpoint_of_def)
            then show ?case using Q[OF extends_trans[OF x2 1(1)]] by simp
          qed (rule E, rule extends_trans[OF x2])
        qed (rule E[OF x2])
      qed (rule E, rule extends_trans[OF x1])
    qed (rule E[OF x1])
  qed (rule E[OF x1])
qed (rule E)

lemma obeys_handshake:
  assumes own: "owns_client k c w"
    and Q: "\<And>e tr' w'. extends tr tr' \<Longrightarrow> vetted cfg tr' e \<Longrightarrow> ep_client e = c \<Longrightarrow>
      owns_client k c w' \<Longrightarrow> Q e tr' w'"
    and E: "\<And>x tr'. extends tr tr' \<Longrightarrow> E x tr' w"
  shows "obeys cfg k (handshake cfg name c) Q E tr w"
proof -
  have call: "call_ok (ConnectClient c url) w1" if "conn_rely k w w1" for w1 url
    using rely_stable(2)[OF that own] by (simp add: call_ok_def owns_client_def)
  have rest: "obeys cfg k (await (interrogate cfg name c) (\<lambda>(info, definitions).
      sync (\<lambda>w. (Inr (endpoint_of cfg name c info definitions),
        w\<lparr>latest_validated_ledger := map_option vl_index (si_validated_ledger info)\<rparr>)))) Q E tr1 w"
    if x: "extends tr tr1" for tr1
    unfolding wp_await
  proof (rule obeys_interrogate, goal_cases)
    case (1 info d tr2)
    have "obeys cfg k (sync (\<lambda>w. (Inr (endpoint_of cfg name c info d),
        w\<lparr>latest_validated_ledger := map_option vl_index (si_validated_ledger info)\<rparr>))) Q E tr2 w"
    proof (rule obeys_sync)
      fix w1 assume w1: "conn_rely k w w1" "conn_ok w1"
      let ?w' = "w1\<lparr>latest_validated_ledger := map_option vl_index (si_validated_ledger info)\<rparr>"
      have same: "same_clients w1 ?w'" by (simp add: same_clients_def)
      have "owns_client k c ?w'"
        using rely_stable(2)[OF w1(1) own] owns_same_clients(2)[OF same] by blast
      then show "conn_guarantee cfg k tr2 w1 (snd (Inr (endpoint_of cfg name c info d), ?w')) \<and>
          (case fst (Inr (endpoint_of cfg name c info d), ?w') of Inl e \<Rightarrow> E e tr2 (snd (Inr (endpoint_of cfg name c info d), ?w'))
           | Inr r \<Rightarrow> Q r tr2 (snd (Inr (endpoint_of cfg name c info d), ?w')))"
        using Q[OF extends_trans[OF x 1(1)] 1(2)] guarantee_same_clients[OF w1(2) same]
        by (simp add: endpoint_of_def)
    qed
    then show ?case by simp
  qed (rule E, rule extends_trans[OF x])
  have "obeys cfg k (connect_client c url) (\<lambda>x. obeys cfg k (await (interrogate cfg name c) (\<lambda>(info, definitions).
      sync (\<lambda>w. (Inr (endpoint_of cfg name c info definitions),
        w\<lparr>latest_validated_ledger := map_option vl_index (si_validated_ledger info)\<rparr>)))) Q E) E tr w" for url
    using call rest E by (auto simp: connect_client_def split: client_answer.split)
  then show ?thesis unfolding handshake_def wp_await[of _ _ _ _ "connect_client c url" for url] .
qed

lemma obeys_abandon:
  assumes own: "owns_client k c w"
    and Q: "\<And>tr' w'. extends tr tr' \<Longrightarrow> owns_idle k w' \<Longrightarrow> Q () tr' w'"
  shows "obeys cfg k (abandon_client c) Q E tr w"
  unfolding abandon_client_def wp_await
proof (rule obeys_sync, goal_cases)
  case (1 w1)
  let ?w' = "w1\<lparr>closing := c # closing w1\<rparr>"
  from guarantee_abandon[OF 1(2) rely_stable(2)[OF 1(1) own] refl]
  have g: "\<And>tr. conn_guarantee cfg k tr w1 ?w'" and idle: "owns_idle k ?w'" and d: "dead c ?w'" by blast+
  have "obeys cfg k (disconnect_client c) Q E tr ?w'"
  proof (rule obeys_disconnect_client[OF d], goal_cases)
    case (1 w2 w3 tr')
    then have "owns_idle k w3" using rely_stable(1)[OF 1(2) idle] by (simp add: owns_idle_def)
    then show ?case by (rule Q[OF 1(1)])
  qed
  with g show ?case by simp
qed

lemma obeys_bootstrap:
  assumes own: "owns_idle k w"
    and Q: "\<And>e tr' w'. extends tr tr' \<Longrightarrow> vetted cfg tr' e \<Longrightarrow> owns_client k (ep_client e) w' \<Longrightarrow> Q e tr' w'"
    and E: "\<And>x tr' w'. extends tr tr' \<Longrightarrow> owns_idle k w' \<Longrightarrow> E x tr' w'"
  shows "obeys cfg k (bootstrap cfg name) Q E tr w"
  unfolding bootstrap_def create_client_def wp_await
proof (rule obeys_sync, goal_cases)
  case (1 w1)
  let ?c = "created_clients w1"
  let ?w' = "w1\<lparr>created_clients := ?c + 1, opened := ?c # opened w1\<rparr>"
  from guarantee_create[OF 1(2) rely_stable(1)[OF 1(1) own] refl]
  have g: "\<And>tr. conn_guarantee cfg k tr w1 ?w'" and own': "owns_client k ?c ?w'" by blast+
  have "obeys cfg k (try_catch (handshake cfg name ?c) (\<lambda>e. await (abandon_client ?c) (\<lambda>_. Throw e)))
      Q E tr ?w'"
    unfolding wp_try_catch
  proof (rule obeys_handshake[OF own'], goal_cases)
    case (1 e tr' w2)
    then show ?case using Q by simp
  next
    case (2 x tr')
    show ?case
      unfolding wp_await by (rule obeys_abandon[OF own']) (simp add: E extends_trans[OF 2])
  qed
  with g show ?case by simp
qed

text \<open>Whatever comes of it, a switch leaves no client behind.\<close>

lemma obeys_give_up:
  assumes own: "owns_idle k w" and E: "\<And>x w'. owns_settled k w' \<Longrightarrow> E x tr w'"
  shows "obeys cfg k give_up_connecting Q E tr w"
  unfolding give_up_connecting_def wp_await
proof (rule obeys_sync, goal_cases)
  case (1 w1)
  have same: "same_clients w1 (schedule_reconnect w1)"
    by (simp add: same_clients_def schedule_reconnect_def)
  have idle: "owns_idle k (schedule_reconnect w1)"
    using rely_stable(1)[OF 1(1) own] owns_same_clients(1)[OF same] by blast
  show ?case
    using guarantee_same_clients[OF 1(2) same] E[OF owns_idle_settled[OF idle]]
    by (simp add: schedule_reconnect_def)
qed

lemma obeys_connect_in_order:
  assumes "owns_idle k w"
    and "\<And>e tr' w'. extends tr tr' \<Longrightarrow> owns_settled k w' \<Longrightarrow> Q e tr' w'"
    and "\<And>x tr' w'. extends tr tr' \<Longrightarrow> owns_settled k w' \<Longrightarrow> E x tr' w'"
  shows "obeys cfg k (connect_in_order cfg order) Q E tr w"
  using assms
proof (induction order arbitrary: tr w)
  case Nil
  then show ?case using obeys_give_up[OF Nil(1)] by simp
next
  case (Cons name order)
  note own = Cons(2) and Q = Cons(3) and E = Cons(4)
  have install: "obeys cfg k (install_endpoint e) Q E tr' w'"
    if x: "extends tr tr'" and v: "vetted cfg tr' e" and own: "owns_client k (ep_client e) w'" for e tr' w'
    unfolding install_endpoint_def
  proof (rule obeys_sync, goal_cases)
    case (1 w1)
    from guarantee_install[OF 1(2) rely_stable(2)[OF 1(1) own] v refl] Q[OF x] show ?case by simp
  qed
  show ?case
    unfolding connect_in_order.simps wp_await[of _ _ _ _ "sync f" for f]
  proof (rule obeys_sync, goal_cases)
    case (1 w1)
    have own1: "owns_idle k w1" by (rule rely_stable(1)[OF 1(1) own])
    have "obeys cfg k (await (try_catch (await (bootstrap cfg name) (\<lambda>e. Return (Some e))) (\<lambda>_. Return None))
        (\<lambda>r. case r of Some e \<Rightarrow> install_endpoint e | None \<Rightarrow> connect_in_order cfg order)) Q E tr w1"
      unfolding wp_await wp_try_catch
    proof (rule obeys_bootstrap[OF own1], goal_cases)
      case (1 e tr' w2)
      then show ?case using install[OF 1] by simp
    next
      case (2 x tr' w2)
      then show ?case using Cons.IH[OF 2(2)] Q E extends_trans[OF 2(1)] by simp
    qed
    then show ?case
      using obeys_give_up[OF own1, where E = E and tr = tr] E guarantee_same_clients[OF 1(2), of w1]
      by (simp add: same_clients_def)
  qed
qed

lemma obeys_track:
  assumes work: "\<And>Q E. (\<And>e tr' w'. owns_settled k w' \<Longrightarrow> Q e tr' w') \<Longrightarrow>
      (\<And>x tr' w'. owns_settled k w' \<Longrightarrow> E x tr' w') \<Longrightarrow> obeys cfg k work Q E tr w"
    and Q: "\<And>e tr' w'. Q e tr' w'" and E: "\<And>x tr' w'. E x tr' w'"
  shows "obeys cfg k (track k work) Q E tr w"
proof -
  have finish: "obeys cfg k (await (sync (\<lambda>w. (Inr (), if switching w = Some k then w\<lparr>switching := None\<rparr> else w)))
      (\<lambda>_. lift_result res)) Q E tr' w'" if own: "owns_settled k w'" for res tr' w'
    unfolding wp_await
  proof (rule obeys_sync, goal_cases)
    case (1 w1)
    have s: "switching w1 = Some k" "spare w1 = {}"
      using rely_stable(3)[OF 1(1) own] by (auto simp: owns_settled_def)
    from guarantee_switching[OF 1(2) s(2), of k "w1\<lparr>switching := None\<rparr>" None] s Q E show ?case
      by (simp add: wp_lift_result split: sum.split)
  qed
  show ?thesis
    unfolding track_def wp_await[of _ _ _ _ "try_catch p h" for p h] wp_try_catch wp_await[of _ _ _ _ work]
    by (rule work; simp del: wp_await) (use finish[where res = "Inr e" for e] finish[where res = "Inl x" for x] in simp_all)
qed

lemma obeys_carry_out:
  assumes "\<And>e tr' w'. Q e tr' w'" and "\<And>x tr' w'. E x tr' w'"
    and "\<And>order. d = StartConnecting order \<Longrightarrow> owns_idle k w"
    and "\<And>c alt. d = StartFailover c alt \<Longrightarrow> owns_idle k w \<and> dead c w"
  shows "obeys cfg k (carry_out k cfg d) Q E tr w"
proof (cases d)
  case (UseActive e)
  then show ?thesis by (simp add: assms(1))
next
  case (JoinSwitch t)
  then show ?thesis
    by (auto simp: join_switch_def call_ok_def wp_sync same_clients_def assms(1,2)
        intro!: guarantee_same_clients split: client_answer.split)
next
  case (StartConnecting order)
  have "obeys cfg k (track k (connect_in_order cfg order)) Q E tr w"
    by (rule obeys_track; (rule obeys_connect_in_order[OF assms(3)[OF StartConnecting]])?) (use assms in blast)+
  with StartConnecting show ?thesis by simp
next
  case (StartFailover c alt)
  then have own: "owns_idle k w" and dead: "dead c w" using assms(4) by blast+
  have "obeys cfg k (track k (await (disconnect_client c) (\<lambda>_.
      await (sync (\<lambda>w. (Inr (), w\<lparr>preferred := alt\<rparr>))) (\<lambda>_. connect_in_order cfg [alt])))) Q E tr w"
  proof (rule obeys_track)
    fix Q' :: "active_endpoint \<Rightarrow> (client_call, client_answer) trace \<Rightarrow> conn \<Rightarrow> bool"
      and E' :: "conn_exn \<Rightarrow> (client_call, client_answer) trace \<Rightarrow> conn \<Rightarrow> bool"
    assume Q': "\<And>e tr' w'. owns_settled k w' \<Longrightarrow> Q' e tr' w'"
      and E': "\<And>x tr' w'. owns_settled k w' \<Longrightarrow> E' x tr' w'"
    have rest: "obeys cfg k (await (sync (\<lambda>w. (Inr (), w\<lparr>preferred := alt\<rparr>)))
        (\<lambda>_. connect_in_order cfg [alt])) Q' E' tr' w'" if own: "owns_idle k w'" for tr' w'
      unfolding wp_await
    proof (rule obeys_sync, goal_cases)
      case (1 w1)
      have same: "same_clients w1 (w1\<lparr>preferred := alt\<rparr>)" by (simp add: same_clients_def)
      have idle: "owns_idle k (w1\<lparr>preferred := alt\<rparr>)" "active w1 = None"
        using rely_stable(1)[OF 1(1) own] owns_same_clients(1)[OF same] by (auto simp: owns_idle_def)
      have "obeys cfg k (connect_in_order cfg [alt]) Q' E' tr' (w1\<lparr>preferred := alt\<rparr>)"
        by (rule obeys_connect_in_order[OF idle(1)]) (auto intro: Q' E')
      then show ?case using guarantee_same_clients[OF 1(2) same] idle(2) by (simp del: connect_in_order.simps)
    qed
    show "obeys cfg k (await (disconnect_client c) (\<lambda>_.
        await (sync (\<lambda>w. (Inr (), w\<lparr>preferred := alt\<rparr>))) (\<lambda>_. connect_in_order cfg [alt]))) Q' E' tr w"
      unfolding wp_await[of _ _ _ _ "disconnect_client c"]
    proof (rule obeys_disconnect_client[OF dead], goal_cases)
      case (1 w1 w2 tr')
      then have "owns_idle k w2" using rely_stable(1)[OF 1(2) own] by (simp add: owns_idle_def)
      then show ?case by (rule rest)
    qed
  qed (rule assms(1) assms(2))+
  with StartFailover show ?thesis by (simp del: connect_in_order.simps)
qed

text \<open>A decision is a permitted step and leaves its handler what it needs to carry it out.\<close>

definition decided :: "app_config \<Rightarrow> nat \<Rightarrow> conn \<Rightarrow> decision \<times> conn \<Rightarrow> bool" where
  "decided cfg k w dw \<longleftrightarrow> (case dw of (d, w') \<Rightarrow>
     (\<forall>tr. conn_guarantee cfg k tr w w') \<and>
     (\<forall>order. d = StartConnecting order \<longrightarrow> owns_idle k w') \<and>
     (\<forall>c alt. d = StartFailover c alt \<longrightarrow> owns_idle k w' \<and> dead c w'))"

lemma decided_same: "conn_ok w \<Longrightarrow> (\<And>order. d \<noteq> StartConnecting order) \<Longrightarrow>
    (\<And>c alt. d \<noteq> StartFailover c alt) \<Longrightarrow> decided cfg k w (d, w)"
  by (auto simp: decided_def intro!: guarantee_same_clients simp: same_clients_def)

lemma decided_connection:
  assumes ok: "conn_ok w"
  shows "decided cfg k w (decide_connection k w)"
proof (cases "active w = None \<and> switching w = None")
  case True
  have sp: "spare w = {}" using ok True by (simp add: conn_ok_def)
  from guarantee_switching[OF ok sp, of k "w\<lparr>switching := Some k\<rparr>" "Some k"] True show ?thesis
    by (auto simp: decide_connection_def decided_def owns_idle_def)
next
  case False
  then show ?thesis
    by (auto simp: decide_connection_def split: option.split intro!: decided_same ok)
qed

lemma decided_failover:
  assumes ok: "conn_ok w"
  shows "decided cfg k w (decide_failover k c w)"
proof (cases "\<exists>e. switching w = None \<and> active w = Some e \<and> ep_client e = c")
  case True
  then obtain e where e: "switching w = None" "active w = Some e" "ep_client e = c" by blast
  let ?w' = "w\<lparr>switching := Some k, active := None, closing := c # closing w\<rparr>"
  from guarantee_release[OF ok e(2), of "Some k" ?w'] e show ?thesis
    by (auto simp: decide_failover_def decided_def owns_idle_def)
next
  case False
  then show ?thesis
    using decided_connection[OF ok, of cfg k]
    by (auto simp: decide_failover_def split: option.split intro!: decided_same ok)
qed

lemma obeys_decision:
  assumes "\<And>w1. conn_rely k w w1 \<Longrightarrow> conn_ok w1 \<Longrightarrow> decided cfg k w1 (f w1)"
    and "\<And>e tr' w'. Q e tr' w'" and "\<And>x tr' w'. E x tr' w'"
  shows "obeys cfg k (await (sync (\<lambda>w. case f w of (d, w') \<Rightarrow> (Inr d, w'))) (carry_out k cfg)) Q E tr w"
  unfolding wp_await
proof (rule obeys_sync, goal_cases)
  case (1 w1)
  obtain d w' where f: "f w1 = (d, w')" by fastforce
  from assms(1)[OF 1] f have "obeys cfg k (carry_out k cfg d) Q E tr w'" "conn_guarantee cfg k tr w1 w'"
    by (auto simp: decided_def intro!: obeys_carry_out assms(2,3))
  with f show ?case by simp
qed

lemma obeys_connection:
  assumes "\<And>e tr' w'. Q e tr' w'" and "\<And>x tr' w'. E x tr' w'"
  shows "obeys cfg k (connection k cfg) Q E tr w"
  unfolding connection_def by (rule obeys_decision[OF decided_connection assms])

lemma obeys_failover:
  assumes "\<And>e tr' w'. Q e tr' w'" and "\<And>x tr' w'. E x tr' w'"
  shows "obeys cfg k (failover k cfg c) Q E tr w"
  unfolding failover_def by (rule obeys_decision[OF decided_failover assms])

section \<open>The public methods and the callbacks\<close>

lemma obeys_attempt_request:
  assumes "\<And>r tr'. Q r tr' w" and "\<And>x tr'. E x tr' w"
  shows "obeys cfg k (attempt_request c q) Q E tr w"
  unfolding attempt_request_def wp_try_catch wp_await
  by (rule obeys_client_request) (auto simp: assms split: conn_exn.split)

text \<open>Giving up the active endpoint outside a switch; its client must then be disconnected.\<close>

lemma obeys_dropping:
  assumes step: "\<And>w1 d w'. conn_ok w1 \<Longrightarrow> f w1 = (d, w') \<Longrightarrow>
      (\<forall>tr. conn_guarantee cfg k tr w1 w') \<and> (\<forall>c. d = Some c \<longrightarrow> dead c w')"
    and none: "\<And>tr' w'. obeys cfg k p Q E tr' w'"
    and some: "\<And>tr' w'. obeys cfg k q Q E tr' w'"
  shows "obeys cfg k (await (sync (\<lambda>w. case f w of (d, w') \<Rightarrow> (Inr d, w')))
      (\<lambda>d. case d of None \<Rightarrow> p | Some c \<Rightarrow> await (disconnect_client c) (\<lambda>_. q))) Q E tr w"
  unfolding wp_await
proof (rule obeys_sync, goal_cases)
  case (1 w1)
  obtain d w' where f: "f w1 = (d, w')" by fastforce
  have g: "conn_guarantee cfg k tr w1 w'" and d: "\<And>c. d = Some c \<Longrightarrow> dead c w'"
    using step[OF 1(2) f] by blast+
  have "obeys cfg k (case d of None \<Rightarrow> p | Some c \<Rightarrow> await (disconnect_client c) (\<lambda>_. q)) Q E tr w'"
  proof (cases d)
    case None
    then show ?thesis by (simp add: none)
  next
    case (Some c)
    show ?thesis
      unfolding Some option.case wp_await by (rule obeys_disconnect_client[OF d[OF Some]]) (rule some)
  qed
  with f g show ?case by simp
qed

lemma drop_failed_step:
  assumes "conn_ok w" and "drop_failed c w = (d, w')"
  shows "(\<forall>tr. conn_guarantee cfg k tr w w') \<and> (\<forall>c. d = Some c \<longrightarrow> dead c w')"
proof (cases "\<exists>e. active w = Some e \<and> ep_client e = c \<and> switching w = None")
  case True
  then obtain e where e: "active w = Some e" "ep_client e = c" "switching w = None" by blast
  then have d: "d = Some c" "w' = w\<lparr>active := None, closing := ep_client e # closing w, switching := switching w\<rparr>"
    using assms(2) by (auto simp: drop_failed_def)
  from guarantee_release[OF assms(1) e(1) disjI2[OF refl] d(2)] d(1) e(2) show ?thesis by simp
next
  case False
  then have "d = None" "w' = w"
    using assms(2) by (auto simp: drop_failed_def split: option.splits if_splits)
  then show ?thesis using guarantee_same_clients[OF assms(1), of w] by (simp add: same_clients_def)
qed

lemma release_active_step:
  assumes "conn_ok w" and "release_active w = (d, w')"
  shows "(\<forall>tr. conn_guarantee cfg k tr w w') \<and> (\<forall>c. d = Some c \<longrightarrow> dead c w')"
proof (cases "active w")
  case (Some e)
  then have d: "d = Some (ep_client e)"
      "w' = w\<lparr>active := None, closing := ep_client e # closing w, switching := switching w\<rparr>"
    using assms(2) by (auto simp: release_active_def)
  from guarantee_release[OF assms(1) Some disjI2[OF refl] d(2)] d(1) show ?thesis by simp
next
  case None
  then have "d = None" "w' = w" using assms(2) by (auto simp: release_active_def)
  then show ?thesis using guarantee_same_clients[OF assms(1), of w] by (simp add: same_clients_def)
qed

lemma obeys_quiet:
  assumes "\<And>w1. conn_ok w1 \<Longrightarrow> same_clients w1 (g w1) \<and> preferred (g w1) = preferred w1"
    and "\<And>w1. conn_rely k w w1 \<Longrightarrow> Q (h w1) tr (g w1)"
  shows "obeys cfg k (sync (\<lambda>w. (Inr (h w), g w))) Q E tr w"
proof (rule obeys_sync, goal_cases)
  case (1 w1)
  then show ?case using assms(1)[OF 1(2)] assms(2)[OF 1(1)] guarantee_same_clients[OF 1(2), of "g w1"]
    by simp
qed

lemma schedule_reconnect_same:
  "same_clients w (schedule_reconnect w) \<and> preferred (schedule_reconnect w) = preferred w"
  by (simp add: same_clients_def schedule_reconnect_def)

lemma obeys_request_ledger:
  assumes Q: "\<And>r tr' w'. Q r tr' w'" and E: "\<And>x tr' w'. E x tr' w'"
  shows "obeys cfg k (request_ledger k cfg q) Q E tr w"
proof -
  have last: "obeys cfg k (await (sync (\<lambda>w. case drop_failed c w of (d, w') \<Rightarrow> (Inr d, w')))
      (\<lambda>dropped. case dropped of None \<Rightarrow> Throw unavailable
         | Some c \<Rightarrow> await (disconnect_client c) (\<lambda>_.
             await (sync (\<lambda>w. (Inr (), schedule_reconnect w))) (\<lambda>_. Throw unavailable)))) Q E tr' w'"
    for c tr' w'
  proof (rule obeys_dropping[OF drop_failed_step])
    show "obeys cfg k (await (sync (\<lambda>w. (Inr (), schedule_reconnect w))) (\<lambda>_. Throw unavailable)) Q E tr' w'"
      for tr' w'
      unfolding wp_await by (rule obeys_quiet) (simp_all add: schedule_reconnect_same E)
  qed (simp_all add: E)
  let ?second = "\<lambda>second. await (attempt_request (ep_client second) q) (\<lambda>again. case again of
      Some resp \<Rightarrow> Return resp
    | None \<Rightarrow> await (sync (\<lambda>w. case drop_failed (ep_client second) w of (d, w') \<Rightarrow> (Inr d, w')))
        (\<lambda>dropped. case dropped of None \<Rightarrow> Throw unavailable
           | Some c \<Rightarrow> await (disconnect_client c) (\<lambda>_.
               await (sync (\<lambda>w. (Inr (), schedule_reconnect w))) (\<lambda>_. Throw unavailable))))"
  have second: "obeys cfg k (?second e) Q E tr' w'" for e tr' w'
    unfolding wp_await[of _ _ _ _ "attempt_request c q" for c]
    by (rule obeys_attempt_request) (auto split: option.split simp: Q E intro: last)
  have retry: "obeys cfg k (await (failover k cfg c) ?second) Q E tr' w'" for c tr' w'
    unfolding wp_await[of _ _ _ _ "failover k cfg c"] by (rule obeys_failover) (rule second, rule E)
  have first: "obeys cfg k (await (attempt_request c q) (\<lambda>answer. case answer of
      Some resp \<Rightarrow> Return resp | None \<Rightarrow> await (failover k cfg c) ?second)) Q E tr' w'" for c tr' w'
    unfolding wp_await[of _ _ _ _ "attempt_request c q"]
    by (rule obeys_attempt_request) (auto split: option.split simp: Q E intro: retry)
  show ?thesis
    unfolding request_ledger_def wp_await[of _ _ _ _ "connection k cfg"]
    by (rule obeys_connection) (rule first, rule E)
qed

lemma obeys_ignore_failure:
  assumes "\<And>Q E. (\<And>e tr' w'. Q e tr' w') \<Longrightarrow> (\<And>x tr' w'. E x tr' w') \<Longrightarrow> obeys cfg k p Q E tr w"
    and "\<And>tr' w'. Q () tr' w'"
  shows "obeys cfg k (ignore_failure p) Q E tr w"
  unfolding ignore_failure_def wp_try_catch wp_await by (rule assms(1)) (simp_all add: assms(2))

lemma obeys_join: "(\<And>e tr' w'. Q e tr' w') \<Longrightarrow> (\<And>x tr' w'. E x tr' w') \<Longrightarrow>
    obeys cfg k (join_switch t) Q E tr w"
  using obeys_carry_out[of Q E "JoinSwitch t"] by simp

lemma decided_switch_away:
  assumes "conn_ok w"
  shows "decided cfg k w (case active w of None \<Rightarrow> decide_connection k w
    | Some e \<Rightarrow> decide_failover k (ep_client e) w)"
  using decided_connection[OF assms] decided_failover[OF assms] by (auto split: option.split)

text \<open>A callback that may find nothing to do.\<close>

lemma obeys_callback:
  assumes some: "\<And>w1 d w'. conn_ok w1 \<Longrightarrow> f w1 = (Some d, w') \<Longrightarrow> decided cfg k w1 (d, w')"
    and none: "\<And>w1 w'. conn_ok w1 \<Longrightarrow> f w1 = (None, w') \<Longrightarrow> w' = w1"
    and Q: "\<And>tr' w'. Q () tr' w'"
  shows "obeys cfg k (await (sync (\<lambda>w. case f w of (d, w') \<Rightarrow> (Inr d, w')))
      (\<lambda>d. case d of None \<Rightarrow> Return () | Some d' \<Rightarrow> ignore_failure (carry_out k cfg d'))) Q E tr w"
  unfolding wp_await
proof (rule obeys_sync, goal_cases)
  case (1 w1)
  obtain d w' where f: "f w1 = (d, w')" by fastforce
  show ?case
  proof (cases d)
    case None
    then show ?thesis using f none[OF 1(2)] Q guarantee_same_clients[OF 1(2), of w1]
      by (simp add: same_clients_def)
  next
    case (Some d')
    from some[OF 1(2)] f Some have dec: "decided cfg k w1 (d', w')" by simp
    have "obeys cfg k (ignore_failure (carry_out k cfg d')) Q E tr w'"
      by (rule obeys_ignore_failure, rule obeys_carry_out) (use dec Q in \<open>auto simp: decided_def\<close>)
    then show ?thesis using f Some dec by (simp add: decided_def)
  qed
qed

lemma unexpected_disconnect_eq:
  "handle_unexpected_disconnect k cfg c =
     await (sync (\<lambda>w. case (if map_option ep_client (active w) \<noteq> Some c then (None, w)
       else apfst Some (decide_failover k c w)) of (d, w') \<Rightarrow> (Inr d, w')))
     (\<lambda>d. case d of None \<Rightarrow> Return () | Some d' \<Rightarrow> ignore_failure (carry_out k cfg d'))"
  unfolding handle_unexpected_disconnect_def
  by (rule arg_cong[where f = "\<lambda>f. await (sync f) _"]) (auto split: prod.split)

lemma timer_fires_eq:
  "timer_fires k cfg =
     await (sync (\<lambda>w. case (if reconnect_timer w = None then (None, w)
       else apfst Some (decide_connection k (w\<lparr>reconnect_timer := None\<rparr>))) of (d, w') \<Rightarrow> (Inr d, w')))
     (\<lambda>d. case d of None \<Rightarrow> Return () | Some d' \<Rightarrow> ignore_failure (carry_out k cfg d'))"
  unfolding timer_fires_def
  by (rule arg_cong[where f = "\<lambda>f. await (sync f) _"]) (auto split: prod.split)

lemma switch_away_eq:
  "switch_away k cfg =
     await (await (sync (\<lambda>w. case (case active w of None \<Rightarrow> decide_connection k w
         | Some e \<Rightarrow> decide_failover k (ep_client e) w) of (d, w') \<Rightarrow> (Inr d, w'))) (carry_out k cfg))
       (\<lambda>_. Return ())"
  by (simp only: switch_away_def await_assoc)

lemma obeys_unexpected_disconnect:
  assumes "\<And>tr' w'. Q () tr' w'"
  shows "obeys cfg k (handle_unexpected_disconnect k cfg c) Q E tr w"
  unfolding unexpected_disconnect_eq
proof (rule obeys_callback)
  fix w1 d w' assume ok: "conn_ok w1"
    and "(if map_option ep_client (active w1) \<noteq> Some c then (None, w1)
      else apfst Some (decide_failover k c w1)) = (Some d, w')"
  then have "decide_failover k c w1 = (d, w')"
    by (cases "decide_failover k c w1") (auto split: if_splits)
  with decided_failover[OF ok] show "decided cfg k w1 (d, w')" by metis
next
  fix w1 w' assume "(if map_option ep_client (active w1) \<noteq> Some c then (None, w1)
      else apfst Some (decide_failover k c w1)) = (None, w')"
  then show "w' = w1" by (auto simp: apfst_def map_prod_def split: if_splits prod.splits)
qed (rule assms)

text \<open>Firing the timer is a change of the timer, then a decision.\<close>

lemma decided_timer:
  assumes ok: "conn_ok w"
  shows "decided cfg k w (decide_connection k (w\<lparr>reconnect_timer := t\<rparr>))"
proof -
  have ok': "conn_ok (w\<lparr>reconnect_timer := t\<rparr>)" using ok by (simp add: conn_ok_def spare_def)
  have "conn_guarantee cfg k tr (w\<lparr>reconnect_timer := t\<rparr>) w' = conn_guarantee cfg k tr w w'" for tr w'
    by (simp add: conn_guarantee_def conn_rely_def spare_def dead_def)
  with decided_connection[OF ok', of cfg k] show ?thesis by (simp add: decided_def)
qed

lemma obeys_timer:
  assumes "\<And>tr' w'. Q () tr' w'"
  shows "obeys cfg k (timer_fires k cfg) Q E tr w"
  unfolding timer_fires_eq
proof (rule obeys_callback)
  fix w1 d w' assume ok: "conn_ok w1"
    and "(if reconnect_timer w1 = None then (None, w1)
      else apfst Some (decide_connection k (w1\<lparr>reconnect_timer := None\<rparr>))) = (Some d, w')"
  then have "decide_connection k (w1\<lparr>reconnect_timer := None\<rparr>) = (d, w')"
    by (cases "decide_connection k (w1\<lparr>reconnect_timer := None\<rparr>)") (auto split: if_splits)
  with decided_timer[OF ok] show "decided cfg k w1 (d, w')" by metis
next
  fix w1 w' assume "(if reconnect_timer w1 = None then (None, w1)
      else apfst Some (decide_connection k (w1\<lparr>reconnect_timer := None\<rparr>))) = (None, w')"
  then show "w' = w1" by (auto simp: apfst_def map_prod_def split: if_splits prod.splits)
qed (rule assms)

lemma obeys_switch_away:
  assumes "\<And>tr' w'. Q () tr' w'" and "\<And>x tr' w'. E x tr' w'"
  shows "obeys cfg k (switch_away k cfg) Q E tr w"
  unfolding switch_away_eq
  by (simp only: wp_await[of _ _ _ _ "await p h" "\<lambda>_. Return ()" for p h])
    (rule obeys_decision[OF decided_switch_away], simp_all add: assms)

lemma obeys_ensure_connected:
  assumes "\<And>tr' w'. Q () tr' w'" and "\<And>x tr' w'. E x tr' w'"
  shows "obeys cfg k (ensure_connected k cfg) Q E tr w"
  unfolding ensure_connected_def wp_await by (rule obeys_connection) (simp_all add: assms)

lemma obeys_validated_ledger:
  assumes "\<And>tr' w'. Q () tr' w'"
  shows "obeys cfg k (handle_validated_ledger c n) Q E tr w"
  unfolding handle_validated_ledger_def by (rule obeys_quiet) (auto simp: same_clients_def assms)

lemma obeys_shutdown:
  assumes "\<And>tr' w'. Q () tr' w'"
  shows "obeys cfg k shutdown Q E tr w"
proof -
  have disc: "shutdown = await (sync (\<lambda>w. (Inr (switching w), w\<lparr>destroyed := True, reconnect_timer := None\<rparr>)))
      (\<lambda>current. await (case current of None \<Rightarrow> Return () | Some t \<Rightarrow> ignore_failure (join_switch t)) (\<lambda>_.
      await (sync (\<lambda>w. case release_active w of (c, w') \<Rightarrow> (Inr c, w'))) (\<lambda>released.
      case released of None \<Rightarrow> Return () | Some c \<Rightarrow> await (disconnect_client c) (\<lambda>_. Return ()))))"
    unfolding shutdown_def by (simp cong: option.case_cong)
  have rest: "obeys cfg k (await (sync (\<lambda>w. case release_active w of (c, w') \<Rightarrow> (Inr c, w'))) (\<lambda>released.
      case released of None \<Rightarrow> Return () | Some c \<Rightarrow> await (disconnect_client c) (\<lambda>_. Return ()))) Q E tr' w'"
    for tr' w'
    by (rule obeys_dropping[OF release_active_step]) (simp_all add: assms)
  have join: "obeys cfg k (case current of None \<Rightarrow> Return () | Some t \<Rightarrow> ignore_failure (join_switch t)) Q' E tr' w'"
    if "\<And>tr'' w''. Q' () tr'' w''" for current Q' tr' w'
    by (cases current) (auto simp: that intro!: obeys_ignore_failure obeys_join)
  show ?thesis
    unfolding disc wp_await[of _ _ _ _ "sync (\<lambda>w. (Inr (h w), g w))" for h g]
  proof (rule obeys_quiet, goal_cases)
    case (2 w1)
    show ?case unfolding wp_await[of _ _ _ _ "case_option p f c" for p f c] by (rule join) (rule rest)
  qed (simp add: same_clients_def)
qed

section \<open>The connection manager as a process\<close>

inductive conn_handler :: "app_config \<Rightarrow> nat \<Rightarrow> (conn, conn_exn, client_call, client_answer, unit) io \<Rightarrow> bool"
  for cfg k where
  "conn_handler cfg k (ensure_connected k cfg)"
| "conn_handler cfg k (await (request_ledger k cfg q) (\<lambda>_. Return ()))"
| "conn_handler cfg k (switch_away k cfg)"
| "conn_handler cfg k shutdown"
| "conn_handler cfg k (handle_validated_ledger c n)"
| "conn_handler cfg k (handle_unexpected_disconnect k cfg c)"
| "conn_handler cfg k (timer_fires k cfg)"

lemma conn_handler_obeys:
  assumes "conn_handler cfg k p"
  shows "obeys cfg k p (\<lambda>_ _ _. True) (\<lambda>_ _ _. True) [] w"
  using assms
proof cases
  case (2 q)
  then show ?thesis by (auto simp: wp_await intro: obeys_request_ledger)
qed (auto intro: obeys_ensure_connected obeys_switch_away obeys_shutdown obeys_validated_ledger
    obeys_unexpected_disconnect obeys_timer)

lemma fresh_conn_ok: "conn_ok fresh_connection"
  by (simp add: conn_ok_def fresh_connection_def spare_def)

interpretation manager: owned_rely_guarantee "conn_handler cfg" "\<lambda>_ _. False" "\<lambda>_. fresh_connection"
  "(=) fresh_connection" conn_ok conn_rely "conn_guarantee cfg" call_ok for cfg
proof unfold_locales
  show "conn_rely k w w'' " if "conn_rely k w w'" "conn_rely k w' w''" for k w w' w''
    by (rule conn_rely_trans[OF that])
  show "conn_ok w" if "fresh_connection = w" for w using that fresh_conn_ok by auto
  show "conn_ok w'" if "conn_ok w" "conn_guarantee cfg k tr w w'" for k tr w w'
    using that by (simp add: conn_guarantee_def)
  show "conn_rely j w w'" if "conn_ok w" "conn_guarantee cfg k tr w w'" "j \<noteq> k" for j k tr w w'
    using that by (simp add: conn_guarantee_def)
  show "obeys cfg k p (\<lambda>_ _ _. True) (\<lambda>_ _ _. True) [] w" if "conn_handler cfg k p" "conn_ok w" for k p w
    by (rule conn_handler_obeys[OF that(1)])
qed (simp_all add: fresh_conn_ok)

definition conn_reachable ::
  "app_config \<Rightarrow> (conn, conn_exn, client_call, client_answer) pool \<Rightarrow> bool" where
  "conn_reachable cfg = reachable (conn_handler cfg) (\<lambda>_ _. False) (\<lambda>_. fresh_connection) ((=) fresh_connection)"

lemma conn_reachable_ok: "conn_reachable cfg (w, ts, log) \<Longrightarrow> conn_ok w"
  unfolding conn_reachable_def by (rule manager.reachable_inv)

lemma conn_reachable_sent:
  "conn_reachable cfg (w, ts, log) \<Longrightarrow> Sent q w1 \<in> set log \<Longrightarrow> conn_ok w1 \<and> call_ok q w1"
  unfolding conn_reachable_def by (rule manager.reachable_sent)

lemma conn_reachable_committed:
  "conn_reachable cfg (w, ts, log) \<Longrightarrow> Committed tr w1 w2 \<in> set log \<Longrightarrow>
     conn_ok w1 \<and> (\<exists>k. conn_guarantee cfg k tr w1 w2)"
  unfolding conn_reachable_def by (rule manager.reachable_committed)

end
