(* ===== verification/Budget.thy ===== *)
theory Budget
  imports Pool
begin

text \<open>
  How much a program may cost. Every path through it takes its steps one by one; a budget pays for
  them, with a price per request and per statement. \<open>affords\<close> is a weakest precondition whose state
  is what is left of the budget, so a bound that depends on what happened on the way (a switch that
  is allowed once) needs no counter in the program.
\<close>

section \<open>Paths\<close>

text \<open>
  A path through a program: any sequence of its steps, with every outcome of a statement in any
  state of the tables and every answer of the ledger. \<open>None\<close> is a statement or a read of memory,
  \<open>Some q\<close> the request \<open>q\<close>.
\<close>

inductive io_path :: "('w, 'e, 'q, 'a, 'r) io \<Rightarrow> 'q option list \<Rightarrow> ('w, 'e, 'q, 'a, 'r) io \<Rightarrow> bool" where
  Here: "io_path p [] p"
| Statement: "io_path (p fl w) es p' \<Longrightarrow> io_path (Atom g p) (None # es) p'"
| Asked: "io_path (p a) es p' \<Longrightarrow> io_path (Call q p) (Some q # es) p'"


lemma io_path_Statement: "io_path p0 es (Atom g p) \<Longrightarrow> io_path p0 (es @ [None]) (p fl w)"
  by (induction p0 es "Atom g p" rule: io_path.induct) (auto intro: io_path.intros)

lemma io_path_Asked: "io_path p0 es (Call q p) \<Longrightarrow> io_path p0 (es @ [Some q]) (p a)"
  by (induction p0 es "Call q p" rule: io_path.induct) (auto intro: io_path.intros)

definition requests_of :: "'q option list \<Rightarrow> 'q list" where
  "requests_of es = List.map_filter id es"

lemma requests_of_simps [simp]:
  "requests_of [] = []" "requests_of (None # es) = requests_of es"
  "requests_of (Some q # es) = q # requests_of es" "requests_of (es @ fs) = requests_of es @ requests_of fs"
  by (simp_all add: requests_of_def List.map_filter_def)

text \<open>Every task of the pool is somewhere on a path of the handler it was started with.\<close>

definition on_path :: "(nat \<Rightarrow> ('w, 'e, 'q, 'a, unit) io \<Rightarrow> bool) \<Rightarrow> ('w, 'e, 'q, 'a) task \<Rightarrow> bool" where
  "on_path handlers t \<longleftrightarrow>
     (\<exists>n p0 es. handlers n p0 \<and> io_path p0 es (snd t) \<and> requests_of es = map fst (fst t))"

lemma on_path_Statement: "on_path handlers (tr, Atom g p) \<Longrightarrow> on_path handlers (tr, p fl w)"
  unfolding on_path_def by (fastforce dest: io_path_Statement)

lemma on_path_Asked: "on_path handlers (tr, Call q p) \<Longrightarrow> on_path handlers (tr @ [(q, a)], p a)"
  unfolding on_path_def by (fastforce dest: io_path_Asked)

lemma on_path_start: "handlers n p \<Longrightarrow> on_path handlers ([], p)"
  unfolding on_path_def by (auto intro!: exI[of _ n] exI[of _ p] exI[of _ "[]"] io_path.Here)

lemma reachable_path:
  assumes "reachable handlers ambient reset init c"
  shows "list_all (on_path handlers) (fst (snd c))"
  using assms
proof induction
  case (Step c c')
  obtain w ts log where c: "c = (w, ts, log)" by (cases c)
  have IH: "list_all (on_path handlers) ts" using Step.IH c by simp
  then have here: "on_path handlers (ts ! i)" if "i < length ts" for i using that by (simp add: list_all_length)
  have put: "list_all (on_path handlers) (ts[i := t])" if "on_path handlers t" for i t
    using IH that set_update_subset_insert[of ts i t] by (auto simp: list_all_iff)
  show ?case
    using Step.hyps(2)[unfolded c]
    by (rule pool_stepE)
      (use IH here in \<open>force intro: put on_path_start on_path_Statement on_path_Asked\<close>)+
qed simp

section \<open>Budgets\<close>

text \<open>
  \<open>affords c d p Q E n\<close>: with the budget \<open>n\<close>, a request \<open>q\<close> at \<open>c q\<close> and a statement at \<open>d\<close>,
  the program never overdraws, and what is left at its end satisfies \<open>Q\<close> or \<open>E\<close>.
\<close>

primrec affords ::
  "('q \<Rightarrow> nat) \<Rightarrow> nat \<Rightarrow> ('w, 'e, 'q, 'a, 'r) io \<Rightarrow> ('r \<Rightarrow> nat \<Rightarrow> bool) \<Rightarrow> ('e \<Rightarrow> nat \<Rightarrow> bool) \<Rightarrow> nat \<Rightarrow> bool"
  where
  "affords c d (Return x) = (\<lambda>Q E n. Q x n)"
| "affords c d (Throw e) = (\<lambda>Q E n. E e n)"
| "affords c d (Atom g p) = (\<lambda>Q E n. d \<le> n \<and> (\<forall>fl w. affords c d (p fl w) Q E (n - d)))"
| "affords c d (Call q p) = (\<lambda>Q E n. c q \<le> n \<and> (\<forall>a. affords c d (p a) Q E (n - c q)))"

definition costs_at_most :: "('q \<Rightarrow> nat) \<Rightarrow> nat \<Rightarrow> ('w, 'e, 'q, 'a, 'r) io \<Rightarrow> nat \<Rightarrow> bool" where
  "costs_at_most c d p n \<longleftrightarrow> affords c d p (\<lambda>_ _. True) (\<lambda>_ _. True) n"

fun step_cost :: "('q \<Rightarrow> nat) \<Rightarrow> nat \<Rightarrow> 'q option \<Rightarrow> nat" where
  "step_cost c d None = d"
| "step_cost c d (Some q) = c q"

text \<open>What it says: no path costs more.\<close>

lemma affords_path: "io_path p es p' \<Longrightarrow> affords c d p Q E n \<Longrightarrow> sum_list (map (step_cost c d) es) \<le> n"
proof (induction arbitrary: n rule: io_path.induct)
  case (Statement p fl w es p' g)
  then have "sum_list (map (step_cost c d) es) \<le> n - d" "d \<le> n" by auto
  then show ?case by simp
next
  case (Asked p a es p' q)
  then have "sum_list (map (step_cost c d) es) \<le> n - c q" "c q \<le> n" by auto
  then show ?case by simp
qed simp

text \<open>What is put on top of the budget is left at the end.\<close>

lemma affords_frame:
  assumes "affords c d p Q E n" and "\<And>x i. Q x i \<Longrightarrow> Q' x (i + m)" and "\<And>e i. E e i \<Longrightarrow> E' e (i + m)"
  shows "affords c d p Q' E' (n + m)"
  using assms(1)
proof (induction p arbitrary: n)
  case (Atom g p)
  then obtain k where n: "n = d + k" by (auto dest: le_Suc_ex)
  with Atom have "affords c d (p fl w) Q' E' (k + m)" for fl w by simp
  then show ?case by (simp add: n add.assoc)
next
  case (Call q p)
  then obtain k where n: "n = c q + k" by (auto dest: le_Suc_ex)
  with Call have "affords c d (p a) Q' E' (k + m)" for a by simp
  then show ?case by (simp add: n add.assoc)
qed (simp_all add: assms(2,3))

lemma affords_await: "affords c d (await p k) Q E = affords c d p (\<lambda>x. affords c d (k x) Q E) E"
  by (induction p) (auto simp: fun_eq_iff)

lemma affords_try_catch: "affords c d (try_catch p h) Q E = affords c d p Q (\<lambda>e. affords c d (h e) Q E)"
  by (induction p) (auto simp: fun_eq_iff)

lemma affords_lift_result:
  "affords c d (lift_result x) Q E n = (case x of Inl e \<Rightarrow> E e n | Inr r \<Rightarrow> Q r n)"
  by (cases x) simp_all

text \<open>
  A statement or a request is paid once, with any outcome. The rules name what is left as a sum, so
  that a proof with them ends in linear arithmetic.
\<close>

named_theorems affords_rules

lemma affords_transaction [affords_rules]:
  "d \<le> n \<Longrightarrow> (\<And>x m. n = m + d \<Longrightarrow> Q x m) \<Longrightarrow> (\<And>e m. n = m + d \<Longrightarrow> E e m) \<Longrightarrow>
     affords c d (transaction lost f) Q E n"
  by (auto simp: transaction_def affords_lift_result split: sum.split)

lemma affords_sync [affords_rules]:
  "d \<le> n \<Longrightarrow> (\<And>x m. n = m + d \<Longrightarrow> Q x m) \<Longrightarrow> (\<And>e m. n = m + d \<Longrightarrow> E e m) \<Longrightarrow> affords c d (sync f) Q E n"
  by (auto simp: sync_def affords_lift_result split: sum.split)

lemma affords_lift [affords_rules]:
  "(\<And>x. Q x n) \<Longrightarrow> (\<And>e. E e n) \<Longrightarrow> affords c d (lift_result r) Q E n"
  by (simp add: affords_lift_result split: sum.split)

lemma costs_path: "io_path p es p' \<Longrightarrow> costs_at_most c d p n \<Longrightarrow> sum_list (map (step_cost c d) es) \<le> n"
  unfolding costs_at_most_def by (rule affords_path)

lemma costs_more: "costs_at_most c d p n \<Longrightarrow> n \<le> m \<Longrightarrow> costs_at_most c d p m"
  unfolding costs_at_most_def using affords_frame[where m = "m - n"] by fastforce

lemma costs_await:
  assumes "costs_at_most c d p n" and "\<And>x. costs_at_most c d (k x) m"
  shows "costs_at_most c d (await p k) (n + m)"
  unfolding costs_at_most_def affords_await
  by (rule affords_frame[OF assms(1)[unfolded costs_at_most_def]])
    (use assms(2)[THEN costs_more] in \<open>auto simp: costs_at_most_def\<close>)

lemma costs_try_catch:
  assumes "costs_at_most c d p n" and "\<And>e. costs_at_most c d (h e) m"
  shows "costs_at_most c d (try_catch p h) (n + m)"
  unfolding costs_at_most_def affords_try_catch
  by (rule affords_frame[OF assms(1)[unfolded costs_at_most_def]])
    (use assms(2)[THEN costs_more] in \<open>auto simp: costs_at_most_def\<close>)

end
