(* ===== verification/Failover.thy ===== *)
theory Failover
  imports ConnectionLaws Budget
begin

text \<open>
  Runs of the connection manager: what one handler sends on every path, a failover from start to
  end, and an interleaving in which two clients are open at once.
\<close>

section \<open>How often a program may send\<close>

text \<open>On every path the program sends at most \<open>n\<close> requests that satisfy \<open>P\<close>.\<close>

definition at_most_calls :: "('q \<Rightarrow> bool) \<Rightarrow> nat \<Rightarrow> ('w, 'e, 'q, 'a, 'r) io \<Rightarrow> bool" where
  "at_most_calls P n p \<longleftrightarrow> costs_at_most (\<lambda>q. if P q then 1 else 0) 0 p n"

lemmas at_most_defs = at_most_calls_def costs_at_most_def

lemma at_most_calls_path:
  "at_most_calls P n p \<Longrightarrow> io_path p es p' \<Longrightarrow> length (filter P (requests_of es)) \<le> n"
proof -
  have "length (filter P (requests_of es)) = sum_list (map (step_cost (\<lambda>q. if P q then 1 else 0) 0) es)"
  proof (induction es)
    case (Cons e es)
    then show ?case by (cases e) auto
  qed simp
  then show "at_most_calls P n p \<Longrightarrow> io_path p es p' \<Longrightarrow> length (filter P (requests_of es)) \<le> n"
    unfolding at_most_calls_def by (metis costs_path)
qed

lemma at_most_ends [intro!]: "at_most_calls P n (Return x)" "at_most_calls P n (Throw e)"
  by (simp_all add: at_most_defs)

lemma at_most_Atom: "(\<And>fl w. at_most_calls P n (p fl w)) \<Longrightarrow> at_most_calls P n (Atom g p)"
  by (simp add: at_most_defs)

lemma at_most_Other: "\<not> P q \<Longrightarrow> (\<And>a. at_most_calls P n (p a)) \<Longrightarrow> at_most_calls P n (Call q p)"
  by (simp add: at_most_defs)

lemma at_most_Counted: "P q \<Longrightarrow> (\<And>a. at_most_calls P n (p a)) \<Longrightarrow> at_most_calls P (Suc n) (Call q p)"
  by (simp add: at_most_defs)

lemma at_most_await:
  "at_most_calls P n p \<Longrightarrow> (\<And>x. at_most_calls P m (k x)) \<Longrightarrow> at_most_calls P (n + m) (await p k)"
  unfolding at_most_calls_def by (rule costs_await)

lemma at_most_try_catch:
  "at_most_calls P n p \<Longrightarrow> (\<And>e. at_most_calls P m (h e)) \<Longrightarrow> at_most_calls P (n + m) (try_catch p h)"
  unfolding at_most_calls_def by (rule costs_try_catch)

lemma at_most_lift_result [intro!]: "at_most_calls P n (lift_result x)"
  by (cases x) auto

lemma at_most_sync [intro!]: "at_most_calls P n (sync f)"
  by (auto simp: sync_def intro: at_most_Atom)

text \<open>Programs that send nothing of the kind.\<close>

lemma silent_await: "at_most_calls P 0 p \<Longrightarrow> (\<And>x. at_most_calls P m (k x)) \<Longrightarrow> at_most_calls P m (await p k)"
  using at_most_await[of P 0 p m k] by simp

lemma silent_try_catch: "at_most_calls P 0 p \<Longrightarrow> (\<And>x. at_most_calls P m (h x)) \<Longrightarrow> at_most_calls P m (try_catch p h)"
  using at_most_try_catch[of P 0 p m h] by simp

section \<open>The retry\<close>

definition bootstrap_commands :: "string list" where
  "bootstrap_commands = [''server_info'', ''server_definitions'', ''subscribe'']"

definition sends :: "ledger_request \<Rightarrow> client_call \<Rightarrow> bool" where
  "sends q call \<longleftrightarrow> (\<exists>c. call = ClientRequest c q)"

definition foreign :: "ledger_request \<Rightarrow> bool" where
  "foreign q \<longleftrightarrow> command q \<notin> set bootstrap_commands"

lemma silent_expect_ok: "foreign q \<Longrightarrow> cmd \<in> set bootstrap_commands \<Longrightarrow> at_most_calls (sends q) 0 (expect_ok c name cmd extra)"
  unfolding expect_ok_def client_request_def
  by (auto simp: sends_def foreign_def intro!: silent_await at_most_Other split: client_answer.split ledger_response.split)

lemma silent_disconnect: "at_most_calls (sends q) n (disconnect_client c)"
  unfolding disconnect_client_def by (auto simp: sends_def intro: at_most_Other)

lemma silent_bootstrap: "foreign q \<Longrightarrow> at_most_calls (sends q) 0 (bootstrap cfg name)"
  unfolding bootstrap_def create_client_def handshake_def interrogate_def abandon_client_def
    format_checked_def endpoint_checked_def connect_client_def
  by (intro silent_await silent_try_catch at_most_sync)
    (auto simp: sends_def bootstrap_commands_def
      intro!: silent_await silent_expect_ok silent_disconnect at_most_Other split: client_answer.split)

lemma silent_connect_in_order: "foreign q \<Longrightarrow> at_most_calls (sends q) 0 (connect_in_order cfg order)"
proof (induction order)
  case Nil
  show ?case by (simp add: give_up_connecting_def) (intro silent_await at_most_sync at_most_ends(2))
next
  case (Cons name order)
  then show ?case
    by (auto simp: give_up_connecting_def install_endpoint_def
        intro!: silent_await silent_try_catch silent_bootstrap split: option.split)
qed

lemma silent_carry_out: "foreign q \<Longrightarrow> at_most_calls (sends q) 0 (carry_out k cfg d)"
  by (cases d) (auto simp: track_def join_switch_def sends_def simp del: connect_in_order.simps
      intro!: silent_await silent_try_catch silent_connect_in_order silent_disconnect at_most_Other
      split: client_answer.split)

lemma attempt_once: "at_most_calls (sends q) 1 (attempt_request c q)"
  unfolding attempt_request_def client_request_def One_nat_def
  by (simp add: sends_def split: client_answer.split)
    (auto intro!: at_most_Counted simp: sends_def split: client_answer.split conn_exn.split)

lemma silent_sync_carry_out:
  "foreign q \<Longrightarrow> at_most_calls (sends q) 0 (connection k cfg)"
  "foreign q \<Longrightarrow> at_most_calls (sends q) 0 (failover k cfg c)"
  unfolding connection_def failover_def by (auto intro!: silent_await silent_carry_out)

lemma attempt_then:
  "(\<And>x. at_most_calls (sends q) m (f x)) \<Longrightarrow> at_most_calls (sends q) (Suc m) (await (attempt_request c q) f)"
  using at_most_await[OF attempt_once, of q m f c] by simp

section \<open>A failover from start to end\<close>

text \<open>A client behind which a usable server answers.\<close>

definition serves_well ::
  "app_config \<Rightarrow> (client_call, client_answer) answers \<Rightarrow> endpoint_name \<Rightarrow> nat \<Rightarrow> object \<Rightarrow> object
    \<Rightarrow> server_info \<Rightarrow> bool" where
  "serves_well cfg env name c raw_info raw_definitions info \<longleftrightarrow>
     usable_answers (xrpl_network_id cfg) raw_info raw_definitions info \<and>
     (\<forall>tr. (\<forall>e. env tr (ConnectClient c (endpoint_url cfg name)) \<noteq> Rejected e) \<and>
       env tr (ClientRequest c \<lparr>command = ''server_info'', request_fields = [(''api_version'', JNum 2)]\<rparr>)
         = Answered (RespOk raw_info) \<and>
       env tr (ClientRequest c \<lparr>command = ''server_definitions'', request_fields = [(''api_version'', JNum 2)]\<rparr>)
         = Answered (RespOk raw_definitions) \<and>
       (\<exists>r. env tr (ClientRequest c \<lparr>command = ''subscribe'', request_fields =
            [(''api_version'', JNum 2), (''streams'', JArr [JStr ''ledger''])]\<rparr>) = Answered (RespOk r)))"

lemma run_client_request [run_simps]:
  "run env (client_request c q) tr w =
     (case env tr (ClientRequest c q) of
        Answered r \<Rightarrow> (Inr r, tr @ [(ClientRequest c q, Answered r)], w)
      | Joined e \<Rightarrow> (Inl (TransportFailure ''no response''), tr @ [(ClientRequest c q, Joined e)], w)
      | Rejected x \<Rightarrow> (Inl x, tr @ [(ClientRequest c q, Rejected x)], w))"
  by (simp add: client_request_def split: client_answer.split)

lemma run_connect_client:
  "\<forall>e. env tr (ConnectClient c url) \<noteq> Rejected e \<Longrightarrow>
     run env (connect_client c url) tr w =
       (Inr (), tr @ [(ConnectClient c url, env tr (ConnectClient c url))], w)"
  by (simp add: connect_client_def split: client_answer.split)

lemma run_disconnect_client [run_simps]:
  "run env (disconnect_client c) tr w =
     (Inr (), tr @ [(DisconnectClient c, env tr (DisconnectClient c))],
      w\<lparr>opened := removeAll c (opened w), closing := removeAll c (closing w)\<rparr>)"
  by (simp add: disconnect_client_def run_simps)

lemma run_expect_ok:
  assumes "env tr (ClientRequest c \<lparr>command = cmd, request_fields = (''api_version'', JNum 2) # extra\<rparr>)
      = Answered (RespOk r)"
  shows "\<exists>tr'. run env (expect_ok c name cmd extra) tr w = (Inr r, tr', w)"
  using assms by (simp add: expect_ok_def run_simps)

lemma run_interrogate:
  assumes "serves_well cfg env name c raw_info raw_definitions info"
  shows "\<exists>tr'. run env (interrogate cfg name c) tr w =
    (Inr (info, parse_server_definitions raw_definitions), tr', w)"
proof -
  note s = assms[unfolded serves_well_def usable_answers_def]
  obtain r where r: "\<And>tr. \<exists>r. env tr (ClientRequest c \<lparr>command = ''subscribe'', request_fields =
      [(''api_version'', JNum 2), (''streams'', JArr [JStr ''ledger''])]\<rparr>) = Answered (RespOk r)"
    using s by blast
  obtain tr1 where 1: "run env (expect_ok c name ''server_info'' []) tr w = (Inr raw_info, tr1, w)"
    using run_expect_ok[of env tr c "''server_info''" "[]"] s by blast
  obtain tr2 where 2: "run env (expect_ok c name ''server_definitions'' []) tr1 w = (Inr raw_definitions, tr2, w)"
    using run_expect_ok[of env tr1 c "''server_definitions''" "[]"] s by blast
  obtain r3 tr3 where 3: "run env (expect_ok c name ''subscribe'' [(''streams'', JArr [JStr ''ledger''])]) tr2 w
      = (Inr r3, tr3, w)"
    using run_expect_ok[of env tr2 c "''subscribe''" "[(''streams'', JArr [JStr ''ledger''])]"] r by blast
  show ?thesis
    using s by (simp add: interrogate_def run_await 1 2 3 format_checked_def endpoint_checked_def)
qed

lemma run_bootstrap:
  assumes "serves_well cfg env name (created_clients w) raw_info raw_definitions info"
  shows "\<exists>tr'. run env (bootstrap cfg name) tr w =
    (Inr (endpoint_of cfg name (created_clients w) info (parse_server_definitions raw_definitions)), tr',
     w\<lparr>created_clients := created_clients w + 1, opened := created_clients w # opened w,
       latest_validated_ledger := map_option vl_index (si_validated_ledger info)\<rparr>)"
proof -
  let ?c = "created_clients w"
  let ?w = "w\<lparr>created_clients := Suc ?c, opened := ?c # opened w\<rparr>"
  let ?tr = "tr @ [(ConnectClient ?c (endpoint_url cfg name), env tr (ConnectClient ?c (endpoint_url cfg name)))]"
  have connect: "run env (connect_client ?c (endpoint_url cfg name)) tr ?w = (Inr (), ?tr, ?w)"
    using assms by (intro run_connect_client) (simp add: serves_well_def)
  obtain tr' where "run env (interrogate cfg name ?c) ?tr ?w =
      (Inr (info, parse_server_definitions raw_definitions), tr', ?w)"
    using run_interrogate[OF assms] by blast
  then show ?thesis
    by (simp add: bootstrap_def create_client_def handshake_def run_await run_sync run_try_catch connect)
qed

text \<open>
  A switch begun from a state with no active endpoint, as its starter carries it out: the first
  endpoint of the order serves.
\<close>

lemma run_connect_in_order:
  assumes "serves_well cfg env name (created_clients w) raw_info raw_definitions info" and "\<not> destroyed w"
  shows "\<exists>tr'. run env (connect_in_order cfg (name # order)) tr w =
    (Inr (endpoint_of cfg name (created_clients w) info (parse_server_definitions raw_definitions)), tr',
     w\<lparr>created_clients := created_clients w + 1, opened := created_clients w # opened w,
       latest_validated_ledger := map_option vl_index (si_validated_ledger info),
       active := Some (endpoint_of cfg name (created_clients w) info (parse_server_definitions raw_definitions)),
       preferred := name, reconnect_attempt := 0,
       installed := endpoint_of cfg name (created_clients w) info (parse_server_definitions raw_definitions)
         # installed w\<rparr>)"
proof -
  from run_bootstrap[OF assms(1), of tr] obtain tr' where
    "run env (bootstrap cfg name) tr w =
      (Inr (endpoint_of cfg name (created_clients w) info (parse_server_definitions raw_definitions)), tr',
       w\<lparr>created_clients := created_clients w + 1, opened := created_clients w # opened w,
         latest_validated_ledger := map_option vl_index (si_validated_ledger info)\<rparr>)" by blast
  then show ?thesis
    using assms(2) by (simp add: run_await run_sync run_try_catch install_endpoint_def endpoint_of_def)
qed

text \<open>What a completed switch to \<open>name\<close> leaves behind.\<close>

definition switched :: "endpoint_name \<Rightarrow> active_endpoint \<Rightarrow> nat list \<Rightarrow> conn \<Rightarrow> bool" where
  "switched name e clients w \<longleftrightarrow>
     active w = Some e \<and> preferred w = name \<and> switching w = None \<and> reconnect_attempt w = 0 \<and>
     opened w = clients"

lemma run_failover:
  assumes a: "active w = Some e" "ep_client e = c" "switching w = None" "\<not> destroyed w"
    and s: "serves_well cfg env (other_endpoint (ep_name e)) (created_clients w) raw_info raw_definitions info"
    and e': "e' = endpoint_of cfg (other_endpoint (ep_name e)) (created_clients w) info
      (parse_server_definitions raw_definitions)"
  shows "\<exists>tr' w'. run env (failover k cfg c) tr w = (Inr e', tr', w') \<and>
    switched (other_endpoint (ep_name e)) e' (created_clients w # removeAll c (opened w)) w' \<and>
    created_clients w' = Suc (created_clients w) \<and> \<not> destroyed w'"
proof -
  let ?alt = "other_endpoint (ep_name e)"
  let ?w = "w\<lparr>switching := Some k, active := None, opened := removeAll c (opened w),
    closing := removeAll c (closing w), preferred := ?alt\<rparr>"
  have s': "serves_well cfg env ?alt (created_clients ?w) raw_info raw_definitions info" using s by simp
  from run_connect_in_order[OF s', of "[]" "tr @ [(DisconnectClient c, env tr (DisconnectClient c))]"] a(4)
  obtain tr' where "run env (connect_in_order cfg [?alt]) (tr @ [(DisconnectClient c, env tr (DisconnectClient c))]) ?w
    = (Inr e', tr', ?w\<lparr>created_clients := created_clients ?w + 1, opened := created_clients ?w # opened ?w,
       latest_validated_ledger := map_option vl_index (si_validated_ledger info),
       active := Some e', preferred := ?alt, reconnect_attempt := 0, installed := e' # installed ?w\<rparr>)"
    unfolding e' by (auto simp del: connect_in_order.simps)
  then show ?thesis
    using a by (simp add: failover_def decide_failover_def track_def run_simps switched_def
        del: connect_in_order.simps)
qed

lemma run_connection:
  assumes a: "active w = None" "switching w = None" "\<not> destroyed w"
    and s: "serves_well cfg env (preferred w) (created_clients w) raw_info raw_definitions info"
    and e': "e' = endpoint_of cfg (preferred w) (created_clients w) info (parse_server_definitions raw_definitions)"
  shows "\<exists>tr' w'. run env (connection k cfg) tr w = (Inr e', tr', w') \<and>
    switched (preferred w) e' (created_clients w # opened w) w' \<and>
    created_clients w' = Suc (created_clients w) \<and> \<not> destroyed w'"
proof -
  let ?w = "w\<lparr>switching := Some k\<rparr>"
  have s': "serves_well cfg env (preferred w) (created_clients ?w) raw_info raw_definitions info" using s by simp
  from run_connect_in_order[OF s', of "[other_endpoint (preferred w)]" tr] a(3)
  obtain tr' where "run env (connect_in_order cfg [preferred w, other_endpoint (preferred w)]) tr ?w
    = (Inr e', tr', ?w\<lparr>created_clients := created_clients ?w + 1, opened := created_clients ?w # opened ?w,
       latest_validated_ledger := map_option vl_index (si_validated_ledger info),
       active := Some e', preferred := preferred w, reconnect_attempt := 0,
       installed := e' # installed ?w\<rparr>)"
    unfolding e' by (auto simp del: connect_in_order.simps)
  then show ?thesis
    using a by (simp add: connection_def decide_connection_def track_def run_simps switched_def
        del: connect_in_order.simps)
qed

section \<open>Two clients open at once\<close>

text \<open>The first part of a program, run to its result, is one way for the pool to move.\<close>

lemma reachable_run_await:
  assumes "reachable handlers ambient reset init (w, ts @ [(tr, await p h)], log)"
    and "run env p tr w = (Inr x, tr', w')"
  shows "\<exists>log'. reachable handlers ambient reset init (w', ts @ [(tr', h x)], log')"
  using assms
proof (induction p arbitrary: tr w log)
  case (Atom g p)
  have "pool_step handlers ambient reset (w, ts @ [(tr, await (Atom g p) h)], log)
      (g NoFault w, (ts @ [(tr, await (Atom g p) h)])[length ts := (tr, await (p NoFault w) h)],
       log @ [Committed tr w (g NoFault w)])"
    by (rule Commit) simp_all
  then have "reachable handlers ambient reset init
      (g NoFault w, ts @ [(tr, await (p NoFault w) h)], log @ [Committed tr w (g NoFault w)])"
    using Atom.prems(1) by (auto intro: reachable.Step)
  from Atom.IH[OF this] Atom.prems(2) show ?case by simp
next
  case (Call q p)
  let ?a = "env tr q"
  have "pool_step handlers ambient reset (w, ts @ [(tr, await (Call q p) h)], log)
      (w, (ts @ [(tr, await (Call q p) h)])[length ts := (tr @ [(q, ?a)], await (p ?a) h)],
       log @ [Sent q w])"
    by (rule Send) simp_all
  then have "reachable handlers ambient reset init
      (w, ts @ [(tr @ [(q, ?a)], await (p ?a) h)], log @ [Sent q w])"
    using Call.prems(1) by (auto intro: reachable.Step)
  from Call.IH[OF this] Call.prems(2) show ?case by simp
qed auto

definition demo_config :: app_config where
  "demo_config = \<lparr>database_url = ''postgres://db'', xrpl_network_id = 2, xrpl_primary_url = ''ws://a'',
     xrpl_secondary_url = ''ws://b'', log_level = Log, port = 3000\<rparr>"

definition demo_info :: object where
  "demo_info = [(''info'', JObj [(''network_id'', JNum 2), (''server_state'', JStr ''full''),
     (''validated_ledger'', JObj [(''seq'', JNum 100), (''age'', JNum 2)])])]"

definition demo_definitions :: object where
  "demo_definitions = [(''TRANSACTION_FORMATS'', JObj [(''Payment'', JArr []), (''TrustSet'', JArr [])])]"

definition demo_request :: ledger_request where
  "demo_request = \<lparr>command = ''fee'', request_fields = []\<rparr>"

text \<open>
  Usable servers: the connections numbered below \<open>n\<close> break at the first request of the service,
  the others answer it.
\<close>

fun breaking :: "nat \<Rightarrow> (client_call, client_answer) answers" where
  "breaking n tr (ClientRequest c q) =
     (if command q = ''server_info'' then Answered (RespOk demo_info)
      else if command q = ''server_definitions'' then Answered (RespOk demo_definitions)
      else if command q = ''subscribe'' \<or> n \<le> c then Answered (RespOk [])
      else Rejected (TransportFailure ''closed''))"
| "breaking n tr call = Answered (RespOk [])"

lemma breaking_serves:
  obtains info where "\<And>n name c. serves_well demo_config (breaking n) name c demo_info demo_definitions info"
proof -
  have "\<exists>info. usable_answers 2 demo_info demo_definitions info"
    unfolding usable_answers_cases
    by (auto simp: demo_info_def demo_definitions_def field_def has_field_def max_safe_integer_def)
  then show ?thesis using that by (auto simp: serves_well_def demo_config_def)
qed

text \<open>A first connection, and where its events are.\<close>

lemma reachable_connected:
  obtains w ts log e tr where "conn_reachable demo_config (w, ts, log)"
    and "switched Primary e [ep_client e] w" and "ep_name e = Primary" and "ep_client e = 0"
    and "created_clients w = 1" and "\<not> destroyed w"
    and "log = run_events (breaking 2) (ensure_connected 0 demo_config) [] fresh_connection"
    and "run (breaking 2) (ensure_connected 0 demo_config) [] fresh_connection = (Inr (), tr, w)"
proof -
  obtain info where serves: "\<And>n name c. serves_well demo_config (breaking n) name c demo_info demo_definitions info"
    using breaking_serves by blast
  let ?e = "endpoint_of demo_config Primary 0 info (parse_server_definitions demo_definitions)"
  have fresh: "active fresh_connection = None" "switching fresh_connection = None" "\<not> destroyed fresh_connection"
      "preferred fresh_connection = Primary" "created_clients fresh_connection = 0" "opened fresh_connection = []"
    by (simp_all add: fresh_connection_def)
  from run_connection[OF fresh(1-3), of demo_config "breaking 2" demo_info demo_definitions info, OF serves refl, of 0 "[]"]
  obtain tr' w' where r: "run (breaking 2) (connection 0 demo_config) [] fresh_connection = (Inr ?e, tr', w')"
      "switched Primary ?e [0] w'" "created_clients w' = 1" "\<not> destroyed w'"
    unfolding fresh by auto
  have "conn_reachable demo_config (fresh_connection, [], [])"
    unfolding conn_reachable_def by (rule reachable.Start) simp
  from reachable_handler[OF this[unfolded conn_reachable_def], of "ensure_connected 0 demo_config" "breaking 2" "Inr ()" tr' w']
  obtain ts where "conn_reachable demo_config
      (w', ts, run_events (breaking 2) (ensure_connected 0 demo_config) [] fresh_connection)"
    using r(1) by (auto simp: ensure_connected_def run_simps conn_reachable_def conn_handler.simps)
  then show ?thesis
    by (rule that[of _ _ _ ?e]) (use r in \<open>simp_all add: endpoint_of_def ensure_connected_def run_simps\<close>)
qed

lemma first_connect_sent:
  "\<exists>w1. Sent (ConnectClient 0 ''ws://a'') w1
     \<in> set (run_events (breaking 2) (ensure_connected 0 demo_config) [] fresh_connection)"
  by (simp add: ensure_connected_def connection_def decide_connection_def fresh_connection_def sync_def
      track_def bootstrap_def create_client_def handshake_def connect_client_def endpoint_url_def
      demo_config_def ex_disj_distrib)

lemma run_attempt_breaking:
  assumes "c < n" shows "\<exists>tr'. run (breaking n) (attempt_request c demo_request) tr w = (Inr None, tr', w)"
  using assms by (simp add: attempt_request_def run_simps demo_request_def)

definition second_attempt :: "ledger_request \<Rightarrow> active_endpoint \<Rightarrow> ledger_response cm" where
  "second_attempt q = (\<lambda>second. await (attempt_request (ep_client second) q) (\<lambda>again. case again of
      Some resp \<Rightarrow> Return resp
    | None \<Rightarrow>
        await (sync (\<lambda>w. case drop_failed (ep_client second) w of (d, w') \<Rightarrow> (Inr d, w')))
          (\<lambda>dropped. case dropped of
              None \<Rightarrow> Throw unavailable
            | Some c \<Rightarrow>
                await (disconnect_client c) (\<lambda>_.
                await (sync (\<lambda>w. (Inr (), schedule_reconnect w))) (\<lambda>_.
                Throw unavailable)))))"

lemma request_ledger_second:
  "request_ledger k cfg q = await (connection k cfg) (\<lambda>first. await (attempt_request (ep_client first) q)
     (\<lambda>answer. case answer of Some resp \<Rightarrow> Return resp
        | None \<Rightarrow> await (failover k cfg (ep_client first)) (second_attempt q)))"
  by (simp only: request_ledger_def second_attempt_def)

definition in_flight :: "conn \<Rightarrow> (conn, conn_exn, client_call, client_answer) task list
    \<Rightarrow> (conn, conn_exn, client_call, client_answer) task \<Rightarrow> bool" where
  "in_flight w ts t \<longleftrightarrow> (\<exists>log. conn_reachable demo_config (w, ts @ [t], log))"

lemma in_flight_await:
  "in_flight w ts (tr, await p h) \<Longrightarrow> run env p tr w = (Inr x, tr', w') \<Longrightarrow> in_flight w' ts (tr', h x)"
  unfolding in_flight_def conn_reachable_def by (elim exE) (rule reachable_run_await)

text \<open>
  The second endpoint fails the retry as well; its client is given up, and its disconnection
  belongs to no switch.
\<close>

lemma reachable_second_failure:
  obtains w ts log where "conn_reachable demo_config (w, ts, log)" and "active w = None"
    and "switching w = None" and "\<not> destroyed w" and "opened w = [1]" and "created_clients w = 2"
proof -
  let ?cfg = demo_config and ?env = "breaking 2" and ?q = demo_request
  obtain info where serves: "\<And>n name c. serves_well ?cfg (breaking n) name c demo_info demo_definitions info"
    using breaking_serves by blast
  obtain w ts log e where 0: "conn_reachable ?cfg (w, ts, log)" "switched Primary e [ep_client e] w"
      "ep_name e = Primary" "ep_client e = 0" "created_clients w = 1" "\<not> destroyed w"
    by (rule reachable_connected)
  let ?k = "length ts"
  note a = 0(2)[unfolded switched_def]
  have "in_flight w ts ([], await (request_ledger ?k ?cfg ?q) (\<lambda>_. Return ()))"
    unfolding in_flight_def conn_reachable_def
    by (rule exI, rule reachable.Step[OF 0(1)[unfolded conn_reachable_def]])
      (rule pool_step.Spawn, rule conn_handler.intros(2))
  then have 1: "in_flight w ts ([], await (connection ?k ?cfg) (\<lambda>first. await (attempt_request (ep_client first) ?q)
      (\<lambda>answer. await (case answer of Some resp \<Rightarrow> Return resp | None \<Rightarrow>
         await (failover ?k ?cfg (ep_client first)) (second_attempt ?q)) (\<lambda>_. Return ()))))"
    by (simp add: request_ledger_second await_assoc)
  have "run ?env (connection ?k ?cfg) [] w = (Inr e, [], w)"
    using a by (simp add: connection_def decide_connection_def run_simps)
  note 2 = in_flight_await[OF 1 this, unfolded 0(4)]
  obtain tr2 where "run ?env (attempt_request 0 ?q) [] w = (Inr None, tr2, w)"
    using run_attempt_breaking[of 0 2] by auto
  note 3 = in_flight_await[OF 2 this, simplified option.case await_assoc]
  from run_failover[of w e 0 demo_config ?env demo_info demo_definitions info, OF _ _ _ _ serves refl, of ?k tr2] a 0(3-6)
  obtain tr3 w3 e2 where f: "run ?env (failover ?k ?cfg 0) tr2 w = (Inr e2, tr3, w3)"
      "switched Secondary e2 [1] w3" "created_clients w3 = 2" "\<not> destroyed w3" "ep_client e2 = 1"
    by (auto simp: endpoint_of_def)
  note 4 = in_flight_await[OF 3 f(1), unfolded second_attempt_def f(5) await_assoc]
  obtain tr4 where "run ?env (attempt_request 1 ?q) tr3 w3 = (Inr None, tr4, w3)"
    using run_attempt_breaking[of 1 2] by auto
  note 5 = in_flight_await[OF 4 this, simplified option.case await_assoc]
  let ?w = "w3\<lparr>active := None, closing := 1 # closing w3\<rparr>"
  have "run ?env (sync (\<lambda>w. case drop_failed 1 w of (d, w') \<Rightarrow> (Inr d, w'))) tr4 w3 = (Inr (Some 1), tr4, ?w)"
    using f(2,5) by (simp add: run_simps drop_failed_def switched_def)
  note 6 = in_flight_await[OF 5 this]
  from 6 obtain ts' log' where "conn_reachable demo_config (?w, ts', log')"
    unfolding in_flight_def conn_reachable_def by blast
  then show ?thesis by (rule that) (use f in \<open>simp_all add: switched_def\<close>)
qed

section \<open>Properties\<close>

text \<open>
  C25. Whatever the interleaving of requests, failovers, timers, lost connections and the shutdown:
  apart from clients already told to disconnect, at most one client is connected or connecting, and
  when an endpoint is active it is that endpoint's client.
\<close>

theorem one_client_beside_closing:
  assumes "conn_reachable cfg (w, ts, log)"
  shows "\<exists>c. set (opened w) - set (closing w) \<subseteq> {c} \<and> (\<forall>e. active w = Some e \<longrightarrow> c = ep_client e \<and> c \<in> set (opened w))"
  using conn_reachable_ok[OF assms]
  by (cases "active w") (auto simp: conn_ok_def spare_def)

theorem one_client_beside_closing_witness:
  "\<exists>w ts log c. conn_reachable demo_config (w, ts, log) \<and> active w \<noteq> None \<and>
     set (opened w) - set (closing w) \<subseteq> {c} \<and> c \<in> set (opened w)"
proof -
  obtain w ts log e where w: "conn_reachable demo_config (w, ts, log)" "switched Primary e [ep_client e] w"
    by (rule reachable_connected)
  then have "active w = Some e" by (simp add: switched_def)
  with one_client_beside_closing[OF w(1)] w(1) show ?thesis by (metis option.distinct(1))
qed

text \<open>
  A client is told to connect only while no endpoint is active and no other client is up or
  coming up, except for clients already told to disconnect: two switches never run side by side.
\<close>

lemma connecting_alone:
  assumes "conn_reachable cfg (w, ts, log)" and "Sent (ConnectClient c url) w1 \<in> set log"
  shows "active w1 = None \<and> set (opened w1) - set (closing w1) = {c}"
  using conn_reachable_sent[OF assms] by (auto simp: call_ok_def spare_def)

lemma connecting_alone_witness:
  "\<exists>w1 :: conn. active w1 = None \<and> set (opened w1) - set (closing w1) = {0}"
proof -
  obtain w ts where r: "conn_reachable demo_config
      (w, ts, run_events (breaking 2) (ensure_connected 0 demo_config) [] fresh_connection)"
    by (rule reachable_connected) simp
  obtain w1 where "Sent (ConnectClient 0 ''ws://a'') w1
      \<in> set (run_events (breaking 2) (ensure_connected 0 demo_config) [] fresh_connection)"
    using first_connect_sent by blast
  from connecting_alone[OF r this] show ?thesis by (intro exI[of _ w1])
qed

text \<open>
  C24. The only way an endpoint becomes the active one: no other was, and its own client has
  answered server_info, server_definitions and the ledger subscription, with answers that name the
  configured network, a working server state, a fresh validated ledger and both transaction types.
  A failing or foreign server is never used, however often the connection is lost.
\<close>

theorem active_endpoint_vetted:
  assumes "conn_reachable cfg (w, ts, log)" and "Committed tr w1 w2 \<in> set log"
    and "active w2 = Some e" and "active w1 \<noteq> Some e"
  shows "active w1 = None \<and> vetted cfg tr e"
  using conn_reachable_committed[OF assms(1,2)] assms(3,4) by (auto simp: conn_guarantee_def)

theorem active_endpoint_vetted_witness: "\<exists>tr e. vetted demo_config tr e"
proof -
  obtain w ts log e tr where w: "conn_reachable demo_config (w, ts, log)" "active w = Some e"
      and log: "log = run_events (breaking 2) (ensure_connected 0 demo_config) [] fresh_connection"
      and r: "run (breaking 2) (ensure_connected 0 demo_config) [] fresh_connection = (Inr (), tr, w)"
    by (rule reachable_connected) (simp add: switched_def)
  from run_events_change[OF r, of "\<lambda>w. active w = None"] w(2)
  obtain tr1 w1 w2 e2 where "Committed tr1 w1 w2 \<in> set log" "active w1 = None" "active w2 = Some e2"
    by (auto simp: fresh_connection_def log)
  with active_endpoint_vetted[OF w(1) this(1)] show ?thesis by auto
qed

text \<open>
  One call of \<open>request\<close> sends its request at most twice, on every path and under any
  interference: once on the active endpoint and once more after a failover. (The three requests of
  the bootstrap itself are excluded.)
\<close>

lemma request_at_most_twice:
  assumes "foreign q" shows "at_most_calls (sends q) 2 (request_ledger k cfg q)"
  unfolding request_ledger_def numeral_2_eq_2 using silent_sync_carry_out[OF assms]
  by (auto intro!: silent_await attempt_then silent_disconnect split: option.split)

lemma request_at_most_twice_witness:
  "at_most_calls (sends demo_request) 2 (request_ledger 0 demo_config demo_request)"
  by (rule request_at_most_twice) (simp add: foreign_def demo_request_def bootstrap_commands_def)

text \<open>
  C26. When the active endpoint breaks and the alternate one is usable, \<open>request\<close> answers what the
  alternate says to the identical request; the service then stays there, with the old client
  disconnected and the backoff reset.
\<close>

theorem failover_answers:
  assumes "active w = Some e" and "switching w = None" and "\<not> destroyed w"
    and "\<And>tr. \<exists>m. env tr (ClientRequest (ep_client e) q) = Rejected (TransportFailure m)"
    and "serves_well cfg env (other_endpoint (ep_name e)) (created_clients w) raw_info raw_definitions info"
    and "\<And>tr. env tr (ClientRequest (created_clients w) q) = Answered resp"
  shows "\<exists>tr' w'. run env (request_ledger k cfg q) tr w = (Inr resp, tr', w') \<and>
    switched (other_endpoint (ep_name e))
      (endpoint_of cfg (other_endpoint (ep_name e)) (created_clients w) info
         (parse_server_definitions raw_definitions))
      (created_clients w # removeAll (ep_client e) (opened w)) w'"
proof -
  obtain m where m: "env tr (ClientRequest (ep_client e) q) = Rejected (TransportFailure m)"
    using assms(4) by blast
  have c: "run env (connection k cfg) tr w = (Inr e, tr, w)"
    using assms(1) by (simp add: connection_def decide_connection_def run_simps)
  from run_failover[OF assms(1) refl assms(2,3,5) refl, of k
      "tr @ [(ClientRequest (ep_client e) q, Rejected (TransportFailure m))]"] assms(6)
  show ?thesis
    by (auto simp: request_ledger_def attempt_request_def run_simps c m endpoint_of_def)
qed

theorem failover_answers_witness:
  "\<exists>w tr' w'. run (breaking 1) (request_ledger 7 demo_config demo_request) [] w = (Inr (RespOk []), tr', w') \<and>
     preferred w' = Secondary \<and> opened w' = [1]"
proof -
  obtain info where serves: "\<And>n name c. serves_well demo_config (breaking n) name c demo_info demo_definitions info"
    using breaking_serves by blast
  obtain w ts log e where w: "conn_reachable demo_config (w, ts, log)" "switched Primary e [ep_client e] w"
      "ep_name e = Primary" "ep_client e = 0" "created_clients w = 1" "\<not> destroyed w"
    by (rule reachable_connected)
  have "\<exists>tr' w'. run (breaking 1) (request_ledger 7 demo_config demo_request) [] w = (Inr (RespOk []), tr', w') \<and>
    switched (other_endpoint (ep_name e))
      (endpoint_of demo_config (other_endpoint (ep_name e)) (created_clients w) info
         (parse_server_definitions demo_definitions))
      (created_clients w # removeAll (ep_client e) (opened w)) w'"
    by (rule failover_answers[OF _ _ w(6) _ serves])
      (use w in \<open>simp_all add: switched_def demo_request_def\<close>)
  with w(2-5) show ?thesis by (auto simp: switched_def)
qed

text \<open>
  The documented promise that at most one client is connected at any moment does not hold
  for a client that is already told to disconnect: a request whose retry fails too gives its client up outside any
  switch, and while that client is still disconnecting another caller connects a new one.
\<close>

lemma two_clients_open:
  "\<exists>w ts log e. conn_reachable demo_config (w, ts, log) \<and> active w = Some e \<and>
     opened w = [ep_client e, 1] \<and> ep_client e \<noteq> 1"
proof -
  obtain info where serves: "\<And>n name c. serves_well demo_config (breaking n) name c demo_info demo_definitions info"
    using breaking_serves by blast
  obtain w ts log where w: "conn_reachable demo_config (w, ts, log)" "active w = None"
    "switching w = None" "\<not> destroyed w" "opened w = [1]" "created_clients w = 2"
    by (rule reachable_second_failure)
  from run_connection[OF w(2-4) serves refl, of 2 "length ts" "[]"] w(5,6)
  obtain e tr' w' where r: "run (breaking 2) (connection (length ts) demo_config) [] w = (Inr e, tr', w')"
      "switched (preferred w) e [2, 1] w'" "ep_client e = 2"
    by (auto simp: endpoint_of_def)
  from reachable_handler[OF w(1)[unfolded conn_reachable_def], of "ensure_connected (length ts) demo_config"
      "breaking 2" "Inr ()" tr' w'] r(1)
  obtain ts' log' where "conn_reachable demo_config (w', ts', log')"
    by (auto simp: ensure_connected_def run_simps conn_reachable_def conn_handler.simps)
  moreover have "active w' = Some e" "opened w' = [ep_client e, 1]" "ep_client e \<noteq> 1"
    using r(2,3) by (auto simp: switched_def)
  ultimately show ?thesis by blast
qed

end
