(* ===== verification/ClientAdapter.thy ===== *)
theory ClientAdapter
  imports Connection
begin

text \<open>
  The adapter between the connection manager and the XRPL client library
  (\<open>src/xrpl/xrpl-ledger.client.ts\<close>). The library is not part of this development: what its client
  resolves or throws, and the events it emits, are inputs here. A listener is known by a number.
\<close>

section \<open>What the library throws\<close>

text \<open>
  An object of one of the library's two error classes (with the data of a server error), another
  \<open>Error\<close>, or a value that is no \<open>Error\<close>.
\<close>

datatype thrown =
    ConnectionThrown string string
  | RippledThrown string string "json option"
  | ErrorThrown string string
  | ValueThrown

fun describe_thrown :: "thrown \<Rightarrow> string" where
  "describe_thrown (ConnectionThrown n m) = n @ '': '' @ m"
| "describe_thrown (RippledThrown n m d) = n @ '': '' @ m"
| "describe_thrown (ErrorThrown n m) = n @ '': '' @ m"
| "describe_thrown ValueThrown = ''unknown error''"

section \<open>Requests\<close>

definition or_empty :: "json option \<Rightarrow> object" where
  "or_empty v = (case as_record v of None \<Rightarrow> [] | Some ob \<Rightarrow> ob)"

definition adapter_connect :: "thrown + unit \<Rightarrow> conn_exn + unit" where
  "adapter_connect outcome =
     (case outcome of
        Inl e \<Rightarrow> Inl (TransportFailure (''connect failed: '' @ describe_thrown e))
      | Inr u \<Rightarrow> Inr u)"

definition server_answer :: "json option \<Rightarrow> ledger_response" where
  "server_answer d =
     (let data = or_empty d
      in RespErr (case optional_str (field data ''error'') of Some e \<Rightarrow> e | None \<Rightarrow> ''unknownError'')
           (optional_str (field data ''error_message'')) data)"

definition adapter_request :: "ledger_request \<Rightarrow> thrown + json option \<Rightarrow> client_answer" where
  "adapter_request q outcome =
     (case outcome of
        Inr result \<Rightarrow> Answered (RespOk (or_empty result))
      | Inl e \<Rightarrow>
          (case e of
             ConnectionThrown n m \<Rightarrow>
               Rejected (TransportFailure (command q @ '' failed: '' @ describe_thrown e))
           | RippledThrown n m d \<Rightarrow> Answered (server_answer d)
           | ErrorThrown n m \<Rightarrow> Rejected (Failed (PlainError m))
           | ValueThrown \<Rightarrow> Rejected (Failed (PlainError []))))"

text \<open>
  The manager asks another endpoint after a transport failure and only then. It never mistakes an
  answer of the server for one, an error answer included, nor a programming error.
\<close>

lemma adapter_request_retried:
  "(\<exists>m. adapter_request q outcome = Rejected (TransportFailure m)) \<longleftrightarrow>
     (\<exists>n m. outcome = Inl (ConnectionThrown n m))"
  by (auto simp: adapter_request_def split: sum.split thrown.split)

lemma adapter_request_answered:
  "(\<exists>r. adapter_request q outcome = Answered r) \<longleftrightarrow>
     (\<exists>result. outcome = Inr result) \<or> (\<exists>n m d. outcome = Inl (RippledThrown n m d))"
  by (auto simp: adapter_request_def split: sum.split thrown.split)

section \<open>Events\<close>

record adapter =
  ad_closing :: bool
  ledger_listeners :: "nat list"
  disconnect_listeners :: "nat list"

text \<open>What a listener is called with.\<close>

datatype callback = LedgerCallback nat nat string | DisconnectCallback nat

definition on_ledger_closed :: "nat \<Rightarrow> adapter \<Rightarrow> adapter" where
  "on_ledger_closed l a = a\<lparr>ledger_listeners := ledger_listeners a @ [l]\<rparr>"

definition on_disconnected :: "nat \<Rightarrow> adapter \<Rightarrow> adapter" where
  "on_disconnected l a = a\<lparr>disconnect_listeners := disconnect_listeners a @ [l]\<rparr>"

definition remove_all_listeners :: "adapter \<Rightarrow> adapter" where
  "remove_all_listeners a = a\<lparr>ledger_listeners := [], disconnect_listeners := []\<rparr>"

text \<open>\<open>disconnect()\<close> up to its await; whatever the library does then, it resolves.\<close>

definition adapter_disconnect :: "adapter \<Rightarrow> adapter" where
  "adapter_disconnect a = a\<lparr>ad_closing := True\<rparr>"

text \<open>The handlers that the constructor registers with the library.\<close>

definition ledger_closed_handler :: "nat \<Rightarrow> string \<Rightarrow> adapter \<Rightarrow> callback list" where
  "ledger_closed_handler n h a = map (\<lambda>l. LedgerCallback l n h) (ledger_listeners a)"

definition disconnected_handler :: "adapter \<Rightarrow> callback list" where
  "disconnected_handler a = (if ad_closing a then [] else map DisconnectCallback (disconnect_listeners a))"

datatype adapter_event =
    OnLedgerClosed nat
  | OnDisconnected nat
  | RemoveAllListeners
  | Disconnect
  | LedgerClosed nat string
  | Disconnected

fun adapter_step :: "adapter \<Rightarrow> adapter_event \<Rightarrow> callback list \<times> adapter" where
  "adapter_step a (OnLedgerClosed l) = ([], on_ledger_closed l a)"
| "adapter_step a (OnDisconnected l) = ([], on_disconnected l a)"
| "adapter_step a RemoveAllListeners = ([], remove_all_listeners a)"
| "adapter_step a Disconnect = ([], adapter_disconnect a)"
| "adapter_step a (LedgerClosed n h) = (ledger_closed_handler n h a, a)"
| "adapter_step a Disconnected = (disconnected_handler a, a)"

lemmas adapter_defs =
  on_ledger_closed_def on_disconnected_def remove_all_listeners_def adapter_disconnect_def
  ledger_closed_handler_def disconnected_handler_def

fun adapter_run :: "adapter \<Rightarrow> adapter_event list \<Rightarrow> callback list" where
  "adapter_run a [] = []"
| "adapter_run a (e # es) = (case adapter_step a e of (cs, a') \<Rightarrow> cs @ adapter_run a' es)"

text \<open>A client that was told to disconnect never reports a lost connection again.\<close>

lemma adapter_closing: "ad_closing a \<Longrightarrow> ad_closing (snd (adapter_step a e))"
  by (cases e) (simp_all add: adapter_defs)

lemma disconnected_client_is_silent:
  "ad_closing a \<Longrightarrow> DisconnectCallback l \<notin> set (adapter_run a es)"
proof (induction es arbitrary: a)
  case (Cons e es)
  have "DisconnectCallback l \<notin> set (fst (adapter_step a e))" using Cons.prems by (cases e) (auto simp: adapter_defs)
  with Cons adapter_closing[OF Cons.prems, of e] show ?case
    by (cases "adapter_step a e") simp
qed simp

text \<open>Once its listeners are removed, it calls nobody until somebody listens again.\<close>

definition listens :: "adapter_event \<Rightarrow> bool" where
  "listens e \<longleftrightarrow> (\<exists>l. e = OnLedgerClosed l \<or> e = OnDisconnected l)"

lemma removed_listeners_are_silent:
  "ledger_listeners a = [] \<Longrightarrow> disconnect_listeners a = [] \<Longrightarrow> \<forall>e \<in> set es. \<not> listens e \<Longrightarrow>
     adapter_run a es = []"
proof (induction es arbitrary: a)
  case (Cons e es)
  then show ?case by (cases e) (auto simp: listens_def adapter_defs)
qed simp

end
