(* ===== verification/Scheduler.thy ===== *)
theory Scheduler
  imports Prelude
begin

text \<open>
  When finality cycles run: the single flight of \<open>runCycle\<close> (\<open>src/finality/finality.service.ts\<close>)
  and the triggers of \<open>FinalityScheduler\<close> (\<open>src/finality/finality.scheduler.ts\<close>). A promise
  returned by \<open>runCycle\<close> is known by its number. Two counters that the code does not keep record
  how many cycles have begun and ended; what a cycle does is in the theory of finality, where it
  is shown that it never throws.
\<close>

section \<open>State and operations\<close>

record sched =
  pending :: bool
  running :: "nat option"
  stopped :: bool
  timer_set :: bool
  subscribed :: bool
  flights :: nat
  begun :: nat
  ended :: nat

definition fresh_sched :: sched where
  "fresh_sched = \<lparr>pending = False, running = None, stopped = False, timer_set = False,
     subscribed = False, flights = 0, begun = 0, ended = 0\<rparr>"

text \<open>The loop head: take the pending flag and begin a cycle, or end the flight.\<close>

definition cycle_loop :: "sched \<Rightarrow> sched" where
  "cycle_loop s =
     (if pending s then s\<lparr>pending := False, begun := begun s + 1\<rparr> else s\<lparr>running := None\<rparr>)"

definition run_cycle :: "sched \<Rightarrow> nat \<times> sched" where
  "run_cycle s =
     (let s1 = s\<lparr>pending := True\<rparr>
      in case running s1 of
           Some p \<Rightarrow> (p, s1)
         | None \<Rightarrow> (flights s1, cycle_loop (s1\<lparr>running := Some (flights s1), flights := flights s1 + 1\<rparr>)))"

text \<open>\<open>await this.cycle()\<close> resumes.\<close>

definition cycle_ends :: "sched \<Rightarrow> sched" where
  "cycle_ends s = cycle_loop (s\<lparr>ended := ended s + 1\<rparr>)"

definition trigger :: "sched \<Rightarrow> sched" where
  "trigger s = (if stopped s then s else snd (run_cycle s))"

definition on_bootstrap :: "sched \<Rightarrow> sched" where
  "on_bootstrap s = trigger (s\<lparr>subscribed := True, timer_set := True\<rparr>)"

text \<open>\<open>idle\<close> waits for the flight that is running, if there is one: with \<open>Some p\<close> until \<open>p\<close> has settled.\<close>

definition idle :: "sched \<Rightarrow> nat option" where
  "idle s = running s"

text \<open>Up to its await of \<open>idle\<close>.\<close>

definition on_destroy :: "sched \<Rightarrow> sched" where
  "on_destroy s = s\<lparr>stopped := True, timer_set := False\<rparr>"

datatype sched_event = Bootstrap | LedgerValidated | Tick | CycleEnds | Destroy

inductive sched_step :: "sched \<Rightarrow> sched_event \<Rightarrow> sched \<Rightarrow> bool" where
  Bootstrap: "\<not> subscribed s \<Longrightarrow> sched_step s Bootstrap (on_bootstrap s)"
| LedgerValidated: "subscribed s \<Longrightarrow> sched_step s LedgerValidated (trigger s)"
| Tick: "timer_set s \<Longrightarrow> sched_step s Tick (trigger s)"
| CycleEnds: "running s \<noteq> None \<Longrightarrow> sched_step s CycleEnds (cycle_ends s)"
| Destroy: "sched_step s Destroy (on_destroy s)"

inductive sched_runs :: "sched \<Rightarrow> sched_event list \<Rightarrow> sched \<Rightarrow> bool" where
  Nil: "sched_runs s [] s"
| Cons: "sched_step s e s1 \<Longrightarrow> sched_runs s1 es s2 \<Longrightarrow> sched_runs s (e # es) s2"

inductive_cases sched_runs_ConsE: "sched_runs s (e # es) s2"
inductive_cases sched_runs_NilE: "sched_runs s [] s2"
inductive_cases sched_stepE: "sched_step s e s1"

lemmas sched_defs = cycle_loop_def run_cycle_def cycle_ends_def trigger_def on_bootstrap_def on_destroy_def Let_def

section \<open>Invariant\<close>

definition flight_ok :: "sched \<Rightarrow> bool" where
  "flight_ok s \<longleftrightarrow>
     begun s = ended s + (if running s = None then 0 else 1) \<and> (pending s \<longrightarrow> running s \<noteq> None) \<and>
     (\<forall>p. running s = Some p \<longrightarrow> p < flights s)"

lemma flight_ok_step: "sched_step s e s' \<Longrightarrow> flight_ok s \<Longrightarrow> flight_ok s'"
  by (induction rule: sched_step.induct) (auto simp: flight_ok_def sched_defs split: option.splits)

lemma flight_ok_runs: "sched_runs s es s' \<Longrightarrow> flight_ok s \<Longrightarrow> flight_ok s'"
  by (induction rule: sched_runs.induct) (auto intro: flight_ok_step)

lemmas sched_runs_events =
  sched_runs.Nil sched_runs.Cons[OF sched_step.Bootstrap] sched_runs.Cons[OF sched_step.Tick]
  sched_runs.Cons[OF sched_step.LedgerValidated] sched_runs.Cons[OF sched_step.CycleEnds]
  sched_runs.Cons[OF sched_step.Destroy]

lemma fresh_flight_ok: "flight_ok fresh_sched"
  by (simp add: flight_ok_def fresh_sched_def)

text \<open>
  A trigger at a moment when \<open>n\<close> cycles had begun is waiting in the flag, or a later cycle has
  begun; its promise is the flight until that cycle has ended.
\<close>

definition owed :: "nat \<Rightarrow> nat \<Rightarrow> sched \<Rightarrow> bool" where
  "owed n p s \<longleftrightarrow> n \<le> begun s \<and> (pending s \<or> n < begun s) \<and> (running s = Some p \<or> n < ended s)"

lemma owed_step:
  assumes "sched_step s e s'" and "flight_ok s" and "owed n p s"
  shows "owed n p s'"
  using assms by (induction rule: sched_step.induct) (auto simp: flight_ok_def owed_def sched_defs split: option.splits if_splits)

lemma owed_runs: "sched_runs s es s' \<Longrightarrow> flight_ok s \<Longrightarrow> owed n p s \<Longrightarrow> owed n p s'"
  by (induction rule: sched_runs.induct) (blast intro: owed_step flight_ok_step)+

lemma owed_trigger:
  assumes "flight_ok s" and "run_cycle s = (p, s')"
  shows "owed (begun s) p s' \<and> flight_ok s'"
  using assms by (auto simp: flight_ok_def owed_def sched_defs split: option.splits)

text \<open>After the next end the cycle that answers the trigger has begun, after the one after it, it has ended.\<close>

lemma ends_count: "sched_runs s es s' \<Longrightarrow> ended s' = ended s + count_list es CycleEnds"
proof (induction rule: sched_runs.induct)
  case (Cons s e s1 es s2)
  from Cons(1) have "ended s1 = ended s + (if e = CycleEnds then 1 else 0)"
    by cases (auto simp: sched_defs split: option.splits)
  with Cons show ?case by simp
qed simp

section \<open>Properties\<close>

text \<open>
  C29. Never two finality cycles at once, whatever triggers arrive, and a trigger is never left
  waiting while none runs.
\<close>

theorem cycles_never_overlap:
  assumes "sched_runs fresh_sched es s"
  shows "begun s \<le> ended s + 1 \<and> (begun s = ended s \<longleftrightarrow> running s = None) \<and> (pending s \<longrightarrow> running s \<noteq> None)"
  using flight_ok_runs[OF assms fresh_flight_ok] by (auto simp: flight_ok_def)

theorem cycles_never_overlap_witness:
  "\<exists>s. sched_runs fresh_sched [Bootstrap, Tick, LedgerValidated, CycleEnds] s \<and> begun s = 2 \<and> ended s = 1 \<and>
     (begun s \<le> ended s + 1 \<and> (begun s = ended s \<longleftrightarrow> running s = None))"
proof -
  let ?s = "cycle_ends (trigger (trigger (on_bootstrap fresh_sched)))"
  have r: "sched_runs fresh_sched [Bootstrap, Tick, LedgerValidated, CycleEnds] ?s"
    by (rule sched_runs_events, (simp add: sched_defs fresh_sched_def; fail)?)+
  moreover have "begun ?s = 2" "ended ?s = 1" by (simp_all add: sched_defs fresh_sched_def)
  ultimately show ?thesis using cycles_never_overlap[OF r] by (intro exI[of _ ?s]) simp
qed

text \<open>
  C30. No trigger is lost: once the promise that \<open>runCycle\<close> returned has settled, a whole cycle has
  run that began after the call; and at the latest the second end of a cycle from then on is the
  end of such a cycle.
\<close>

theorem trigger_is_served:
  assumes "sched_runs fresh_sched es s" and "run_cycle s = (p, s1)" and "sched_runs s1 es' s2"
    and "running s2 \<noteq> Some p \<or> 2 \<le> count_list es' CycleEnds"
  shows "begun s < ended s2"
proof -
  have ok: "flight_ok s" by (rule flight_ok_runs[OF assms(1) fresh_flight_ok])
  from owed_trigger[OF ok assms(2)] have o: "owed (begun s) p s1" "flight_ok s1" by auto
  from owed_runs[OF assms(3) o(2,1)] have "owed (begun s) p s2" .
  moreover have "ended s2 = ended s1 + count_list es' CycleEnds" by (rule ends_count[OF assms(3)])
  moreover have "ended s1 = ended s" using assms(2) by (auto simp: sched_defs split: option.splits)
  ultimately show ?thesis using assms(4) ok by (auto simp: owed_def flight_ok_def split: if_splits)
qed

theorem trigger_is_served_witness:
  "\<exists>s p s1 s2. run_cycle s = (p, s1) \<and> sched_runs s1 [CycleEnds, CycleEnds] s2 \<and> begun s < ended s2"
proof -
  let ?s = "on_bootstrap fresh_sched" and ?s1 = "snd (run_cycle (on_bootstrap fresh_sched))"
  let ?s2 = "cycle_ends (cycle_ends ?s1)"
  have r: "sched_runs fresh_sched [Bootstrap] ?s"
    by (rule sched_runs_events, (simp add: fresh_sched_def; fail)?)+
  have c: "run_cycle ?s = (0, ?s1)" by (simp add: sched_defs fresh_sched_def)
  have r2: "sched_runs ?s1 [CycleEnds, CycleEnds] ?s2"
    by (rule sched_runs_events, (simp add: sched_defs fresh_sched_def; fail)?)+
  from trigger_is_served[OF r c r2] c r2 show ?thesis by (intro exI conjI) simp_all
qed

text \<open>
  Any number of triggers during a cycle are coalesced into exactly one more cycle, after which
  the flight is over.
\<close>

lemma triggers_coalesce:
  assumes "sched_runs fresh_sched es s" and "running s = Some p" and "\<not> pending s"
    and "set ts \<subseteq> {Tick, LedgerValidated}" and "ts \<noteq> []" and "\<not> stopped s"
    and "sched_runs s (ts @ [CycleEnds, CycleEnds]) s'"
  shows "begun s' = begun s + 1 \<and> running s' = None \<and> \<not> pending s'"
proof -
  have step: "s1 = s\<lparr>pending := True\<rparr>" if "sched_step u e s1" "e \<in> {Tick, LedgerValidated}"
      "u = s \<or> u = s\<lparr>pending := True\<rparr>" for u e s1
    using that assms(2,6) by (auto elim!: sched_stepE simp: sched_defs)
  have "s' = cycle_ends (cycle_ends (s\<lparr>pending := True\<rparr>))"
    if "sched_runs u (ts @ [CycleEnds, CycleEnds]) s'" "set ts \<subseteq> {Tick, LedgerValidated}"
      "u = s\<lparr>pending := True\<rparr> \<or> u = s \<and> ts \<noteq> []" for u ts
    using that
  proof (induction ts arbitrary: u)
    case Nil
    then show ?case by (auto elim!: sched_runs_ConsE sched_runs_NilE sched_stepE)
  next
    case (Cons e ts)
    then obtain u1 where u1: "sched_step u e u1" "sched_runs u1 (ts @ [CycleEnds, CycleEnds]) s'"
      by (auto elim: sched_runs_ConsE)
    from step[OF u1(1)] Cons.prems(2,3) have "u1 = s\<lparr>pending := True\<rparr>" by auto
    with Cons.IH[OF u1(2)] Cons.prems(2) show ?case by simp
  qed
  with assms(2,4,5,7) have "s' = cycle_ends (cycle_ends (s\<lparr>pending := True\<rparr>))" by blast
  then show ?thesis using assms(2) by (simp add: sched_defs)
qed

text \<open>After the stop the flight can only go on or end, with one more cycle at most.\<close>

lemma stopped_runs:
  assumes "sched_runs s es s'" and "stopped s" and "flight_ok s"
  shows "stopped s' \<and> begun s' + (if pending s' then 1 else 0) \<le> begun s + (if pending s then 1 else 0) \<and>
    (running s' = running s \<or> running s' = None) \<and> (running s = None \<longrightarrow> begun s' = begun s)"
  using assms
proof (induction rule: sched_runs.induct)
  case (Cons s e s1 es s2)
  from Cons(1) have "stopped s1 \<and> begun s1 + (if pending s1 then 1 else 0) \<le> begun s + (if pending s then 1 else 0) \<and>
      (running s1 = running s \<or> running s1 = None) \<and> (running s = None \<longrightarrow> begun s1 = begun s)"
    using Cons(4,5) by cases (auto simp: sched_defs flight_ok_def)
  moreover from Cons(1,5) have "flight_ok s1" by (rule flight_ok_step)
  ultimately show ?case using Cons.IH by auto
qed auto

text \<open>
  C31. Shutdown is orderly: after \<open>onModuleDestroy\<close> has been called at most one more cycle begins, and
  when the promise it waits for has settled, or there was none, nothing runs and no cycle begins
  again: the pool and the connection can be closed.
\<close>

theorem stopped_is_final:
  assumes "sched_runs fresh_sched es s" and "sched_runs (on_destroy s) es1 s1" and "sched_runs s1 es2 s2"
  shows "begun s2 \<le> begun s + 1 \<and>
    (idle (on_destroy s) = None \<or> running s1 \<noteq> idle (on_destroy s) \<longrightarrow> running s2 = None \<and> begun s2 = begun s1)"
proof -
  have ok: "flight_ok (on_destroy s)"
    using flight_ok_runs[OF assms(1) fresh_flight_ok] flight_ok_step[OF sched_step.Destroy] by blast
  have stop: "stopped (on_destroy s)" "begun (on_destroy s) = begun s" "pending (on_destroy s) = pending s"
    by (simp_all add: on_destroy_def)
  note first = stopped_runs[OF assms(2) stop(1) ok]
  then have "stopped s1" by blast
  from first stop(2,3) stopped_runs[OF assms(3) this flight_ok_runs[OF assms(2) ok]] show ?thesis
    unfolding idle_def by (auto split: if_splits)
qed

theorem stopped_is_final_witness:
  "\<exists>s s1 s2. sched_runs fresh_sched [Bootstrap, Tick] s \<and> sched_runs (on_destroy s) [CycleEnds, CycleEnds] s1 \<and>
     sched_runs s1 [LedgerValidated, LedgerValidated] s2 \<and> begun s1 = begun s + 1 \<and>
     running s2 = None \<and> begun s2 = begun s1"
proof -
  let ?s = "trigger (on_bootstrap fresh_sched)"
  let ?s1 = "cycle_ends (cycle_ends (on_destroy ?s))" and ?t = "\<lambda>s. trigger (trigger s)"
  have r: "sched_runs fresh_sched [Bootstrap, Tick] ?s"
    by (rule sched_runs_events, (simp add: sched_defs fresh_sched_def; fail)?)+
  have r1: "sched_runs (on_destroy ?s) [CycleEnds, CycleEnds] ?s1"
    by (rule sched_runs_events, (simp add: sched_defs fresh_sched_def; fail)?)+
  have r2: "sched_runs ?s1 [LedgerValidated, LedgerValidated] (?t ?s1)"
    by (rule sched_runs_events, (simp add: sched_defs fresh_sched_def; fail)?)+
  have s: "running ?s1 \<noteq> idle (on_destroy ?s)" "begun ?s1 = begun ?s + 1"
    by (simp_all add: idle_def sched_defs fresh_sched_def)
  from stopped_is_final[OF r r1 r2] s r r1 r2 show ?thesis by blast
qed

end
