(* ===== verification/Paging.thy ===== *)
theory Paging
  imports Scenario
begin

text \<open>
  Reading the whole list of intents page by page: the client follows \<open>nextCursor\<close> until there is
  none. Over a table that does not change meanwhile this reads every matching row exactly once, the
  newest first.
\<close>

definition page_result :: "list_query \<Rightarrow> world \<Rightarrow> exn + (intent_row list \<times> string option)" where
  "page_result q w =
     rbind (query_before q) (\<lambda>before. Inr (page_of (page_limit q) (list_rows (page_filter q before) w)))"

lemma run_list_page: "run env (list_page q) tr w = (page_result q w, tr, w)"
  by (cases "query_before q")
    (simp_all add: list_page_def page_result_def list_intents_def db_def run_simps)

text \<open>The pages a client gets that asks at most \<open>n\<close> times.\<close>

fun walk :: "nat \<Rightarrow> list_query \<Rightarrow> world \<Rightarrow> intent_row list list" where
  "walk 0 q w = []"
| "walk (Suc n) q w =
     (case page_result q w of
        Inl e \<Rightarrow> []
      | Inr (page, following) \<Rightarrow>
          page # (case following of None \<Rightarrow> [] | Some c \<Rightarrow> walk n (q\<lparr>query_cursor := Some c\<rparr>) w))"

definition row_key :: "intent_row \<Rightarrow> nat \<times> string" where
  "row_key r = (created_at r, intent_id r)"

definition matching :: "list_query \<Rightarrow> world \<Rightarrow> intent_row list" where
  "matching q w = rev (sort_key row_key (filter (list_matches (page_filter q None)) (intents w)))"

section \<open>Strictly descending lists\<close>

lemma filter_below:
  assumes "sorted_wrt (\<lambda>a b. k b < k a) L" and "j < length L"
  shows "filter (\<lambda>r. k r < (k (L ! j) :: 'k :: linorder)) L = drop (Suc j) L"
  using assms
proof (induction L arbitrary: j)
  case (Cons a L)
  show ?case
  proof (cases j)
    case 0
    have "filter (\<lambda>r. k r < k a) L = L" using Cons.prems(1) by (auto intro: filter_True)
    then show ?thesis by (simp add: 0)
  next
    case (Suc i)
    then have "k (L ! i) < k a" using Cons.prems by auto
    then have "filter (\<lambda>r. k r < k (L ! i)) (a # L) = filter (\<lambda>r. k r < k (L ! i)) L"
      by (simp add: order_less_not_sym)
    then show ?thesis using Cons.IH[of i] Cons.prems by (simp add: Suc del: filter.simps)
  qed
qed simp

lemma sorted_key_strict:
  assumes "distinct (map k xs)"
  shows "sorted_wrt (\<lambda>a b. (k b :: 'k :: linorder) < k a) (rev (sort_key k xs))"
proof -
  have "distinct (map k (sort_key k xs))" using assms by (metis distinct_map distinct_sort set_sort)
  then have "sorted_wrt (<) (map k (sort_key k xs))" by (simp add: strict_sorted_iff)
  then show ?thesis by (simp add: sorted_wrt_map sorted_wrt_rev)
qed

text \<open>The rows after position \<open>j\<close> are the ones a cursor at position \<open>j\<close> selects.\<close>

definition page_table :: "world \<Rightarrow> bool" where
  "page_table w \<longleftrightarrow> distinct (map intent_id (intents w)) \<and>
     (\<forall>r \<in> set (intents w). uuid_shape (intent_id r) \<and> date_range (int (created_at r)))"

lemma matching_strict: "page_table w \<Longrightarrow> sorted_wrt (\<lambda>a b. row_key b < row_key a) (matching q w)"
  unfolding matching_def
proof (rule sorted_key_strict)
  assume "page_table w"
  then have "distinct (map intent_id (filter (list_matches (page_filter q None)) (intents w)))"
    by (simp add: page_table_def distinct_map_filter)
  moreover have "intent_id = snd \<circ> row_key" by (simp add: fun_eq_iff row_key_def)
  ultimately show "distinct (map row_key (filter (list_matches (page_filter q None)) (intents w)))"
    using inj_on_imageI2[of snd row_key] by (simp add: distinct_map)
qed

lemma list_rows_before:
  assumes "page_table w" and "j < length (matching q w)"
  shows "list_rows (page_filter q (Some (map_prod int id (row_key (matching q w ! j))))) w =
    take (page_limit q + 1) (drop (Suc j) (matching q w))"
proof -
  let ?x = "row_key (matching q w ! j)"
  have m: "list_matches (page_filter q (Some (map_prod int id ?x))) r \<longleftrightarrow>
      list_matches (page_filter q None) r \<and> row_key r < ?x" for r
    by (cases ?x) (auto simp: list_matches_def page_filter_def optional_check_def row_key_def less_prod_def')
  have "rev (sort_key row_key (filter (\<lambda>r. list_matches (page_filter q None) r \<and> row_key r < ?x) (intents w))) =
      filter (\<lambda>r. row_key r < ?x) (matching q w)"
    by (simp only: matching_def rev_filter[symmetric] filter_sort filter_filter)
  also have "\<dots> = drop (Suc j) (matching q w)"
    by (rule filter_below[OF matching_strict[OF assms(1)] assms(2)])
  finally show ?thesis
    unfolding list_rows_def m by (simp add: page_filter_def row_key_def[abs_def])
qed

lemma list_rows_first:
  "list_rows (page_filter q None) w = take (page_limit q + 1) (matching q w)"
  unfolding list_rows_def matching_def by (simp add: page_filter_def row_key_def[abs_def])

lemma matching_cursor [simp]: "matching (q\<lparr>query_cursor := c\<rparr>) w = matching q w"
  by (simp add: matching_def page_filter_def list_matches_def page_limit_def)

lemma page_limit_cursor [simp]: "page_limit (q\<lparr>query_cursor := c\<rparr>) = page_limit q"
  by (simp add: page_limit_def)

text \<open>Where a walk stands: at the start, or behind the row at \<open>j\<close>.\<close>

definition stands_at :: "nat \<Rightarrow> list_query \<Rightarrow> world \<Rightarrow> bool" where
  "stands_at j q w \<longleftrightarrow>
     (case j of
        0 \<Rightarrow> query_cursor q = None
      | Suc i \<Rightarrow> i < length (matching q w) \<and>
          query_cursor q = Some (encode_cursor (map_prod int id (row_key (matching q w ! i)))))"

lemma page_table_cursor:
  assumes "page_table w" and "r \<in> set (matching q w)"
  shows "decode_cursor (encode_cursor (map_prod int id (row_key r))) = Inr (map_prod int id (row_key r))"
  by (rule decode_encode_cursor) (use assms in \<open>auto simp: page_table_def matching_def row_key_def\<close>)

lemma page_result_at:
  assumes "page_table w" and "stands_at j q w"
  shows "page_result q w = Inr (page_of (page_limit q) (take (page_limit q + 1) (drop j (matching q w))))"
proof (cases j)
  case 0
  then show ?thesis
    using assms(2) by (simp add: page_result_def stands_at_def query_before_def list_rows_first)
next
  case (Suc i)
  then have i: "i < length (matching q w)"
      "query_cursor q = Some (encode_cursor (map_prod int id (row_key (matching q w ! i))))"
    using assms(2) by (simp_all add: stands_at_def)
  then show ?thesis
    using page_table_cursor[OF assms(1) nth_mem[OF i(1)]] list_rows_before[OF assms(1) i(1)]
    by (simp add: page_result_def query_before_def Suc)
qed

lemma walk_from:
  assumes "page_table w" and "stands_at j q w" and "0 < page_limit q" and "length (matching q w) < j + n"
    and "0 < n"
  shows "concat (walk n q w) = drop j (matching q w) \<and> (\<forall>page \<in> set (walk n q w). length page \<le> page_limit q)"
  using assms(2-)
proof (induction n arbitrary: j q)
  case (Suc n)
  let ?L = "matching q w" and ?lim = "page_limit q"
  let ?rest = "drop j ?L"
  note p = page_result_at[OF assms(1) Suc.prems(1)]
  show ?case
  proof (cases "?lim < length ?rest")
    case False
    then show ?thesis by (simp add: p page_of_def min_def)
  next
    case True
    let ?k = "j + ?lim"
    let ?q = "q\<lparr>query_cursor := Some (encode_cursor (map_prod int id (row_key (?L ! (?k - 1)))))\<rparr>"
    have l: "last (take ?lim ?rest) = ?L ! (?k - 1)" "take ?lim ?rest \<noteq> []"
      using True Suc.prems(2) by (auto simp: last_conv_nth)
    have st: "stands_at ?k ?q w"
      using Suc.prems(2) True by (cases ?k) (auto simp: stands_at_def)
    have "walk (Suc n) q w = take ?lim ?rest # walk n ?q w"
      using True l by (simp add: p page_of_def row_key_def min_def)
    moreover have "concat (walk n ?q w) = drop ?k ?L \<and> (\<forall>page \<in> set (walk n ?q w). length page \<le> ?lim)"
      using Suc.IH[OF st] Suc.prems(2,3) True by simp
    moreover have "take ?lim ?rest @ drop ?k ?L = ?rest" by (metis add.commute append_take_drop_id drop_drop)
    ultimately show ?thesis by simp
  qed
qed simp

section \<open>Properties\<close>

text \<open>
  C32. Following the cursors from the first page on reads every intent that matches the filters, once
  each, the newest first, in pages no longer than the limit; it takes no more requests than there
  are rows, and one.
\<close>

theorem paging_is_complete:
  assumes "page_table w" and "query_cursor q = None" and "0 < page_limit q"
    and "length (matching q w) < n"
  shows "concat (walk n q w) = matching q w \<and> (\<forall>page \<in> set (walk n q w). length page \<le> page_limit q)"
  using walk_from[OF assms(1), of 0 q n] assms(2-4) by (simp add: stands_at_def)

definition demo_uuid :: "char \<Rightarrow> string" where
  "demo_uuid c = ''01234567-89ab-cdef-0123-456789abcde'' @ [c]"

definition demo_table :: world where
  "demo_table = empty_world\<lparr>intents :=
     [new_row demo_codec 2 (demo_uuid CHR ''1'') ''k1'' demo_payload 5,
      new_row demo_codec 2 (demo_uuid CHR ''2'') ''k2'' demo_payload 5,
      new_row demo_codec 2 (demo_uuid CHR ''3'') ''k3'' demo_payload 4]\<rparr>"

definition demo_query :: list_query where
  "demo_query = \<lparr>query_type = None, query_status = None, query_account = None,
     query_limit = Some 2, query_cursor = None\<rparr>"

theorem paging_is_complete_witness:
  "page_table demo_table \<and> concat (walk 4 demo_query demo_table) = matching demo_query demo_table"
proof -
  have u: "list_all (\<lambda>c. uuid_shape (demo_uuid c)) [CHR ''1'', CHR ''2'', CHR ''3'']" by code_simp
  then have t: "page_table demo_table"
    by (simp add: page_table_def demo_table_def new_row_def date_range_def demo_uuid_def)
  moreover have "length (matching demo_query demo_table) \<le> length (intents demo_table)"
    by (simp add: matching_def length_filter_le)
  then have "length (matching demo_query demo_table) < 4" by (simp add: demo_table_def)
  ultimately show ?thesis
    using paging_is_complete[of demo_table demo_query 4] by (simp add: demo_query_def page_limit_def)
qed

end
