(* ===== verification/Settlement.thy ===== *)
theory Settlement
  imports Scenario
begin

text \<open>
  What a cycle achieves. Once the windows of the active intents have passed, one cycle that is
  answered by a complete ledger leaves none of them open: the service does come to an end with
  every transaction it started. This is about the handler run alone, on a table of any size.
\<close>

section \<open>Settling one row\<close>

text \<open>The row ended in a terminal status, and no other row changed.\<close>

definition settled_into :: "string \<Rightarrow> world \<Rightarrow> world \<Rightarrow> bool" where
  "settled_into i w w' \<longleftrightarrow>
     table_ok (intents w') \<and> (\<exists>r'. find_row i w' = Some r' \<and> is_terminal (status r')) \<and>
     (\<forall>j. j \<noteq> i \<longrightarrow> find_row j w' = find_row j w)"

text \<open>
  A transition to a terminal status meets no constraint: it leaves the checked columns alone, and
  a terminal row owns no Sequence.
\<close>

lemma run_terminal_transition:
  assumes w: "table_ok (intents w)" and r: "find_row i w = Some r"
    and expected: "status r \<in> set (request_from req)" "can_transition (status r) (request_to req)"
    and terminal: "is_terminal (request_to req)"
    and checks: "row_checks (moved (request_patch req) (request_to req) (clock w) r) = row_checks r"
    and hash: "transaction_hash (apply_patch (request_patch req) r) = transaction_hash r"
  shows "\<exists>w'. run env (transition i req) tr w =
      (Inr (Some (moved (request_patch req) (request_to req) (clock w) r)), tr, w') \<and>
    find_row i w' = Some (moved (request_patch req) (request_to req) (clock w) r) \<and> settled_into i w w'"
proof -
  let ?r' = "moved (request_patch req) (request_to req) (clock w) r"
  have r_in: "r \<in> set (intents w)" "intent_id r = i" using find_row_SomeD[OF r] by auto
  have id: "intent_id ?r' = i" "idempotency_key ?r' = idempotency_key r"
      "transaction_hash ?r' = transaction_hash r" "status ?r' = request_to req"
    using r_in hash by (simp_all add: moved_def)
  have "\<not> row_clash p ?r'" if p: "p \<in> set (intents w)" "intent_id p \<noteq> i" for p
  proof
    assume "row_clash p ?r'"
    then have "row_clash p r"
      using id p(2) r_in(2) terminal
      by (auto simp: row_clash_iff same_sequence_owner_def same_transaction_hash_def
          is_sequence_active_def status_groups)
    then show False using table_ok_no_clash[OF w p(1) r_in(1)] p(2) r_in(2) by blast
  qed
  moreover have "row_checks ?r'" using checks w r_in(1) by (simp add: table_ok_iff)
  ultimately have u: "update_row ?r' w = Inr (w\<lparr>intents := map_where (\<lambda>p. intent_id p = i) (\<lambda>_. ?r') (intents w)\<rparr>)"
    using constraint_error_None_iff[of "filter (\<lambda>p. intent_id p \<noteq> i) (intents w)" ?r']
    by (simp add: update_row_def id(1))
  let ?w1 = "w\<lparr>intents := map_where (\<lambda>p. intent_id p = i) (\<lambda>_. ?r') (intents w)\<rparr>"
  have ok: "table_ok (intents ?w1)" by (rule update_row_table_ok[OF w u])
  have "run env (transition i req) tr w = (Inr (Some ?r'), tr,
      insert_transition i (Some (status r)) (request_to req) (request_reason req) (request_details req) ?w1)"
    using r expected u
    by (simp add: transition_def run_try_catch run_db transition_tx_def moved_def Let_def)
  moreover have "find_row j ?w1 = (if j = i then Some ?r' else find_row j w)" for j
    using find_row_update[OF u] r id(1) by simp
  ultimately show ?thesis
    using ok terminal id(4) by (auto simp: settled_into_def)
qed

lemma run_settling_transition:
  assumes "table_ok (intents w)" and "find_row i w = Some r"
    and "status r \<in> set (request_from req)" "can_transition (status r) (request_to req)"
    and "is_terminal (request_to req)"
    and "row_checks (moved (request_patch req) (request_to req) (clock w) r) = row_checks r"
    and "transaction_hash (apply_patch (request_patch req) r) = transaction_hash r"
  shows "\<exists>r' w'. run env (transition i req) tr w = (Inr (Some r'), tr, w') \<and> settled_into i w w'"
  using run_terminal_transition[OF assms] by blast

lemma run_fail:
  assumes "table_ok (intents w)" and "find_row (intent_id r) w = Some r" and "status r \<in> set signed_active_statuses"
  shows "\<exists>w'. run env (fail r code d) tr w = (Inr O_FAILED, tr, w') \<and> settled_into (intent_id r) w w'"
proof -
  let ?req = "\<lparr>request_from = signed_active_statuses, request_to = FAILED,
    request_reason = reason_of_failure code, request_details = Some d, request_patch = [FailureCode code]\<rparr>"
  have "\<exists>r' w'. run env (transition (intent_id r) ?req) tr w = (Inr (Some r'), tr, w') \<and>
      settled_into (intent_id r) w w'"
    by (rule run_settling_transition[OF assms(1,2)])
      (use assms(3) in \<open>auto simp: status_groups moved_def row_checks_def check_constraints_def\<close>)
  then show ?thesis by (auto simp: fail_def run_await)
qed

lemma run_expire:
  assumes "table_ok (intents w)" and "find_row (intent_id r) w = Some r" and "status r \<in> set from"
    and "from = signed_active_statuses \<or> from = unsigned_active_statuses"
  shows "\<exists>r' w'. run env (transition (intent_id r)
      \<lparr>request_from = from, request_to = EXPIRED, request_reason = reason, request_details = d,
       request_patch = []\<rparr>) tr w = (Inr (Some r'), tr, w') \<and> settled_into (intent_id r) w w'"
  by (rule run_settling_transition[OF assms(1,2)])
    (use assms(3,4) in \<open>auto simp: status_groups moved_def row_checks_def check_constraints_def\<close>)

lemma run_record_validated:
  assumes "table_ok (intents w)" and "find_row (intent_id r) w = Some r" and "status r \<in> set signed_active_statuses"
  shows "\<exists>w'. run env (record_validated r lk raw res idx) tr w = (Inr O_VALIDATED, tr, w') \<and>
    settled_into (intent_id r) w w'"
proof -
  have "\<exists>r' w'. run env (transition (intent_id r) (validated_transition lk raw res idx t)) tr w =
      (Inr (Some r'), tr, w') \<and> settled_into (intent_id r) w w'" for t
    by (rule run_settling_transition[OF assms(1,2)])
      (use assms(3) in \<open>auto simp: status_groups moved_def row_checks_def check_constraints_def
         validated_transition_def\<close>)
  from this[of "clock w"] show ?thesis by (auto simp: record_validated_def run_await run_current_time)
qed

text \<open>A signed row has the columns that the resolution reads.\<close>

definition resolvable :: "intent_row \<Rightarrow> bool" where
  "resolvable r \<longleftrightarrow> status r \<in> set signed_active_statuses \<and> transaction_hash r \<noteq> None \<and>
     prepared_ledger_index r \<noteq> None \<and> last_ledger_sequence r \<noteq> None \<and> sequence r \<noteq> None"

lemma run_apply_found:
  assumes "table_ok (intents w)" and "find_row (intent_id r) w = Some r" and "resolvable r"
    and "lk_validated lk"
  shows "\<exists>outcome w'. run env (apply_found r lk raw) tr w = (Inr outcome, tr, w') \<and>
    settles outcome \<and> settled_into (intent_id r) w w'"
proof -
  from assms(3) obtain h low high where c: "transaction_hash r = Some h" "prepared_ledger_index r = Some low"
      "last_ledger_sequence r = Some high" and s: "status r \<in> set signed_active_statuses"
    by (auto simp: resolvable_def)
  have f: "\<exists>w'. run env (fail r code d) tr w = (Inr O_FAILED, tr, w') \<and> settled_into (intent_id r) w w'" for code d
    by (rule run_fail[OF assms(1,2) s])
  have v: "\<exists>w'. run env (record_validated r lk raw res idx) tr w = (Inr O_VALIDATED, tr, w') \<and>
      settled_into (intent_id r) w w'" for res idx
    by (rule run_record_validated[OF assms(1,2) s])
  show ?thesis
    using assms(4) f v
    by (simp add: apply_found_def run_await run_required c settles_def Let_def split: option.split) blast
qed

section \<open>A complete ledger\<close>

text \<open>
  The documented answers of a server with the full history, at validated ledger \<open>n\<close>: it knows a
  transaction as validated or says after a complete search that there is none, and it shows
  accounts as they are in ledger \<open>n\<close> or a later one.
\<close>

definition complete_ledger :: "(env_call, env_answer) answers \<Rightarrow> nat \<Rightarrow> bool" where
  "complete_ledger env n \<longleftrightarrow>
     (\<forall>tr. \<exists>resp. env tr (Request validated_ledger_request) = Response resp \<and>
        read_validated_ledger resp = Inr n) \<and>
     (\<forall>tr h low high. \<exists>resp. env tr (Request (tx_request h low high)) = Response resp \<and>
        (read_tx resp = Inr (NotFound True) \<or>
         (\<exists>lk raw. read_tx resp = Inr (Found lk raw) \<and> lk_validated lk))) \<and>
     (\<forall>tr a. \<exists>resp. env tr (Request (validated_account_request a)) = Response resp \<and>
        (read_validated_account resp = Inr None \<or>
         (\<exists>info m. read_validated_account resp = Inr (Some info) \<and> ai_ledger_index info = Some m \<and> n \<le> m)))"

lemma run_complete_index:
  assumes "complete_ledger env n"
  shows "\<exists>tr'. run env validated_ledger_index tr w = (Inr n, tr', w)"
proof -
  from assms obtain resp where "env tr (Request validated_ledger_request) = Response resp"
      "read_validated_ledger resp = Inr n"
    unfolding complete_ledger_def by blast
  then show ?thesis
    by (simp add: validated_ledger_index_def run_await run_connection_request)
qed

lemma run_complete_tx:
  assumes "complete_ledger env n"
  shows "\<exists>tr' search. run env (ledger_tx h low high) tr w = (Inr search, tr', w) \<and>
    (search = NotFound True \<or> (\<exists>lk raw. search = Found lk raw \<and> lk_validated lk))"
proof -
  from assms obtain resp where "env tr (Request (tx_request h low high)) = Response resp"
      "read_tx resp = Inr (NotFound True) \<or> (\<exists>lk raw. read_tx resp = Inr (Found lk raw) \<and> lk_validated lk)"
    unfolding complete_ledger_def by blast
  then show ?thesis
    by (auto simp: ledger_tx_def run_await run_connection_request run_lift_result)
qed

lemma run_complete_account:
  assumes "complete_ledger env n"
  shows "\<exists>tr' acct. run env (validated_account_info a) tr w = (Inr acct, tr', w) \<and>
    (\<forall>info. acct = Some info \<longrightarrow> (\<exists>m. ai_ledger_index info = Some m \<and> n \<le> m))"
proof -
  from assms obtain resp where "env tr (Request (validated_account_request a)) = Response resp"
      "read_validated_account resp = Inr None \<or>
       (\<exists>info m. read_validated_account resp = Inr (Some info) \<and> ai_ledger_index info = Some m \<and> n \<le> m)"
    unfolding complete_ledger_def by blast
  then show ?thesis
    by (auto simp: validated_account_info_def run_await run_connection_request run_lift_result)
qed

section \<open>The cycle\<close>

lemma run_settle_absent:
  assumes "table_ok (intents w)" and "find_row (intent_id r) w = Some r"
    and s: "status r \<in> set signed_active_statuses"
    and a: "\<And>info. acct = Some info \<Longrightarrow> \<exists>m. ai_ledger_index info = Some m \<and> high < m"
  shows "\<exists>outcome w'. run env (settle_absent r high prepared acct) tr w = (Inr outcome, tr, w') \<and>
    settles outcome \<and> settled_into (intent_id r) w w'"
proof -
  have f: "\<exists>outcome w'. run env (fail r code d) tr w = (Inr outcome, tr, w') \<and> settles outcome \<and>
      settled_into (intent_id r) w w'" for code d
    using run_fail[OF assms(1,2) s, of env code d tr] by (auto simp: settles_def)
  have not_pending: "\<not> (case acct of None \<Rightarrow> False
      | Some info \<Rightarrow> (case ai_ledger_index info of None \<Rightarrow> 0 | Some m \<Rightarrow> m) \<le> high)"
    using a by (cases acct) auto
  show ?thesis
  proof (cases "map_option ai_sequence acct = Some prepared")
    case True
    obtain r' w' where "run env (transition (intent_id r)
        \<lparr>request_from = signed_active_statuses, request_to = EXPIRED,
         request_reason = LAST_LEDGER_SEQUENCE_EXPIRED,
         request_details = Some [(''lastLedgerSequence'', JNum (int high)),
                                 (''sequence'', JNum (int prepared))],
         request_patch = []\<rparr>) tr w = (Inr (Some r'), tr, w')" "settled_into (intent_id r) w w'"
      using run_expire[OF assms(1,2) s] by blast
    then show ?thesis
      unfolding settle_absent_def if_not_P[OF not_pending] if_P[OF True]
      by (simp add: run_await settles_def)
  next
    case False
    then show ?thesis
      using f unfolding settle_absent_def if_not_P[OF not_pending] if_not_P[OF False] Let_def
      by simp
  qed
qed

lemma run_resolve_signed:
  assumes env: "complete_ledger env n" and "table_ok (intents w)" and "find_row (intent_id r) w = Some r"
    and r: "resolvable r" and passed: "last_ledger_sequence r = Some high" "high < n"
  shows "\<exists>outcome tr' w'. run env (resolve_signed r n budget) tr w = (Inr (outcome, budget), tr', w') \<and>
    settles outcome \<and> settled_into (intent_id r) w w'"
proof -
  from r obtain h low seq where c: "transaction_hash r = Some h" "prepared_ledger_index r = Some low"
      "sequence r = Some seq" and s: "status r \<in> set signed_active_statuses"
    by (auto simp: resolvable_def)
  obtain tr1 search where tx: "run env (ledger_tx h (js_add low 1) high) tr w = (Inr search, tr1, w)"
      "search = NotFound True \<or> (\<exists>lk raw. search = Found lk raw \<and> lk_validated lk)"
    using run_complete_tx[OF env] by blast
  have "\<exists>outcome tr' w'. run env (apply_search r search n) tr1 w = (Inr outcome, tr', w') \<and>
      settles outcome \<and> settled_into (intent_id r) w w'"
    using tx(2)
  proof (elim disjE exE conjE)
    assume absent: "search = NotFound True"
    obtain tr2 acct where acct: "run env (validated_account_info (source_account r)) tr1 w = (Inr acct, tr2, w)"
        "\<And>info. acct = Some info \<Longrightarrow> \<exists>m. ai_ledger_index info = Some m \<and> n \<le> m"
      using run_complete_account[OF env] by blast
    have "\<exists>m. ai_ledger_index info = Some m \<and> high < m" if "acct = Some info" for info
      using acct(2)[OF that] passed(2) by auto
    from run_settle_absent[OF assms(2,3) s this] acct(1) c passed show ?thesis
      by (fastforce simp: absent run_await run_required apply_proven_absent_def)
  next
    fix lk raw assume "search = Found lk raw" "lk_validated lk"
    with run_apply_found[OF assms(2,3) r this(2), of env raw tr1] show ?thesis by simp blast
  qed
  then show ?thesis
    using tx c passed(1) by (auto simp: resolve_signed_def run_await run_required)
qed

lemma run_expire_unsigned:
  assumes "table_ok (intents w)" and "find_row (intent_id r) w = Some r"
    and "status r \<in> set unsigned_active_statuses" and "last_ledger_sequence r = Some high" and "high < n"
  shows "\<exists>w'. run env (expire_unsigned r n) tr w = (Inr (), tr, w') \<and> settled_into (intent_id r) w w'"
proof -
  obtain r' w' where "run env (transition (intent_id r)
      \<lparr>request_from = unsigned_active_statuses, request_to = EXPIRED, request_reason = SIGNATURE_WINDOW_EXPIRED,
       request_details = Some [(''lastLedgerSequence'', JNum (int high)), (''validatedLedger'', JNum (int n))],
       request_patch = []\<rparr>) tr w = (Inr (Some r'), tr, w')" "settled_into (intent_id r) w w'"
    using run_expire[OF assms(1,2,3)] by blast
  then show ?thesis
    using assms(4,5) by (simp add: expire_unsigned_def run_await run_required)
qed

text \<open>A row is over: it is settled by the cycle, whoever signed it or not.\<close>

definition passed :: "nat \<Rightarrow> intent_row \<Rightarrow> bool" where
  "passed n r \<longleftrightarrow>
     (status r \<in> set unsigned_active_statuses \<or> resolvable r) \<and>
     (\<exists>high. last_ledger_sequence r = Some high \<and> high < n)"

lemma run_reconcile_row:
  assumes env: "complete_ledger env n" and w: "table_ok (intents w)" "find_row (intent_id r) w = Some r"
    and r: "passed n r"
  shows "\<exists>tr' w'. settled_into (intent_id r) w w' \<and>
    run env (reconcile (r # rs) n budget degraded) tr w = run env (reconcile rs n budget degraded) tr' w'"
proof -
  obtain high where high: "last_ledger_sequence r = Some high" "high < n" using r by (auto simp: passed_def)
  show ?thesis
  proof (cases "status r \<in> set unsigned_active_statuses")
    case True
    from run_expire_unsigned[OF w True high, of env tr] obtain w' where
      "run env (expire_unsigned r n) tr w = (Inr (), tr, w')" "settled_into (intent_id r) w w'" by blast
    then show ?thesis by (auto simp: True run_await)
  next
    case False
    then have res: "resolvable r" "status r \<in> set signed_active_statuses"
      using r by (auto simp: passed_def resolvable_def)
    obtain outcome tr' w' where "run env (resolve_signed r n budget) tr w = (Inr (outcome, budget), tr', w')"
        "settles outcome" "settled_into (intent_id r) w w'"
      using run_resolve_signed[OF env w res(1) high] by blast
    moreover from this(2) have "outcome \<noteq> O_UNPROVABLE" by (auto simp: settles_def)
    ultimately show ?thesis using False res(2) by (auto simp: run_await)
  qed
qed

lemma run_reconcile:
  assumes "complete_ledger env n" and "table_ok (intents w)" and "distinct (map intent_id rs)"
    and "\<And>r. r \<in> set rs \<Longrightarrow> find_row (intent_id r) w = Some r \<and> passed n r"
  shows "\<exists>tr' w'. run env (reconcile rs n budget degraded) tr w = (Inr degraded, tr', w') \<and>
    (\<forall>i. if i \<in> intent_id ` set rs then \<exists>r'. find_row i w' = Some r' \<and> is_terminal (status r')
         else find_row i w' = find_row i w)"
  using assms(2-)
proof (induction rs arbitrary: tr w)
  case (Cons r rs)
  have "find_row (intent_id r) w = Some r" "passed n r" using Cons.prems(3)[of r] by auto
  from run_reconcile_row[OF assms(1) Cons.prems(1) this] obtain tr1 w1 where
    s: "settled_into (intent_id r) w w1"
    and step: "run env (reconcile (r # rs) n budget degraded) tr w = run env (reconcile rs n budget degraded) tr1 w1"
    by blast
  have "find_row (intent_id p) w1 = Some p \<and> passed n p" if "p \<in> set rs" for p
  proof -
    have "intent_id p \<noteq> intent_id r" using that Cons.prems(2) by (auto simp: image_iff)
    then show ?thesis using s Cons.prems(3)[of p] that by (simp add: settled_into_def)
  qed
  with Cons.IH[of w1 tr1] Cons.prems(2) s obtain tr' w' where
    w': "run env (reconcile rs n budget degraded) tr1 w1 = (Inr degraded, tr', w')"
      "\<forall>i. if i \<in> intent_id ` set rs then \<exists>r'. find_row i w' = Some r' \<and> is_terminal (status r')
           else find_row i w' = find_row i w1"
    by (auto simp: settled_into_def)
  have "if i \<in> intent_id ` set (r # rs) then \<exists>r'. find_row i w' = Some r' \<and> is_terminal (status r')
      else find_row i w' = find_row i w" for i
    using w'(2) s Cons.prems(2) by (cases "i = intent_id r") (auto simp: settled_into_def split: if_splits)
  then show ?case unfolding step using w'(1) by blast
qed simp

lemma run_cycle_loop:
  assumes "run env validated_ledger_index [] w = (Inr n, tr1, w)"
    and "run env (find_by_statuses sequence_active_statuses) tr1 w = (Inr rs, tr1, w)"
    and "run env (reconcile rs n 1 False) tr1 w = (Inr degraded, tr2, w2)"
  shows "run env cycle [] w = (Inr (), tr2, w2\<lparr>health := if degraded then DEGRADED else HEALTHY,
    last_successful_cycle_at := Some (clock w2), recovered := True\<rparr>)"
  by (simp add: cycle_def run_await run_try_catch assms finish_cycle_def run_sync_once
      del: reconcile.simps One_nat_def cong: lazy)

section \<open>Properties\<close>

lemma active_passed:
  assumes "world_ok X N w" and "r \<in> set (intents w)" and "status r \<in> set sequence_active_statuses"
    and "last_ledger_sequence r = Some high" and "high < n"
  shows "passed n r"
proof -
  have ok: "row_ok X N r" by (rule world_ok_row[OF assms(1,2)])
  consider "status r \<in> set unsigned_active_statuses" | "status r \<in> set signed_active_statuses"
    using assms(3) by (auto simp: status_groups)
  then show ?thesis
  proof cases
    case 2
    from signed_columns[OF ok 2] 2 assms(4,5) show ?thesis by (auto simp: passed_def resolvable_def)
  qed (use assms(4,5) in \<open>auto simp: passed_def\<close>)
qed

text \<open>
  C13. The service comes to an end with what it started: when the windows of the active intents have
  passed, one cycle that is answered by a complete ledger settles every one of them and leaves every
  other intent as it was; afterwards the service is recovered and healthy.
\<close>

theorem cycle_settles_passed_windows:
  assumes "execution X N w log" and "complete_ledger env n"
    and "\<And>r. r \<in> set (intents w) \<Longrightarrow> status r \<in> set sequence_active_statuses \<Longrightarrow>
      \<exists>high. last_ledger_sequence r = Some high \<and> high < n"
  shows "\<exists>tr w'. run env cycle [] w = (Inr (), tr, w') \<and> recovered w' \<and> health w' = HEALTHY \<and>
    (\<forall>r \<in> set (intents w). \<exists>r'. find_row (intent_id r) w' = Some r' \<and>
       (if status r \<in> set sequence_active_statuses then is_terminal (status r') else r' = r))"
proof -
  have I: "world_ok X N w" by (rule execution_world_ok[OF assms(1)])
  then have t: "table_ok (intents w)" by (simp add: world_ok_def store_ok_def)
  let ?rs = "sort_key (\<lambda>r. (created_at r, intent_id r))
    (filter (\<lambda>r. status r \<in> set sequence_active_statuses) (intents w))"
  obtain tr1 where index: "run env validated_ledger_index [] w = (Inr n, tr1, w)"
    using run_complete_index[OF assms(2)] by blast
  have rows: "run env (find_by_statuses sequence_active_statuses) tr1 w = (Inr ?rs, tr1, w)"
    by (simp add: find_by_statuses_def run_db)
  have "distinct (map intent_id (intents w))" by (rule table_ok_distinct_ids[OF t])
  then have d: "distinct (map intent_id ?rs)"
    by (auto simp: distinct_map intro: inj_on_subset)
  have find: "find_row (intent_id r) w = Some r" if "r \<in> set (intents w)" for r
    using find_row_Some_iff[OF t] that by blast
  have p: "find_row (intent_id r) w = Some r \<and> passed n r" if "r \<in> set ?rs" for r
    using that find assms(3)[of r] active_passed[OF I] by auto
  from run_reconcile[OF assms(2) t d p] obtain tr2 w2 where
    loop: "run env (reconcile ?rs n 1 False) tr1 w = (Inr False, tr2, w2)"
    and ends: "\<And>i. if i \<in> intent_id ` set ?rs then \<exists>r'. find_row i w2 = Some r' \<and> is_terminal (status r')
         else find_row i w2 = find_row i w" by blast
  let ?w' = "w2\<lparr>health := HEALTHY, last_successful_cycle_at := Some (clock w2), recovered := True\<rparr>"
  have "run env cycle [] w = (Inr (), tr2, ?w')"
    using run_cycle_loop[OF index rows loop] by simp
  moreover have "\<exists>r'. find_row (intent_id r) w2 = Some r' \<and>
      (if status r \<in> set sequence_active_statuses then is_terminal (status r') else r' = r)"
    if r: "r \<in> set (intents w)" for r
  proof -
    have "intent_id r \<in> intent_id ` set ?rs \<longleftrightarrow> status r \<in> set sequence_active_statuses"
      using r by (auto simp: image_iff dest: world_ok_unique[OF I _ r])
    then show ?thesis using ends[of "intent_id r"] find[OF r] by (auto split: if_splits)
  qed
  moreover have "find_row i ?w' = find_row i w2" for i by (simp add: find_row_def)
  ultimately show ?thesis by (intro exI[of _ tr2] exI[of _ ?w']) simp
qed

lemma at_ledger_complete:
  assumes "n \<le> max_safe_integer"
  shows "complete_ledger (demo_env (at_ledger n)) n"
proof -
  have ok: "demo_ok (at_ledger n)" using assms by (simp add: demo_ok_def at_ledger_def max_safe_integer_def)
  have tx: "read_tx demo_absent = Inr (NotFound True)"
    by (simp add: demo_absent_def field_def is_true_def)
  show ?thesis
    using ok
    by (simp add: complete_ledger_def demo_env_def demo_answer_def request_defs read_validated_ledger_def
        parser_defs demo_ok_def at_ledger_def tx)
qed

theorem cycle_settles_passed_windows_witness:
  "\<exists>w tr w' r'. intents w = [demo_sent] \<and> run (demo_env (at_ledger 130)) cycle [] w = (Inr (), tr, w') \<and>
     find_row ''id1'' w' = Some r' \<and> is_terminal (status r')"
proof -
  obtain w log where e: "execution demo_codec 2 w log" and w: "demo_state w demo_sent True"
    using arrival_history[OF arrival_submitted] unfolding history_def by blast
  have "complete_ledger (demo_env (at_ledger 130)) 130"
    by (rule at_ledger_complete) (simp add: max_safe_integer_def)
  from cycle_settles_passed_windows[OF e this] w show ?thesis
    by (auto simp: demo_state_def status_groups)
qed

end
