(* ===== verification/Progress.thy ===== *)
theory Progress
  imports Settlement
begin

text \<open>
  What a client can rely on when nothing is in the way: against a ledger that cooperates one call
  of \<open>prepare\<close> takes an intent from CREATED to a signable transaction.
\<close>

section \<open>A row that no other is in conflict with\<close>

definition unopposed :: "string \<Rightarrow> intent_row \<Rightarrow> world \<Rightarrow> bool" where
  "unopposed i r w \<longleftrightarrow>
     table_ok (intents w) \<and> find_row i w = Some r \<and>
     (\<forall>q \<in> set (intents w). intent_id q \<noteq> i \<longrightarrow> status q \<in> set sequence_active_statuses \<longrightarrow>
        source_account q \<noteq> source_account r)"

text \<open>The row of \<open>i\<close> became \<open>r'\<close>, nothing else changed.\<close>

definition reaches :: "string \<Rightarrow> intent_row \<Rightarrow> world \<Rightarrow> world \<Rightarrow> bool" where
  "reaches i r' w w' \<longleftrightarrow> unopposed i r' w' \<and> clock w' = clock w \<and> recovered w' = recovered w \<and>
     (\<forall>j. j \<noteq> i \<longrightarrow> find_row j w' = find_row j w)"

lemma reaches_refl: "unopposed i r w \<Longrightarrow> reaches i r w w"
  by (simp add: reaches_def)

lemma reaches_trans: "reaches i r1 w w1 \<Longrightarrow> reaches i r2 w1 w2 \<Longrightarrow> reaches i r2 w w2"
  by (simp add: reaches_def)

lemma unopposed_facts:
  assumes "unopposed i r w"
  shows "table_ok (intents w)" "find_row i w = Some r" "r \<in> set (intents w)" "intent_id r = i" "row_checks r"
proof -
  show "table_ok (intents w)" "find_row i w = Some r" using assms by (auto simp: unopposed_def)
  then show "r \<in> set (intents w)" "intent_id r = i" "row_checks r"
    using find_row_SomeD[of i w r] by (auto simp: table_ok_iff)
qed

lemma reaches_insert_transition:
  "reaches i r w (insert_transition i from to reason d w1) = reaches i r w w1"
  by (simp add: reaches_def unopposed_def insert_transition_def find_row_def)

lemma find_id_iff: "(\<exists>q \<in> set (intents w). intent_id q = i) \<longleftrightarrow> find_row i w \<noteq> None"
  by (auto simp: find_row_def find_None_iff)

text \<open>An update succeeds, if only the new row passes the checks and its hash is nobody else's.\<close>

lemma unopposed_update_row:
  assumes u: "unopposed i r w" and id: "same_identity r r'" and checks: "row_checks r'"
    and hash: "\<And>q. q \<in> set (intents w) \<Longrightarrow> intent_id q \<noteq> i \<Longrightarrow> \<not> same_transaction_hash q r'"
  shows "\<exists>w'. update_row r' w = Inr w' \<and> reaches i r' w w'"
proof -
  note f = unopposed_facts[OF u]
  have id': "intent_id r' = i" "idempotency_key r' = idempotency_key r" "source_account r' = source_account r"
    using id f(4) by (simp_all add: same_identity_def)
  have "\<not> row_clash p r'" if p: "p \<in> set (intents w)" "intent_id p \<noteq> i" for p
  proof
    assume c: "row_clash p r'"
    have "\<not> same_sequence_owner p r'"
      using u p id' by (auto simp: unopposed_def same_sequence_owner_def is_sequence_active_def)
    then have "row_clash p r"
      using c id' p hash[OF p] by (auto simp: row_clash_iff)
    then show False using table_ok_no_clash[OF f(1) p(1) f(3)] p(2) f(4) by blast
  qed
  with checks have up: "update_row r' w =
      Inr (w\<lparr>intents := map_where (\<lambda>p. intent_id p = i) (\<lambda>_. r') (intents w)\<rparr>)" (is "_ = Inr ?w1")
    using constraint_error_None_iff[of "filter (\<lambda>p. intent_id p \<noteq> i) (intents w)" r']
    by (simp add: update_row_def id'(1))
  have find: "find_row j ?w1 = (if j = i then Some r' else find_row j w)" for j
    using find_row_update[OF up] f(2) id'(1) by simp
  have others: "q \<in> set (intents w)" if "q \<in> set (intents ?w1)" "intent_id q \<noteq> i" for q
    using that id'(1) by (auto simp: set_map_where split: if_splits)
  have "unopposed i r' ?w1"
    using update_row_table_ok[OF f(1) up] find u id'(3) others by (auto simp: unopposed_def)
  then have "reaches i r' w ?w1" using find by (simp add: reaches_def)
  with up show ?thesis by blast
qed

text \<open>No other row has its hash either.\<close>

lemma unopposed_hash:
  assumes "unopposed i r w" and "q \<in> set (intents w)" and "intent_id q \<noteq> i"
  shows "\<not> same_transaction_hash q r"
proof
  assume "same_transaction_hash q r"
  then have "row_clash q r" by (simp add: row_clash_iff)
  with table_ok_no_clash[OF unopposed_facts(1)[OF assms(1)] assms(2) unopposed_facts(3)[OF assms(1)]]
    unopposed_facts(4)[OF assms(1)] assms(3) show False by blast
qed

lemma unopposed_same_hash:
  "unopposed i r w \<Longrightarrow> transaction_hash r' = transaction_hash r \<Longrightarrow> q \<in> set (intents w) \<Longrightarrow>
     intent_id q \<noteq> i \<Longrightarrow> \<not> same_transaction_hash q r'"
  using unopposed_hash by (fastforce simp: same_transaction_hash_def)

lemma moved_identity: "same_identity r (moved cols s t r)" "same_identity r (touched cols t r)"
  by (simp_all add: same_identity_def moved_def touched_def)

lemma run_unopposed_transition:
  assumes u: "unopposed i r w"
    and expected: "status r \<in> set (request_from req)" "can_transition (status r) (request_to req)"
    and checks: "row_checks (moved (request_patch req) (request_to req) (clock w) r)"
    and hash: "\<And>q. q \<in> set (intents w) \<Longrightarrow> intent_id q \<noteq> i \<Longrightarrow>
      \<not> same_transaction_hash q (moved (request_patch req) (request_to req) (clock w) r)"
  shows "\<exists>w'. run env (transition i req) tr w =
      (Inr (Some (moved (request_patch req) (request_to req) (clock w) r)), tr, w') \<and>
    reaches i (moved (request_patch req) (request_to req) (clock w) r) w w'"
proof -
  let ?r' = "moved (request_patch req) (request_to req) (clock w) r"
  obtain w1 where "update_row ?r' w = Inr w1" "reaches i ?r' w w1"
    using unopposed_update_row[OF u moved_identity(1) checks hash] by blast
  then have "run env (transition i req) tr w = (Inr (Some ?r'), tr,
      insert_transition i (Some (status r)) (request_to req) (request_reason req) (request_details req) w1)"
    using unopposed_facts(2)[OF u] expected
    by (simp add: transition_def run_try_catch run_db transition_tx_def moved_def Let_def)
  with \<open>reaches i ?r' w w1\<close> show ?thesis by (auto simp: reaches_insert_transition)
qed

lemma run_unopposed_update:
  assumes u: "unopposed i r w" and expected: "status r \<in> set ss"
    and checks: "row_checks (touched cols (clock w) r)"
    and hash: "transaction_hash (apply_patch cols r) = transaction_hash r"
  shows "\<exists>w'. run env (update_in_status i ss cols) tr w = (Inr (Some (touched cols (clock w) r)), tr, w') \<and>
    reaches i (touched cols (clock w) r) w w'"
proof -
  let ?r' = "touched cols (clock w) r"
  have "transaction_hash ?r' = transaction_hash r" using hash by (simp add: touched_def)
  from unopposed_update_row[OF u moved_identity(2) checks unopposed_same_hash[OF u this]] obtain w1 where
    "update_row ?r' w = Inr w1" "reaches i ?r' w w1" by blast
  then show ?thesis
    using unopposed_facts(2)[OF u] expected
    by (simp add: update_in_status_def run_db update_in_status_tx_def touched_def Let_def)
qed

section \<open>A ledger that cooperates\<close>

text \<open>
  The account is quiescent with \<open>seq\<close>, the validated ledger is \<open>n\<close>, the node asks for \<open>fee\<close> and
  simulates \<open>tx\<close> with success, returning it unchanged.
\<close>

definition cooperates ::
  "codec \<Rightarrow> (env_call, env_answer) answers \<Rightarrow> string \<Rightarrow> nat \<Rightarrow> nat \<Rightarrow> string \<Rightarrow> object \<Rightarrow> bool" where
  "cooperates X env acct n seq fee tx \<longleftrightarrow>
     (\<forall>tr. \<exists>resp v. env tr (Request (validated_account_request acct)) = Response resp \<and>
        read_validated_account resp = Inr (Some v) \<and> ai_sequence v = seq) \<and>
     (\<forall>tr. \<exists>resp c. env tr (Request (current_account_request acct)) = Response resp \<and>
        read_current_account resp = Inr c \<and> ai_sequence c = seq \<and> ai_queued_transaction_count c = 0) \<and>
     (\<forall>tr. \<exists>resp. env tr (Request validated_ledger_request) = Response resp \<and>
        read_validated_ledger resp = Inr n) \<and>
     (\<forall>tr. \<exists>resp. env tr (Request fee_request) = Response resp \<and> read_open_ledger_fee resp = Inr fee) \<and>
     (\<forall>tr c. to_canonical_form tx = Inr c \<longrightarrow>
        (\<exists>resp sim raw. env tr (Request (simulate_request c)) = Response resp \<and>
           read_simulation resp = Inr (sim, raw) \<and> sim_engine_result sim = ''tesSUCCESS'' \<and>
           simulation_matches_prepared X tx (sim_tx_json sim)))"

lemma run_cooperating_ledger:
  assumes "cooperates X env acct n seq fee tx"
  shows "\<exists>tr'. run env validated_ledger_index tr w = (Inr n, tr', w)"
proof -
  from assms obtain resp where "env tr (Request validated_ledger_request) = Response resp"
      "read_validated_ledger resp = Inr n"
    unfolding cooperates_def by blast
  then show ?thesis by (simp add: validated_ledger_index_def run_await run_connection_request)
qed

lemma run_cooperating_fee:
  assumes "cooperates X env acct n seq fee tx" and "check_fee fee = Inr fee"
  shows "\<exists>tr'. run env capped_open_ledger_fee tr w = (Inr fee, tr', w)"
proof -
  from assms(1) obtain resp where "env tr (Request fee_request) = Response resp"
      "read_open_ledger_fee resp = Inr fee"
    unfolding cooperates_def by blast
  with assms(2) show ?thesis
    by (simp add: capped_open_ledger_fee_def open_ledger_fee_def run_await run_connection_request)
qed

lemma run_cooperating_sequence:
  assumes "cooperates X env acct n seq fee tx"
  shows "\<exists>tr'. run env (quiescent_sequence acct) tr w = (Inr seq, tr', w)"
proof -
  from assms obtain resp v where v: "env tr (Request (validated_account_request acct)) = Response resp"
      "read_validated_account resp = Inr (Some v)" "ai_sequence v = seq"
    unfolding cooperates_def by blast
  let ?tr = "tr @ [(Request (validated_account_request acct), Response resp)]"
  from assms obtain resp2 c where c: "env ?tr (Request (current_account_request acct)) = Response resp2"
      "read_current_account resp2 = Inr c" "ai_sequence c = seq" "ai_queued_transaction_count c = 0"
    unfolding cooperates_def by blast
  from v c show ?thesis
    by (simp add: quiescent_sequence_def validated_account_info_def current_account_info_def run_await
        run_connection_request)
qed

lemma run_cooperating_simulation:
  assumes "cooperates X env acct n seq fee tx" and "to_canonical_form tx = Inr c"
  shows "\<exists>tr' sim raw. run env (simulate tx) tr w = (Inr (sim, raw), tr', w) \<and>
    sim_engine_result sim = ''tesSUCCESS'' \<and> simulation_matches_prepared X tx (sim_tx_json sim)"
proof -
  from assms obtain resp sim raw where "env tr (Request (simulate_request c)) = Response resp"
      "read_simulation resp = Inr (sim, raw)" "sim_engine_result sim = ''tesSUCCESS''"
      "simulation_matches_prepared X tx (sim_tx_json sim)"
    unfolding cooperates_def by blast
  with assms(2) show ?thesis
    by (simp add: simulate_def ledger_simulate_def run_await run_connection_request)
qed

section \<open>The three steps\<close>

definition prepared_row :: "intent_row \<Rightarrow> nat \<Rightarrow> object \<Rightarrow> string \<Rightarrow> nat \<Rightarrow> nat \<Rightarrow> string \<Rightarrow> intent_row" where
  "prepared_row r t tx blob n seq fee =
     moved (request_patch (prepared_transition tx blob n seq fee (last_ledger_sequence_for n) t)) PREPARED t r"

definition simulated_row :: "intent_row \<Rightarrow> nat \<Rightarrow> simulation_outcome \<Rightarrow> object \<Rightarrow> intent_row" where
  "simulated_row r t sim raw = moved (request_patch (simulated_transition sim raw t)) SIMULATED t r"

lemma prepared_row_simps [simp]:
  "status (prepared_row r t tx blob n seq fee) = PREPARED"
  "intent_id (prepared_row r t tx blob n seq fee) = intent_id r"
  "prepared_tx_json (prepared_row r t tx blob n seq fee) = Some (JObj tx)"
  "prepared_tx_blob (prepared_row r t tx blob n seq fee) = Some blob"
  "sequence (prepared_row r t tx blob n seq fee) = Some seq"
  "fee_drops (prepared_row r t tx blob n seq fee) = Some fee"
  "last_ledger_sequence (prepared_row r t tx blob n seq fee) = Some (last_ledger_sequence_for n)"
  by (simp_all add: prepared_row_def moved_def prepared_transition_def)

lemma simulated_row_simps [simp]:
  "status (simulated_row r t sim raw) = SIMULATED" "intent_id (simulated_row r t sim raw) = intent_id r"
  "simulation_engine_result (simulated_row r t sim raw) = Some (sim_engine_result sim)"
  "prepared_tx_json (simulated_row r t sim raw) = prepared_tx_json r"
  "prepared_tx_blob (simulated_row r t sim raw) = prepared_tx_blob r"
  "sequence (simulated_row r t sim raw) = sequence r" "fee_drops (simulated_row r t sim raw) = fee_drops r"
  "last_ledger_sequence (simulated_row r t sim raw) = last_ledger_sequence r"
  by (simp_all add: simulated_row_def moved_def simulated_transition_def)

lemma run_step_created:
  assumes u: "unopposed i r w" and rec: "recovered w" and r: "status r = CREATED"
      "intent_payload r = JObj (payload_object p)"
    and co: "cooperates X env (account p) n seq fee tx" and pr: "prepared_as X N p fee seq n tx blob"
    and n: "0 < n"
  shows "\<exists>tr' w'. run env (preparation_step X N r) tr w =
      (Inr (Advanced (prepared_row r (clock w) tx blob n seq fee)), tr', w') \<and>
    reaches i (prepared_row r (clock w) tx blob n seq fee) w w'"
proof -
  note id = unopposed_facts(4,5)[OF u]
  have fee: "check_fee fee = Inr fee" "0 < nat_of_digits fee"
    using pr by (auto simp: prepared_as_def check_fee_Inr_iff positive_drops_positive)
  let ?req = "prepared_transition tx blob n seq fee (last_ledger_sequence_for n) (clock w)"
  have built: "build_and_encode X p \<lparr>param_fee = fee, param_sequence = seq,
      param_last_ledger_sequence = last_ledger_sequence_for n, param_network_id = N\<rparr> = Inr (tx, blob)"
    using pr by (auto simp: prepared_as_def build_and_encode_def Let_def)
  have req: "request_from ?req = [CREATED]" "request_to ?req = PREPARED"
    by (simp_all add: prepared_transition_def)
  have checks: "row_checks (moved (request_patch ?req) (request_to ?req) (clock w) r)"
    using id(2) n fee(2)
    by (simp add: check_simps moved_def prepared_transition_def optional_check_def last_ledger_sequence_for_gt)
  have hash: "transaction_hash (moved (request_patch ?req) (request_to ?req) (clock w) r) = transaction_hash r"
    by (simp add: prepared_transition_def moved_def)
  obtain tr1 where tr1: "run env (quiescent_sequence (account p)) tr w = (Inr seq, tr1, w)"
    using run_cooperating_sequence[OF co] by blast
  obtain tr2 where tr2: "run env validated_ledger_index tr1 w = (Inr n, tr2, w)"
    using run_cooperating_ledger[OF co] by blast
  obtain tr3 where tr3: "run env capped_open_ledger_fee tr2 w = (Inr fee, tr3, w)"
    using run_cooperating_fee[OF co fee(1)] by blast
  obtain w' where "run env (transition i ?req) tr3 w = (Inr (Some (prepared_row r (clock w) tx blob n seq fee)), tr3, w')"
      "reaches i (prepared_row r (clock w) tx blob n seq fee) w w'"
    using run_unopposed_transition[OF u _ _ checks unopposed_same_hash[OF u hash], of env tr3] r(1) req
    by (auto simp: prepared_row_def)
  then show ?thesis
    by (simp add: preparation_step_def r prepare_created_def run_await run_assert_recovered rec run_lift_result
        tr1 tr2 tr3 built Let_def run_try_catch run_current_time id(1) cong: lazy)
qed

lemma run_step_prepared:
  assumes u: "unopposed i r w" and rec: "recovered w" and r: "status r = PREPARED"
      "prepared_tx_json r = Some (JObj tx)" "last_ledger_sequence r = Some (last_ledger_sequence_for n)"
    and co: "cooperates X env acct n seq fee tx" and c: "to_canonical_form tx = Inr c"
  shows "\<exists>tr' w' sim raw. run env (preparation_step X N r) tr w =
      (Inr (Advanced (simulated_row r (clock w) sim raw)), tr', w') \<and>
    reaches i (simulated_row r (clock w) sim raw) w w' \<and> sim_engine_result sim = ''tesSUCCESS''"
proof -
  note id = unopposed_facts(4,5)[OF u]
  obtain tr1 where tr1: "run env validated_ledger_index tr w = (Inr n, tr1, w)"
    using run_cooperating_ledger[OF co] by blast
  obtain tr2 sim raw where sim: "run env (simulate tx) tr1 w = (Inr (sim, raw), tr2, w)"
      "sim_engine_result sim = ''tesSUCCESS''" "simulation_matches_prepared X tx (sim_tx_json sim)"
    using run_cooperating_simulation[OF co c] by blast
  let ?req = "simulated_transition sim raw (clock w)"
  have req: "request_from ?req = [PREPARED]" "request_to ?req = SIMULATED"
    by (simp_all add: simulated_transition_def)
  have checks: "row_checks (moved (request_patch ?req) (request_to ?req) (clock w) r)"
    using id(2) by (simp add: check_simps moved_def simulated_transition_def)
  have hash: "transaction_hash (moved (request_patch ?req) (request_to ?req) (clock w) r) = transaction_hash r"
    by (simp add: simulated_transition_def moved_def)
  have stored: "stored_transaction r = Inr tx" by (simp add: stored_transaction_def as_record_def r(2))
  have open_window: "\<not> last_ledger_sequence_for n < n" using last_ledger_sequence_for_gt[of n] by simp
  obtain w' where "run env (transition i ?req) tr2 w = (Inr (Some (simulated_row r (clock w) sim raw)), tr2, w')"
      "reaches i (simulated_row r (clock w) sim raw) w w'"
    using run_unopposed_transition[OF u _ _ checks unopposed_same_hash[OF u hash], of env tr2] r(1) req
    by (auto simp: simulated_row_def)
  then show ?thesis
    using sim(2)
    by (intro exI[of _ tr2] exI[of _ w'] exI[of _ sim] exI[of _ raw])
      (simp add: preparation_step_def r simulate_prepared_def run_await run_assert_recovered rec run_lift_result
        run_required tr1 open_window sim(1,3) stored run_current_time id(1) cong: lazy)
qed

lemma run_step_simulated:
  assumes u: "unopposed i r w" and rec: "recovered w" and r: "status r = SIMULATED"
      "simulation_engine_result r = Some ''tesSUCCESS''"
  shows "\<exists>w'. run env (preparation_step X N r) tr w = (Inr (Advanced (moved [] AWAITING_SIGNATURE (clock w) r)), tr, w') \<and>
    reaches i (moved [] AWAITING_SIGNATURE (clock w) r) w w'"
proof -
  note id = unopposed_facts(4,5)[OF u]
  let ?req = "\<lparr>request_from = [SIMULATED], request_to = AWAITING_SIGNATURE,
    request_reason = SIMULATION_PASSED, request_details = None, request_patch = []\<rparr>"
  have checks: "row_checks (moved (request_patch ?req) (request_to ?req) (clock w) r)"
    using id(2) by (simp add: check_simps moved_def)
  have hash: "transaction_hash (moved (request_patch ?req) (request_to ?req) (clock w) r) = transaction_hash r"
    by (simp add: moved_def)
  obtain w' where "run env (transition i ?req) tr w = (Inr (Some (moved [] AWAITING_SIGNATURE (clock w) r)), tr, w')"
      "reaches i (moved [] AWAITING_SIGNATURE (clock w) r) w w'"
    using run_unopposed_transition[OF u _ _ checks unopposed_same_hash[OF u hash], of env tr] r(1) by auto
  then show ?thesis
    by (simp add: preparation_step_def r complete_simulation_def run_await run_required id(1) cong: lazy)
qed

text \<open>All three, as the loop takes them.\<close>

definition prepared_in :: "intent_row \<Rightarrow> intent_row \<Rightarrow> object \<Rightarrow> string \<Rightarrow> nat \<Rightarrow> nat \<Rightarrow> string \<Rightarrow> bool" where
  "prepared_in r r' tx blob n seq fee \<longleftrightarrow>
     status r' = AWAITING_SIGNATURE \<and> same_identity r r' \<and> prepared_tx_json r' = Some (JObj tx) \<and>
     prepared_tx_blob r' = Some blob \<and> sequence r' = Some seq \<and> fee_drops r' = Some fee \<and>
     prepared_ledger_index r' = Some n \<and> last_ledger_sequence r' = Some (last_ledger_sequence_for n) \<and>
     signed_tx_blob r' = signed_tx_blob r \<and> transaction_hash r' = transaction_hash r \<and>
     submission_attempt_count r' = submission_attempt_count r \<and>
     submission_validated_ledger r' = submission_validated_ledger r"

lemma prepared_in_steps:
  "sim_engine_result sim = ''tesSUCCESS'' \<Longrightarrow>
     prepared_in r (moved [] AWAITING_SIGNATURE t3 (simulated_row (prepared_row r t1 tx blob n seq fee) t2 sim raw))
       tx blob n seq fee"
  by (simp add: prepared_in_def same_identity_def moved_def simulated_row_def prepared_row_def
      prepared_transition_def simulated_transition_def)

lemma run_prepare:
  assumes u: "unopposed i r w" and rec: "recovered w" and s: "status r = CREATED"
    and p: "intent_payload r = JObj (payload_object p)" and n: "0 < n"
    and pr: "prepared_as X N p fee seq n tx blob" and co: "cooperates X env (account p) n seq fee tx"
  shows "\<exists>r' tr' w'. run env (prepare X N i) tr w = (Inr r', tr', w') \<and> reaches i r' w w' \<and>
    prepared_in r r' tx blob n seq fee"
proof -
  obtain c where c: "to_canonical_form tx = Inr c"
    using pr by (auto simp: prepared_as_def to_canonical_form_build)
  obtain tr1 w1 r1 where 1: "run env (preparation_step X N r) tr w = (Inr (Advanced r1), tr1, w1)"
      "reaches i r1 w w1" and r1: "r1 = prepared_row r (clock w) tx blob n seq fee"
    using run_step_created[OF u rec s p co pr n] by blast
  have u1: "unopposed i r1 w1" "recovered w1" using 1(2) rec by (auto simp: reaches_def)
  obtain tr2 w2 r2 sim raw where 2: "run env (preparation_step X N r1) tr1 w1 = (Inr (Advanced r2), tr2, w2)"
      "reaches i r2 w1 w2" "sim_engine_result sim = ''tesSUCCESS''"
    and r2: "r2 = simulated_row r1 (clock w1) sim raw"
    using run_step_prepared[OF u1 _ _ _ co c] r1 by (metis prepared_row_simps(1,3,7))
  have u2: "unopposed i r2 w2" "recovered w2" using 2(2) u1 by (auto simp: reaches_def)
  obtain w3 r3 where 3: "run env (preparation_step X N r2) tr2 w2 = (Inr (Advanced r3), tr2, w3)"
      "reaches i r3 w2 w3" and r3: "r3 = moved [] AWAITING_SIGNATURE (clock w2) r2"
    using run_step_simulated[OF u2] r2 2(3) by (metis simulated_row_simps(1,3))
  have p3: "prepared_in r r3 tx blob n seq fee" unfolding r3 r2 r1 by (rule prepared_in_steps[OF 2(3)])
  then have s3: "status r3 = AWAITING_SIGNATURE" by (simp add: prepared_in_def)
  have "run env (load i) tr w = (Inr r, tr, w)"
    using unopposed_facts(2)[OF u] by (simp add: load_def find_by_id_def run_await run_db)
  then have "run env (prepare X N i) tr w = (Inr r3, tr2, w3)"
    by (simp add: prepare_def run_await max_preparation_steps_def run_prepare_loop 1(1) 2(1) 3(1)
        preparation_step_def[of X N r3] s3)
  moreover have "reaches i r3 w w3" using 1(2) 2(2) 3(2) by (blast intro: reaches_trans)
  ultimately show ?thesis using p3 by blast
qed

section \<open>Properties\<close>

text \<open>
  C14. Nothing stands in the way of a valid request: after recovery, if no other intent of the account
  is active and the ledger cooperates, one call of \<open>prepare\<close> answers with the intent awaiting its
  signature, holding exactly the transaction built for the account's Sequence, its encoding, the
  node's fee and the ledger window.
\<close>

theorem prepare_reaches_the_signature:
  assumes "execution X N w log" and "recovered w" and "find_row i w = Some r" and "status r = CREATED"
    and "intent_payload r = JObj (payload_object p)"
    and "\<And>q. q \<in> set (intents w) \<Longrightarrow> status q \<in> set sequence_active_statuses \<Longrightarrow>
      source_account q \<noteq> source_account r"
    and "0 < n" and "prepared_as X N p fee seq n tx blob" and "cooperates X env (account p) n seq fee tx"
  shows "\<exists>r' tr w'. run env (prepare X N i) [] w = (Inr r', tr, w') \<and> find_row i w' = Some r' \<and>
    status r' = AWAITING_SIGNATURE \<and> prepared_tx_json r' = Some (JObj tx) \<and> prepared_tx_blob r' = Some blob \<and>
    sequence r' = Some seq \<and> fee_drops r' = Some fee \<and>
    last_ledger_sequence r' = Some (last_ledger_sequence_for n)"
proof -
  have "world_ok X N w" by (rule execution_world_ok[OF assms(1)])
  then have "unopposed i r w"
    using assms(3,6) by (simp add: unopposed_def world_ok_def store_ok_def)
  from run_prepare[OF this assms(2,4,5,7-9)] obtain r' tr w' where
    "run env (prepare X N i) [] w = (Inr r', tr, w')" "reaches i r' w w'"
    "prepared_in r r' tx blob n seq fee" by blast
  then show ?thesis by (auto simp: prepared_in_def reaches_def unopposed_def)
qed

lemma demo_cooperates: "cooperates demo_codec (demo_env (at_ledger 100)) ''rAlice'' 100 7 ''10'' demo_transaction"
proof -
  have ok: "demo_ok (at_ledger 100)" by (simp add: demo_ok_def max_safe_integer_def)
  show ?thesis
    using ok demo_matches
    by (simp add: cooperates_def demo_env_def demo_answer_def request_defs read_validated_ledger_def
        read_current_account_def read_open_ledger_fee_def read_simulation_def parser_defs demo_ok_def) auto
qed

lemma demo_created_facts:
  assumes w: "demo_state w demo_created True"
  shows "recovered w" "find_row ''id1'' w = Some demo_created" "status demo_created = CREATED"
    "intent_payload demo_created = JObj (payload_object demo_payload)"
    "\<And>q. q \<in> set (intents w) \<Longrightarrow> status q \<in> set sequence_active_statuses \<Longrightarrow>
      source_account q \<noteq> source_account demo_created"
    "source_account demo_created = ''rAlice''"
    "prepared_as demo_codec 2 demo_payload ''10'' 7 100 demo_transaction ''ABCD''"
    "cooperates demo_codec (demo_env (at_ledger 100)) (account demo_payload) 100 7 ''10'' demo_transaction"
proof -
  show s: "status demo_created = CREATED" "source_account demo_created = ''rAlice''"
    "intent_payload demo_created = JObj (payload_object demo_payload)"
    by (simp_all add: demo_created_def new_row_def demo_payload_def)
  show "recovered w" "find_row ''id1'' w = Some demo_created"
    using w by (auto simp: demo_state_def demo_created_def new_row_def find_row_def)
  show "source_account q \<noteq> source_account demo_created"
    if "q \<in> set (intents w)" "status q \<in> set sequence_active_statuses" for q
    using that w s(1) by (simp add: demo_state_def status_groups)
  show "prepared_as demo_codec 2 demo_payload ''10'' 7 100 demo_transaction ''ABCD''"
    using demo_built demo_fee_ok
    by (auto simp: prepared_as_def build_and_encode_def demo_last_ledger demo_transaction_def Let_def split: sum.splits)
  show "cooperates demo_codec (demo_env (at_ledger 100)) (account demo_payload) 100 7 ''10'' demo_transaction"
    using demo_cooperates by (simp add: demo_payload_def)
qed

theorem prepare_reaches_the_signature_witness:
  "\<exists>w r' tr w'. intents w = [demo_created] \<and>
     run (demo_env (at_ledger 100)) (prepare demo_codec 2 ''id1'') [] w = (Inr r', tr, w') \<and>
     status r' = AWAITING_SIGNATURE \<and> prepared_tx_json r' = Some (JObj demo_transaction)"
proof -
  obtain w log where e: "execution demo_codec 2 w log" and w: "demo_state w demo_created True"
    using history_created unfolding history_def by blast
  note demo = demo_created_facts[OF w]
  from prepare_reaches_the_signature[OF e demo(1-5) _ demo(7,8)] w show ?thesis
    unfolding demo_state_def by fastforce
qed

end
