(* ===== verification/Delivery.thy ===== *)
theory Delivery
  imports Progress
begin

text \<open>
  The second half of what a client can rely on: a signature from an authorized key is accepted, and
  a signed intent inside its window is submitted, with the answer of the node on record.
\<close>

section \<open>Active intents are unopposed\<close>

lemma row_ok_network: "row_ok X N r \<Longrightarrow> network_id r = N"
  unfolding row_ok_def identity_ok_def by blast

lemma active_unopposed:
  assumes "world_ok X N w" and "find_row i w = Some r" and "is_sequence_active r"
  shows "unopposed i r w"
proof -
  have t: "table_ok (intents w)" using assms(1) by (simp add: world_ok_def store_ok_def)
  have r: "r \<in> set (intents w)" "intent_id r = i" using find_row_SomeD[OF assms(2)] by auto
  have "source_account q \<noteq> source_account r"
    if q: "q \<in> set (intents w)" "intent_id q \<noteq> i" "status q \<in> set sequence_active_statuses" for q
  proof
    assume same: "source_account q = source_account r"
    have "row_ok X N q" "row_ok X N r" using assms(1) q(1) r(1) by (auto simp: world_ok_def)
    from this[THEN row_ok_network] same q(3) assms(3) have "same_sequence_owner q r"
      by (simp add: same_sequence_owner_def is_sequence_active_def)
    then have "row_clash q r" by (simp add: row_clash_iff)
    with table_ok_no_clash[OF t q(1) r(1)] q(2) r(2) show False by blast
  qed
  then show ?thesis using t assms(2) by (simp add: unopposed_def)
qed

section \<open>Attaching\<close>

text \<open>The validated ledger \<open>n\<close> shows the account with \<open>seq\<close>, and \<open>key\<close> may sign for it.\<close>

definition authorizes ::
  "codec \<Rightarrow> (env_call, env_answer) answers \<Rightarrow> string \<Rightarrow> string \<Rightarrow> nat \<Rightarrow> nat \<Rightarrow> bool" where
  "authorizes X env key acct n seq \<longleftrightarrow>
     (\<forall>tr. \<exists>resp a. env tr (Request (validated_account_request acct)) = Response resp \<and>
        read_validated_account resp = Inr (Some a) \<and> ai_sequence a = seq \<and> ai_ledger_index a = Some n \<and>
        assert_authorized X key acct a = Inr ())"

definition signed_row :: "intent_row \<Rightarrow> verified_blob \<Rightarrow> nat \<Rightarrow> intent_row" where
  "signed_row r v t = moved (request_patch (signed_transition v t)) SIGNED t r"

lemma run_attach:
  assumes u: "unopposed i r w" and rec: "recovered w" and s: "status r = AWAITING_SIGNATURE"
    and c: "prepared_tx_blob r = Some pb" "sequence r = Some seq" "last_ledger_sequence r = Some high"
    and v: "verify X b pb = Inr v" "hash64 (vb_transaction_hash v)"
    and fresh: "\<And>q. q \<in> set (intents w) \<Longrightarrow> intent_id q \<noteq> i \<Longrightarrow>
      transaction_hash q \<noteq> Some (vb_transaction_hash v)"
    and a: "authorizes X env (vb_signing_pub_key v) (source_account r) n seq" and n: "n \<le> high"
  shows "\<exists>tr' w'. run env (attach_signature X i b) tr w = (Inr (signed_row r v (clock w)), tr', w') \<and>
    reaches i (signed_row r v (clock w)) w w'"
proof -
  note f = unopposed_facts[OF u]
  obtain resp a where a: "env tr (Request (validated_account_request (source_account r))) = Response resp"
      "read_validated_account resp = Inr (Some a)" "ai_sequence a = seq" "ai_ledger_index a = Some n"
      "assert_authorized X (vb_signing_pub_key v) (source_account r) a = Inr ()"
    using a unfolding authorizes_def by blast
  let ?req = "signed_transition v (clock w)"
  let ?tr = "tr @ [(Request (validated_account_request (source_account r)), Response resp)]"
  have req: "request_from ?req = [AWAITING_SIGNATURE]" "request_to ?req = SIGNED"
      "signed_row r v (clock w) = moved (request_patch ?req) (request_to ?req) (clock w) r"
    by (simp_all add: signed_transition_def signed_row_def)
  have checks: "row_checks (moved (request_patch ?req) (request_to ?req) (clock w) r)"
    using f(5) v(2) by (simp add: check_simps moved_def signed_transition_def optional_check_def)
  have hash: "\<not> same_transaction_hash q (moved (request_patch ?req) (request_to ?req) (clock w) r)"
    if "q \<in> set (intents w)" "intent_id q \<noteq> i" for q
    using fresh[OF that] by (auto simp: same_transaction_hash_def moved_def signed_transition_def)
  obtain w' where "run env (transition i ?req) ?tr w = (Inr (Some (signed_row r v (clock w))), ?tr, w')"
      "reaches i (signed_row r v (clock w)) w w'"
    using run_unopposed_transition[OF u _ _ checks hash, of env ?tr] s req by auto
  then show ?thesis
    using s n f(4)
    by (simp add: attach_signature_def run_await run_load[OF f(2)] run_lift_result settled_answer_def
        run_assert_recovered rec run_required c v(1) validated_account_info_def run_connection_request a
        check_and_attach_def attach_verified_def run_current_time cong: lazy)
qed

lemma signed_row_simps [simp]:
  "status (signed_row r v t) = SIGNED" "intent_id (signed_row r v t) = intent_id r"
  "signed_tx_blob (signed_row r v t) = Some (vb_tx_blob v)"
  "transaction_hash (signed_row r v t) = Some (vb_transaction_hash v)"
  "signing_pub_key (signed_row r v t) = Some (vb_signing_pub_key v)"
  "last_ledger_sequence (signed_row r v t) = last_ledger_sequence r"
  "prepared_ledger_index (signed_row r v t) = prepared_ledger_index r"
  "submission_attempt_count (signed_row r v t) = submission_attempt_count r"
  "submission_validated_ledger (signed_row r v t) = submission_validated_ledger r"
  "prepared_tx_blob (signed_row r v t) = prepared_tx_blob r"
  by (simp_all add: signed_row_def moved_def signed_transition_def)

section \<open>Submitting\<close>

text \<open>The validated ledger is \<open>n\<close> and the node answers the submission with \<open>res\<close>.\<close>

definition takes_submission ::
  "(env_call, env_answer) answers \<Rightarrow> string \<Rightarrow> nat \<Rightarrow> submit_outcome \<Rightarrow> object \<Rightarrow> bool" where
  "takes_submission env blob n res raw \<longleftrightarrow>
     (\<forall>tr. \<exists>resp. env tr (Request validated_ledger_request) = Response resp \<and>
        read_validated_ledger resp = Inr n) \<and>
     (\<forall>tr. \<exists>resp. env tr (Request (submit_request blob)) = Response resp \<and>
        read_submit resp = Inr (res, raw))"

text \<open>The first validated ledger of a submission stays on record as its baseline.\<close>

definition with_baseline :: "intent_row \<Rightarrow> nat \<Rightarrow> nat \<Rightarrow> intent_row" where
  "with_baseline r n t =
     (if submission_validated_ledger r = None then touched [SubmissionValidatedLedger n] t r else r)"

definition submitted_row :: "intent_row \<Rightarrow> nat \<Rightarrow> submit_outcome \<Rightarrow> object \<Rightarrow> nat \<Rightarrow> intent_row" where
  "submitted_row r n res raw t =
     (if starts_with ''tem'' (sub_engine_result res)
      then moved (recorded res raw t) REJECTED t (with_baseline r n t)
      else moved (recorded res raw t @ [SubmittedAt t]) SUBMITTED t (with_baseline r n t))"

lemma with_baseline_simps [simp]:
  "status (with_baseline r n t) = status r" "intent_id (with_baseline r n t) = intent_id r"
  "transaction_hash (with_baseline r n t) = transaction_hash r"
  "prepared_ledger_index (with_baseline r n t) = prepared_ledger_index r"
  "last_ledger_sequence (with_baseline r n t) = last_ledger_sequence r"
  "submission_attempt_count (with_baseline r n t) = submission_attempt_count r"
  "signed_tx_blob (with_baseline r n t) = signed_tx_blob r"
  "submission_validated_ledger (with_baseline r n t) =
     (case submission_validated_ledger r of None \<Rightarrow> Some n | Some m \<Rightarrow> Some m)"
  by (auto simp: with_baseline_def touched_def split: option.splits)

lemma submitted_row_simps:
  "status (submitted_row r n res raw t) =
     (if starts_with ''tem'' (sub_engine_result res) then REJECTED else SUBMITTED)"
  "submit_engine_result (submitted_row r n res raw t) = Some (sub_engine_result res)"
  "submit_response (submitted_row r n res raw t) = Some (JObj raw)"
  "submission_attempt_count (submitted_row r n res raw t) = submission_attempt_count r + 1"
  "submission_validated_ledger (submitted_row r n res raw t) =
     Some (case submission_validated_ledger r of None \<Rightarrow> n | Some m \<Rightarrow> m)"
  "signed_tx_blob (submitted_row r n res raw t) = signed_tx_blob r"
  "transaction_hash (submitted_row r n res raw t) = transaction_hash r"
  "prepared_ledger_index (submitted_row r n res raw t) = prepared_ledger_index r"
  "last_ledger_sequence (submitted_row r n res raw t) = last_ledger_sequence r"
  by (auto simp: submitted_row_def moved_def recorded_def split: option.split)

lemma with_baseline_checks: "row_checks (with_baseline r n t) = row_checks r"
  by (simp add: check_simps with_baseline_def touched_def)

lemma run_baseline:
  assumes u: "unopposed i r w" and s: "status r = SIGNED"
  shows "\<exists>x w'. run env (if submission_validated_ledger r = None
       then update_in_status i [SIGNED] [SubmissionValidatedLedger n] else Return None) tr w = (Inr x, tr, w') \<and>
    reaches i (with_baseline r n (clock w)) w w'"
proof (cases "submission_validated_ledger r")
  case None
  have checks: "row_checks (touched [SubmissionValidatedLedger n] (clock w) r)"
    using unopposed_facts(5)[OF u] by (simp add: check_simps touched_def)
  from run_unopposed_update[OF u _ checks, of "[SIGNED]" env tr] show ?thesis
    using s None by (auto simp: with_baseline_def)
next
  case (Some m)
  then show ?thesis using reaches_refl[OF u] by (simp add: with_baseline_def)
qed

lemma run_record_submission:
  assumes u: "unopposed i (with_baseline r n (clock w)) w" and s: "status r = SIGNED"
    and count: "submission_attempt_count r < 2147483647"
  shows "\<exists>w'. run env (record_submission r res raw (clock w)) tr w =
      (Inr (Some (submitted_row r n res raw (clock w))), tr, w') \<and>
    reaches i (submitted_row r n res raw (clock w)) w w'"
proof -
  let ?r = "with_baseline r n (clock w)" and ?t = "clock w"
  have id: "intent_id r = i" and ok: "row_checks ?r" using unopposed_facts(4,5)[OF u] by simp_all
  have move: "\<exists>w'. run env (transition i (submission_transition st reason res cols)) tr w =
        (Inr (Some (moved cols st ?t ?r)), tr, w') \<and> reaches i (moved cols st ?t ?r) w w'"
    if cols: "cols = recorded res raw ?t @ cs" "cs = [] \<or> cs = [SubmittedAt ?t]" and st: "can_transition SIGNED st"
    for st reason cols cs
  proof -
    let ?req = "submission_transition st reason res cols"
    have req: "request_from ?req = [SIGNED]" "request_to ?req = st" "request_patch ?req = cols"
      by (simp_all add: submission_transition_def)
    have checks: "row_checks (moved cols st ?t ?r)"
      using ok count cols by (auto simp: check_simps moved_def recorded_def)
    have hash: "transaction_hash (moved cols st ?t ?r) = transaction_hash ?r"
      using cols by (auto simp: moved_def recorded_def)
    show ?thesis
      using run_unopposed_transition[OF u, of ?req env tr] checks unopposed_same_hash[OF u hash] s st
      by (simp add: req)
  qed
  from move[of "recorded res raw ?t" "[]"] move[of "recorded res raw ?t @ [SubmittedAt ?t]" "[SubmittedAt ?t]"]
  show ?thesis using s id by (simp add: record_submission_def submitted_row_def)
qed

lemma run_submit:
  assumes u: "unopposed i r w" and rec: "recovered w" and s: "status r = SIGNED"
    and c: "signed_tx_blob r = Some b" "last_ledger_sequence r = Some high"
    and count: "submission_attempt_count r < 2147483647"
    and node: "takes_submission env b n res raw" and n: "n \<le> high"
  shows "\<exists>tr' w'. run env (submit i) tr w = (Inr (submitted_row r n res raw (clock w)), tr @ tr', w') \<and>
    map fst tr' = [Request validated_ledger_request, Request (submit_request b)] \<and>
    reaches i (submitted_row r n res raw (clock w)) w w'"
proof -
  note f = unopposed_facts[OF u]
  obtain resp where l: "env tr (Request validated_ledger_request) = Response resp"
      "read_validated_ledger resp = Inr n"
    using node unfolding takes_submission_def by blast
  let ?tr = "tr @ [(Request validated_ledger_request, Response resp)]"
  obtain resp2 where m: "env ?tr (Request (submit_request b)) = Response resp2"
      "read_submit resp2 = Inr (res, raw)"
    using node unfolding takes_submission_def by blast
  let ?tr2 = "?tr @ [(Request (submit_request b), Response resp2)]"
  have index: "run env validated_ledger_index tr w = (Inr n, ?tr, w)"
    using l by (simp add: validated_ledger_index_def run_await run_connection_request run_lift_result)
  obtain x w1 where 1: "run env (if submission_validated_ledger r = None
       then update_in_status i [SIGNED] [SubmissionValidatedLedger n] else Return None) ?tr w = (Inr x, ?tr, w1)"
      "reaches i (with_baseline r n (clock w)) w w1"
    using run_baseline[OF u s] by blast
  have u1: "unopposed i (with_baseline r n (clock w1)) w1" and t: "clock w1 = clock w"
    using 1(2) by (auto simp: reaches_def)
  obtain w2 where 2: "run env (record_submission r res raw (clock w1)) ?tr2 w1 =
      (Inr (Some (submitted_row r n res raw (clock w))), ?tr2, w2)"
      "reaches i (submitted_row r n res raw (clock w)) w1 w2"
    using run_record_submission[OF u1 s count, of env res raw ?tr2] t by auto
  have "run env (attempt r b) ?tr w1 = (Inr (Some (submitted_row r n res raw (clock w))), ?tr2, w2)"
    using 2(1) by (simp add: attempt_def run_await run_current_time run_try_catch ledger_submit_def
        run_connection_request run_lift_result m cong: lazy)
  then have "run env (await (if submission_validated_ledger r = None
       then update_in_status (intent_id r) [SIGNED] [SubmissionValidatedLedger n] else Return None)
       (\<lambda>_. attempt r b)) ?tr w =
      (Inr (Some (submitted_row r n res raw (clock w))), ?tr2, w2)"
    unfolding run_await f(4) 1(1) by simp
  then have "run env (submit i) tr w = (Inr (submitted_row r n res raw (clock w)), ?tr2, w2)"
    using s n
    by (simp add: submit_def run_await[of _ "load i"] run_load[OF f(2)] max_submission_steps_def run_submit_loop
        submit_signed_def run_await[of _ assert_recovered] run_assert_recovered rec required_def c
        run_await[of _ validated_ledger_index] index f(4) cong: lazy split del: if_split)
  then show ?thesis using reaches_trans[OF 1(2) 2(2)] by auto
qed

text \<open>
  The baseline is that of the last first attempt, not of the first: an attempt that read the row
  before the baseline was recorded records its own over it, as long as the intent is SIGNED.
\<close>

lemma stale_attempt_overwrites_the_baseline:
  assumes u: "unopposed i r w" and rec: "recovered w" and s: "status r = SIGNED"
    and stale: "intent_id r0 = i" "submission_validated_ledger r0 = None" "signed_tx_blob r0 = Some b"
      "last_ledger_sequence r0 = Some high"
    and n: "env tr (Request validated_ledger_request) = Response resp" "read_validated_ledger resp = Inr n" "n \<le> high"
    and down: "\<And>tr. env tr (Request (submit_request b)) = Refused e"
  shows "\<exists>r' tr' w'. run env (submit_signed r0) tr w = (Inl e, tr', w') \<and> find_row i w' = Some r' \<and>
    submission_validated_ledger r' = Some n"
proof -
  let ?r1 = "touched [SubmissionValidatedLedger n] (clock w) r"
  let ?tr = "tr @ [(Request validated_ledger_request, Response resp)]"
  have "row_checks ?r1" using unopposed_facts(5)[OF u] by (simp add: check_simps touched_def)
  with s obtain w1 where 1: "run env (update_in_status i [SIGNED] [SubmissionValidatedLedger n]) ?tr w =
      (Inr (Some ?r1), ?tr, w1)" "reaches i ?r1 w w1"
    using run_unopposed_update[OF u, of "[SIGNED]" "[SubmissionValidatedLedger n]" env ?tr] by auto
  let ?r2 = "touched [LastSubmitAttemptAt (clock w1)] (clock w1) ?r1"
  let ?tr2 = "?tr @ [(Request (submit_request b), Refused e)]"
  have u1: "unopposed i ?r1 w1" using 1(2) by (simp add: reaches_def)
  have "row_checks ?r2" using unopposed_facts(5)[OF u1] by (simp add: check_simps touched_def)
  with s obtain w2 where 2: "run env (update_in_status i signed_active_statuses [LastSubmitAttemptAt (clock w1)]) ?tr2 w1 =
      (Inr (Some ?r2), ?tr2, w2)" "reaches i ?r2 w1 w2"
    using run_unopposed_update[OF u1, of signed_active_statuses "[LastSubmitAttemptAt (clock w1)]" env ?tr2]
    by (auto simp: touched_def signed_active_statuses_def)
  have "run env (submit_signed r0) tr w = (Inl e, ?tr2, w2)"
    using n 1(1) 2(1)
    by (simp add: submit_signed_def run_await run_assert_recovered rec run_required stale validated_ledger_index_def
        run_connection_request run_lift_result attempt_def run_current_time run_try_catch ledger_submit_def down cong: lazy)
  moreover have "find_row i w2 = Some ?r2" using 2(2) by (simp add: reaches_def unopposed_def)
  ultimately show ?thesis by (auto simp: touched_def)
qed

section \<open>From the request to the network\<close>

text \<open>The other rows are the same ones before and after.\<close>

lemma reaches_others:
  assumes "reaches i r w w'" and "q \<in> set (intents w')" and "intent_id q \<noteq> i"
  shows "q \<in> set (intents w)"
proof -
  have "table_ok (intents w')" using assms(1) by (simp add: reaches_def unopposed_def)
  then have "find_row (intent_id q) w' = Some q" using assms(2) by (simp add: find_row_Some_iff)
  then have "find_row (intent_id q) w = Some q" using assms(1,3) by (simp add: reaches_def)
  then show ?thesis by (blast dest: find_row_SomeD)
qed

lemma execution_run:
  assumes "execution X N w log" and "handler X N c = forget p" and "run env p [] w = (Inr x, tr, w')"
  shows "\<exists>log'. execution X N w' log'"
proof -
  have "run env (handler X N c) [] w = (Inr (), tr, w')" using assms(2,3) by (simp add: run_forget)
  from execution_handler[OF assms(1) this] show ?thesis by blast
qed

text \<open>How the intent and the rest of the table look after the three calls.\<close>

definition delivered :: "string \<Rightarrow> string \<Rightarrow> verified_blob \<Rightarrow> submit_outcome \<Rightarrow> intent_row
    \<Rightarrow> (env_call, env_answer) trace \<Rightarrow> world \<Rightarrow> world \<Rightarrow> bool" where
  "delivered i b v res r tr w w' \<longleftrightarrow>
     reaches i r w w' \<and> signed_tx_blob r = Some (upper b) \<and> transaction_hash r = Some (vb_transaction_hash v) \<and>
     status r = (if starts_with ''tem'' (sub_engine_result res) then REJECTED else SUBMITTED) \<and>
     map fst tr = [Request validated_ledger_request, Request (submit_request (upper b))]"

lemma run_delivery:
  assumes u: "unopposed i r w" and rec: "recovered w" and s: "status r = CREATED"
    and p: "intent_payload r = JObj (payload_object p)" and count: "submission_attempt_count r < 2147483647"
    and n: "0 < n" and pr: "prepared_as X N p fee seq n tx blob"
    and co: "cooperates X env (account p) n seq fee tx"
    and v: "verify X b blob = Inr v" "hash64 (vb_transaction_hash v)"
    and fresh: "\<And>q. q \<in> set (intents w) \<Longrightarrow> intent_id q \<noteq> i \<Longrightarrow>
      transaction_hash q \<noteq> Some (vb_transaction_hash v)"
    and a: "authorizes X env2 (vb_signing_pub_key v) (source_account r) n2 seq"
      "n2 \<le> last_ledger_sequence_for n"
    and t: "takes_submission env3 (upper b) n3 res raw" "n3 \<le> last_ledger_sequence_for n"
  shows "\<exists>r1 tr1 w1 r2 tr2 w2 r3 tr3 w3.
    run env (prepare X N i) [] w = (Inr r1, tr1, w1) \<and>
    run env2 (attach_signature X i b) [] w1 = (Inr r2, tr2, w2) \<and>
    run env3 (submit i) [] w2 = (Inr r3, tr3, w3) \<and> delivered i b v res r3 tr3 w w3 \<and>
    prepared_ledger_index r3 = Some n \<and> last_ledger_sequence r3 = Some (last_ledger_sequence_for n)"
proof -
  obtain r1 tr1 w1 where 1: "run env (prepare X N i) [] w = (Inr r1, tr1, w1)" "reaches i r1 w w1"
      "prepared_in r r1 tx blob n seq fee"
    using run_prepare[OF u rec s p n pr co] by blast
  have u1: "unopposed i r1 w1" "recovered w1" using 1(2) rec by (auto simp: reaches_def)
  have p1: "status r1 = AWAITING_SIGNATURE" "prepared_tx_blob r1 = Some blob" "sequence r1 = Some seq"
      "last_ledger_sequence r1 = Some (last_ledger_sequence_for n)" "prepared_ledger_index r1 = Some n"
      "source_account r1 = source_account r"
      "submission_attempt_count r1 = submission_attempt_count r"
    using 1(3) by (simp_all add: prepared_in_def same_identity_def)
  have a1: "authorizes X env2 (vb_signing_pub_key v) (source_account r1) n2 seq" using a(1) p1(6) by simp
  define r2 where "r2 = signed_row r1 v (clock w1)"
  obtain tr2 w2 where 2: "run env2 (attach_signature X i b) [] w1 = (Inr r2, tr2, w2)" "reaches i r2 w1 w2"
    using run_attach[OF u1 p1(1-4) v _ a1 a(2)] reaches_others[OF 1(2)] fresh unfolding r2_def by blast
  have u2: "unopposed i r2 w2" "recovered w2" using 2(2) u1 by (auto simp: reaches_def)
  have p2: "status r2 = SIGNED" "signed_tx_blob r2 = Some (upper b)"
      "last_ledger_sequence r2 = Some (last_ledger_sequence_for n)" "submission_attempt_count r2 < 2147483647"
    using p1 count verify_tx_blob[OF v(1)] by (simp_all add: r2_def)
  obtain tr3 w3 where 3: "run env3 (submit i) [] w2 = (Inr (submitted_row r2 n3 res raw (clock w2)), tr3, w3)"
      "map fst tr3 = [Request validated_ledger_request, Request (submit_request (upper b))]"
      "reaches i (submitted_row r2 n3 res raw (clock w2)) w2 w3"
    using run_submit[OF u2 p2 t, of "[]"] by auto
  have "reaches i (submitted_row r2 n3 res raw (clock w2)) w w3"
    using 1(2) 2(2) 3(3) by (blast intro: reaches_trans)
  then have "delivered i b v res (submitted_row r2 n3 res raw (clock w2)) tr3 w w3"
    using 3(2) p2(2) by (simp add: delivered_def submitted_row_simps r2_def)
  moreover have "prepared_ledger_index (submitted_row r2 n3 res raw (clock w2)) = Some n"
      "last_ledger_sequence (submitted_row r2 n3 res raw (clock w2)) = Some (last_ledger_sequence_for n)"
    using p1(4,5) by (simp_all add: submitted_row_simps r2_def)
  ultimately show ?thesis using 1(1) 2(1) 3(1) by blast
qed

section \<open>Properties\<close>

text \<open>
  A signature is accepted whenever it should be: after recovery, for an intent awaiting its
  signature, a blob that verifies against the prepared one, whose transaction hash no other intent
  holds, from a key the validated account state authorizes, with the prepared Sequence still
  current and the ledger window open, is attached; the answer is the SIGNED row with the normalized
  blob, its hash and the key.
\<close>

lemma attach_accepts_the_signature:
  assumes "execution X N w log" and "recovered w" and "find_row i w = Some r"
    and "status r = AWAITING_SIGNATURE" and "prepared_tx_blob r = Some pb" and "sequence r = Some seq"
    and "last_ledger_sequence r = Some high" and "verify X b pb = Inr v"
    and "hash64 (vb_transaction_hash v)"
    and "\<And>q. q \<in> set (intents w) \<Longrightarrow> intent_id q \<noteq> i \<Longrightarrow> transaction_hash q \<noteq> Some (vb_transaction_hash v)"
    and "authorizes X env (vb_signing_pub_key v) (source_account r) n seq" and "n \<le> high"
  shows "\<exists>r' tr w'. run env (attach_signature X i b) [] w = (Inr r', tr, w') \<and> find_row i w' = Some r' \<and>
    status r' = SIGNED \<and> signed_tx_blob r' = Some (upper b) \<and>
    transaction_hash r' = Some (vb_transaction_hash v) \<and> signing_pub_key r' = Some (vb_signing_pub_key v)"
proof -
  have "is_sequence_active r" using assms(4) by (simp add: is_sequence_active_def status_groups)
  with active_unopposed[OF execution_world_ok[OF assms(1)] assms(3)] have "unopposed i r w" by blast
  from run_attach[OF this assms(2,4-12)] obtain tr w' where
    "run env (attach_signature X i b) [] w = (Inr (signed_row r v (clock w)), tr, w')"
    "reaches i (signed_row r v (clock w)) w w'" by blast
  then show ?thesis using verify_tx_blob[OF assms(8)] by (auto simp: reaches_def unopposed_def)
qed

text \<open>
  A signed intent inside its window is submitted by one call: the stored blob goes out exactly
  once, after one read of the validated ledger, and the answer of the node is on record. The intent
  is REJECTED for a malformed transaction and SUBMITTED for every other engine result; the attempt
  is counted, and the first validated ledger seen by a submission stays its baseline.
\<close>

lemma submit_records_the_answer:
  assumes "execution X N w log" and "recovered w" and "find_row i w = Some r" and "status r = SIGNED"
    and "signed_tx_blob r = Some b" and "last_ledger_sequence r = Some high"
    and "submission_attempt_count r < 2147483647" and "takes_submission env b n res raw" and "n \<le> high"
  shows "\<exists>r' tr w'. run env (submit i) [] w = (Inr r', tr, w') \<and> find_row i w' = Some r' \<and>
    map fst tr = [Request validated_ledger_request, Request (submit_request b)] \<and>
    status r' = (if starts_with ''tem'' (sub_engine_result res) then REJECTED else SUBMITTED) \<and>
    submit_engine_result r' = Some (sub_engine_result res) \<and> submit_response r' = Some (JObj raw) \<and>
    submission_attempt_count r' = submission_attempt_count r + 1 \<and>
    submission_validated_ledger r' = Some (case submission_validated_ledger r of None \<Rightarrow> n | Some m \<Rightarrow> m)"
proof -
  have "is_sequence_active r" using assms(4) by (simp add: is_sequence_active_def status_groups)
  with active_unopposed[OF execution_world_ok[OF assms(1)] assms(3)] have "unopposed i r w" by blast
  from run_submit[OF this assms(2,4-9), of "[]"] obtain tr w' where
    "run env (submit i) [] w = (Inr (submitted_row r n res raw (clock w)), tr, w')"
    "map fst tr = [Request validated_ledger_request, Request (submit_request b)]"
    "reaches i (submitted_row r n res raw (clock w)) w w'" by auto
  then show ?thesis by (auto simp: reaches_def unopposed_def submitted_row_simps)
qed

lemma demo_authorizes: "authorizes demo_codec (demo_env (at_ledger 101)) ''ED01'' ''rAlice'' 101 7"
  by (simp add: authorizes_def demo_env_def demo_answer_def request_defs parser_defs max_safe_integer_def
      assert_authorized_def demo_codec_def)

lemma demo_takes_submission:
  "takes_submission (demo_env (at_ledger 102)) ''ABCDEF'' 102 (demo_submitted (at_ledger 102))
     [(''engine_result'', JStr ''tesSUCCESS'')]"
  by (simp add: takes_submission_def demo_env_def demo_answer_def request_defs read_validated_ledger_def
      read_submit_def parser_defs max_safe_integer_def demo_submitted_def)

lemma attach_accepts_the_signature_witness:
  "\<exists>w r' tr w'. intents w = [demo_awaiting] \<and>
     run (demo_env (at_ledger 101)) (attach_signature demo_codec ''id1'' ''abcdef'') [] w = (Inr r', tr, w') \<and>
     status r' = SIGNED \<and> signed_tx_blob r' = Some (upper ''abcdef'')"
proof -
  obtain w log where e: "execution demo_codec 2 w log" and w: "demo_state w demo_awaiting True"
    using arrival_history[OF arrival_awaiting] unfolding history_def by blast
  let ?v = "\<lparr>vb_tx_blob = ''ABCDEF'', vb_transaction_hash = demo_hash, vb_signing_pub_key = ''ED01''\<rparr>"
  have r: "find_row ''id1'' w = Some demo_awaiting" "recovered w" using w by (simp_all add: demo_state_def find_row_def)
  have fresh: "transaction_hash q \<noteq> Some (vb_transaction_hash ?v)"
    if "q \<in> set (intents w)" "intent_id q \<noteq> ''id1''" for q
    using that w by (simp add: demo_state_def)
  have "authorizes demo_codec (demo_env (at_ledger 101)) (vb_signing_pub_key ?v) (source_account demo_awaiting) 101 7"
    using demo_authorizes by simp
  from attach_accepts_the_signature[OF e r(2,1) _ _ _ _ demo_verify _ fresh this] w show ?thesis
    using demo_hash_ok unfolding demo_state_def by fastforce
qed

lemma submit_records_the_answer_witness:
  "\<exists>w r' tr w'. intents w = [demo_signed] \<and>
     run (demo_env (at_ledger 102)) (submit ''id1'') [] w = (Inr r', tr, w') \<and>
     map fst tr = [Request validated_ledger_request, Request (submit_request ''ABCDEF'')] \<and>
     status r' = SUBMITTED \<and> submission_attempt_count r' = 1"
proof -
  obtain w log where e: "execution demo_codec 2 w log" and w: "demo_state w demo_signed True"
    using arrival_history[OF arrival_signed] unfolding history_def by blast
  have r: "find_row ''id1'' w = Some demo_signed" "recovered w" using w by (simp_all add: demo_state_def find_row_def)
  have tes: "\<not> starts_with ''tem'' (sub_engine_result (demo_submitted (at_ledger 102)))"
    by (simp add: demo_submitted_def starts_with_def)
  from submit_records_the_answer[OF e r(2,1) _ _ _ _ demo_takes_submission, of 120] w tes show ?thesis
    unfolding demo_state_def by fastforce
qed

end
