(* ===== verification/MethodContracts.thy ===== *)
theory MethodContracts
  imports System Scenario
begin

text \<open>
  What a caller may rely on when a method of the service answers, whatever else runs at the same
  time: the contracts of the single methods, read off their proof rules.
\<close>

text \<open>The commit with which a restarted process declares recovery.\<close>

lemma recovery_commit:
  obtains w log tr w1 w2 where "execution demo_codec 2 w log" "Committed tr w1 w2 \<in> set log"
    "\<not> recovered w1" "recovered w2"
proof -
  have e: "execution demo_codec 2 empty_world []"
    by (rule execution_start) (simp add: fresh_database_def empty_world_def)
  obtain tr w where r1: "run (demo_env (at_ledger 100)) (handler demo_codec 2
      (CallCreate ''id1'' ''key1'' demo_payment)) [] empty_world = (Inr (), tr, w)"
      "demo_state w demo_created False"
    using demo_create by blast
  obtain tr2 w2 where r2: "run (demo_env (at_ledger 100)) (handler demo_codec 2 CallCycle) [] w =
      (Inr (), tr2, w2)" "demo_state w2 demo_created True"
    using demo_recover[OF r1(2), of "at_ledger 100"] by (auto simp: demo_ok_def max_safe_integer_def)
  from run_events_change[OF r2(1), of "\<lambda>w. \<not> recovered w"] r1(2) r2(2) obtain tr3 w3 w4 where
    c: "Committed tr3 w3 w4 \<in> set (run_events (demo_env (at_ledger 100)) (handler demo_codec 2 CallCycle) [] w)"
      "\<not> recovered w3" "recovered w4"
    by (auto simp: demo_state_def)
  from execution_handler[OF execution_handler[OF e r1(1)] r2(1)] c that show ?thesis by fastforce
qed

text \<open>
  A process that has just started refuses writes until recovery, and recovery is declared
  only at the end of a cycle that was answered a validated ledger; declaring it changes neither
  table.
\<close>

lemma recovery_follows_a_validated_answer:
  assumes "execution X N w log" and "Committed tr w1 w2 \<in> set log"
    and "\<not> recovered w1" and "recovered w2"
  shows "(\<exists>n. answered tr validated_ledger_request read_validated_ledger n) \<and>
     intents w2 = intents w1 \<and> trail w2 = trail w1"
  using execution_committed[OF assms(1,2)] assms(3,4)
  by (auto simp: permitted_def memory_only_def row_created_def row_moved_def row_touched_def
      insert_transition_def put_row_def)

lemma recovery_follows_a_validated_answer_witness:
  "\<exists>w log tr w1 w2 n. execution demo_codec 2 w log \<and> Committed tr w1 w2 \<in> set log \<and>
     \<not> recovered w1 \<and> recovered w2 \<and> answered tr validated_ledger_request read_validated_ledger n"
proof -
  obtain w log tr w1 w2 where e: "execution demo_codec 2 w log" "Committed tr w1 w2 \<in> set log"
      "\<not> recovered w1" "recovered w2"
    by (rule recovery_commit)
  from recovery_follows_a_validated_answer[OF e] obtain n where
    "answered tr validated_ledger_request read_validated_ledger n" by blast
  with e show ?thesis
    by (intro exI[of _ w] exI[of _ log] exI[of _ tr] exI[of _ w1] exI[of _ w2] exI[of _ n]) simp
qed

text \<open>
  An Idempotency-Key and a transaction hash each belong to one intent for ever: no two rows
  of any reachable table share one.
\<close>

lemma keys_and_hashes_are_unique:
  assumes "execution X N w log" and "r1 \<in> set (intents w)" and "r2 \<in> set (intents w)"
    and "idempotency_key r1 = idempotency_key r2 \<or>
      (transaction_hash r1 = transaction_hash r2 \<and> transaction_hash r1 \<noteq> None)"
  shows "r1 = r2"
proof -
  have I: "world_ok X N w" by (rule execution_world_ok[OF assms(1)])
  have "row_clash r1 r2" using assms(4) by (auto simp: row_clash_iff same_transaction_hash_def)
  with I assms(2,3) show ?thesis by (auto simp: world_ok_def store_ok_def intro: table_ok_no_clash)
qed

lemma keys_and_hashes_are_unique_witness:
  "\<exists>w log. execution demo_codec 2 w log \<and> demo_signed \<in> set (intents w) \<and>
     (\<forall>r \<in> set (intents w). transaction_hash r = Some demo_hash \<longrightarrow> r = demo_signed)"
proof -
  obtain w log where w: "execution demo_codec 2 w log" "demo_state w demo_signed True"
    using arrival_history[OF arrival_signed] unfolding history_def by blast
  have r: "demo_signed \<in> set (intents w)" using w(2) by (simp add: demo_state_def)
  have h: "transaction_hash demo_signed = Some demo_hash" by (simp add: demo_signed_def moved_def)
  have "r' = demo_signed" if "r' \<in> set (intents w)" "transaction_hash r' = Some demo_hash" for r'
    by (rule keys_and_hashes_are_unique[OF w(1) that(1) r]) (simp add: that(2) h)
  with w(1) r show ?thesis by blast
qed

text \<open>
  \<open>prepare\<close>, under any interference: it ends, and if it answers, then with a row of that
  intent, as it is or was in the table, in a status that has a simulated, signable transaction
  behind it.
\<close>

lemma prepare_answers_a_signable_intent:
  "meets X N (prepare X N i)
     (\<lambda>r tr' w'. evolves w w' \<and> known X N r w' \<and> intent_id r = i \<and>
        status r \<in> {AWAITING_SIGNATURE, SIGNED, SUBMITTED, VALIDATED} \<and> prepared_ok X N r \<and>
        simulated_ok X r \<and> simulation_engine_result r = Some ''tesSUCCESS'')
     (\<lambda>e tr' w'. evolves w w') tr w"
proof (rule wp_prepare)
  fix r tr' w' assume e: "evolves w w'" and k: "known X N r w'" and i: "intent_id r = i"
    and s: "status r \<in> {AWAITING_SIGNATURE, SIGNED, SUBMITTED, VALIDATED}"
  have "prepared_ok X N r \<and> simulated_ok X r \<and> simulation_engine_result r = Some ''tesSUCCESS''"
    using known_ok[OF k] s by (auto simp: row_ok_def split: if_splits)
  with e k i s show "evolves w w' \<and> known X N r w' \<and> intent_id r = i \<and>
      status r \<in> {AWAITING_SIGNATURE, SIGNED, SUBMITTED, VALIDATED} \<and> prepared_ok X N r \<and>
      simulated_ok X r \<and> simulation_engine_result r = Some ''tesSUCCESS''" by blast
qed

text \<open>
  \<open>attachSignature\<close>, under any interference: it ends, and if it answers, then with a row of
  that intent whose signed blob is exactly the one of the request in upper case, verified against
  the prepared blob: whoever lost a race is not told that its blob was accepted.
\<close>

lemma attach_signature_answers_the_attached_blob:
  "meets X N (attach_signature X i b)
     (\<lambda>r tr' w'. evolves w w' \<and> known X N r w' \<and> intent_id r = i \<and>
        status r \<in> {SIGNED, SUBMITTED, VALIDATED} \<and> signed_tx_blob r = Some (upper b) \<and> signed_ok X r)
     (\<lambda>e tr' w'. evolves w w') tr w"
proof (rule wp_attach_signature)
  fix r tr' w' assume e: "evolves w w'" and a: "attached X N i b r w'"
  then have k: "known X N r w'" and b: "signed_tx_blob r = Some (upper b)" by (auto simp: attached_def)
  have "signed_ok X r" using known_ok[OF k] b by (auto simp: row_ok_def split: if_splits)
  with a e show "evolves w w' \<and> known X N r w' \<and> intent_id r = i \<and>
      status r \<in> {SIGNED, SUBMITTED, VALIDATED} \<and> signed_tx_blob r = Some (upper b) \<and> signed_ok X r"
    by (simp add: attached_def)
qed

text \<open>
  C23. \<open>submit\<close>, under any interference: it ends, and if it answers, then with a row of that
  intent that carries a verified signed blob and is SUBMITTED, REJECTED or VALIDATED. Its three rounds
  always suffice: it never answers with the row of an intent that expired, failed or is still SIGNED.
\<close>

theorem submit_answers_a_signed_intent:
  "meets X N (submit i)
     (\<lambda>r tr' w'. evolves w w' \<and> known X N r w' \<and> intent_id r = i \<and> signed_ok X r \<and>
        status r \<in> {SUBMITTED, REJECTED, VALIDATED})
     (\<lambda>e tr' w'. evolves w w') tr w"
proof (rule wp_submit)
  fix r tr' w'
  assume "evolves w w'" "known X N r w'" "intent_id r = i" "signed_tx_blob r \<noteq> None" "answered_status (status r)"
  moreover from this have "signed_ok X r"
    by (auto simp: row_ok_def dest!: known_ok split: if_splits)
  ultimately show "evolves w w' \<and> known X N r w' \<and> intent_id r = i \<and> signed_ok X r \<and>
      status r \<in> {SUBMITTED, REJECTED, VALIDATED}"
    by (auto simp: answered_status_def)
qed

text \<open>
  \<open>create\<close>, under any interference: if it answers, then with a row that holds the key of the
  request and the hash of its canonical payload, whether it created the row or found it.
\<close>

lemma create_answers_the_request:
  "meets X N (create X N uuid key dto)
     (\<lambda>(c, r) tr' w'. evolves w w' \<and> known X N r w' \<and> idempotency_key r = key \<and>
        request_hash r = request_hash_of X (to_canonical_intent dto))
     (\<lambda>e tr' w'. evolves w w') tr w"
  by (rule wp_create) (auto simp: created_for_def)

text \<open>
  A finality cycle never throws, whatever the ledger and the database answer: the scheduler
  that ignores its promise loses no error and stops at none.
\<close>

lemma cycle_never_throws:
  "meets X N cycle (\<lambda>u tr' w'. evolves w w') (\<lambda>e tr' w'. False) tr w"
  by (rule wp_cycle) simp

text \<open>
  When the resolution of a signed intent reports VALIDATED, EXPIRED or FAILED, the intent is
  in a terminal status; otherwise nothing is claimed. The switch budget never grows.
\<close>

lemma reported_outcome_is_settled:
  assumes "known X N r w" and "status r \<in> {SIGNED, SUBMITTED}" and "seen_ledger tr current"
  shows "meets X N (resolve_signed r current budget)
     (\<lambda>(outcome, left) tr' w'. left \<le> budget \<and>
        (outcome \<in> {O_VALIDATED, O_EXPIRED, O_FAILED} \<longrightarrow>
           (\<exists>r'. known X N r' w' \<and> row_evolves r r' \<and> is_terminal (status r'))))
     (\<lambda>e tr' w'. evolves w w') tr w"
proof (rule wp_resolve_signed)
  show "resolving X N r w" using assms(1,2) by (simp add: resolving_def status_groups)
qed (use assms(3) in \<open>auto simp: settled_def settles_def\<close>)

lemma reported_outcome_is_settled_witness:
  "\<exists>w tr. known demo_codec 2 demo_sent w \<and> meets demo_codec 2 (resolve_signed demo_sent 106 1)
     (\<lambda>(outcome, left) tr' w'. left \<le> 1 \<and>
        (outcome \<in> {O_VALIDATED, O_EXPIRED, O_FAILED} \<longrightarrow>
           (\<exists>r'. known demo_codec 2 r' w' \<and> row_evolves demo_sent r' \<and> is_terminal (status r'))))
     (\<lambda>e tr' w'. evolves w w') tr w"
proof -
  obtain w log where w: "execution demo_codec 2 w log" "demo_state w demo_sent True"
    using arrival_history[OF arrival_submitted] unfolding history_def by blast
  have k: "known demo_codec 2 demo_sent w"
    using w(2) by (intro known_row[OF execution_world_ok[OF w(1)]]) (simp add: demo_state_def)
  have ok: "read_validated_ledger (demo_answer (at_ledger 106) validated_ledger_request) = Inr 106"
    by (simp add: demo_answer_def request_defs read_validated_ledger_def parser_defs max_safe_integer_def)
  have s: "seen_ledger [(Request validated_ledger_request,
      Response (demo_answer (at_ledger 106) validated_ledger_request))] 106"
    using ok by (auto simp: seen_ledger_def answered_def)
  from reported_outcome_is_settled[OF k _ s, of 1] k show ?thesis by auto
qed

end
