(* ===== verification/Presenter.thy ===== *)
theory Presenter
  imports Scenario "HOL-Library.Multiset"
begin

text \<open>
  The API representations of an intent (\<open>src/intents/intent.presenter.ts\<close>) as JSON values.
\<close>

section \<open>Values\<close>

definition number :: "nat \<Rightarrow> json" where
  "number n = JNum (int n)"

definition iso_value :: "nat \<Rightarrow> json" where
  "iso_value t = JStr (iso_text (int t))"

fun type_name :: "intent_type \<Rightarrow> string" where
  "type_name PAYMENT = ''PAYMENT''"
| "type_name TRUST_SET = ''TRUST_SET''"

fun reason_name :: "transition_reason \<Rightarrow> string" where
  "reason_name INTENT_CREATED = ''INTENT_CREATED''"
| "reason_name TRANSACTION_PREPARED = ''TRANSACTION_PREPARED''"
| "reason_name SIMULATION_COMPLETED = ''SIMULATION_COMPLETED''"
| "reason_name SIMULATION_PASSED = ''SIMULATION_PASSED''"
| "reason_name SIMULATION_REJECTED_REASON = ''SIMULATION_REJECTED''"
| "reason_name SIMULATION_ARTIFACT_MISMATCH = ''SIMULATION_ARTIFACT_MISMATCH''"
| "reason_name SIGNATURE_ACCEPTED = ''SIGNATURE_ACCEPTED''"
| "reason_name SIGNATURE_WINDOW_EXPIRED = ''SIGNATURE_WINDOW_EXPIRED''"
| "reason_name TRANSACTION_SUBMITTED = ''TRANSACTION_SUBMITTED''"
| "reason_name MALFORMED_TRANSACTION = ''MALFORMED_TRANSACTION''"
| "reason_name TRANSACTION_VALIDATED = ''TRANSACTION_VALIDATED''"
| "reason_name LAST_LEDGER_SEQUENCE_EXPIRED = ''LAST_LEDGER_SEQUENCE_EXPIRED''"
| "reason_name SEQUENCE_CONFLICT = ''SEQUENCE_CONFLICT''"
| "reason_name SEQUENCE_REGRESSION = ''SEQUENCE_REGRESSION''"
| "reason_name FINALITY_INTEGRITY_ERROR = ''FINALITY_INTEGRITY_ERROR''"
| "reason_name UNEXPECTED_VALIDATED_RESULT = ''UNEXPECTED_VALIDATED_RESULT''"

section \<open>The prepared transaction\<close>

definition transaction_field_order :: "string list" where
  "transaction_field_order =
     [''TransactionType'', ''Account'', ''Destination'', ''DeliverMax'', ''DestinationTag'',
      ''LimitAmount'', ''Flags'', ''Fee'', ''Sequence'', ''LastLedgerSequence'', ''NetworkID'']"

text \<open>
  \<open>in\<close> also finds what every object inherits, so a further field of such a name is left out.
  (JavaScript lists integer-like names first; no transaction has one.)
\<close>

definition inherited_fields :: "string list" where
  "inherited_fields =
     [''constructor'', ''__defineGetter__'', ''__defineSetter__'', ''hasOwnProperty'',
      ''__lookupGetter__'', ''__lookupSetter__'', ''isPrototypeOf'', ''propertyIsEnumerable'',
      ''toString'', ''valueOf'', ''__proto__'', ''toLocaleString'']"

text \<open>\<open>Object.entries\<close>; an array has its positions as names.\<close>

fun entries :: "json \<Rightarrow> object option" where
  "entries (JObj ob) = Some ob"
| "entries (JArr vs) = Some (zip (map decimal [0..<length vs]) vs)"
| "entries v = None"

definition ordered_fields :: "object \<Rightarrow> object" where
  "ordered_fields source =
     map (\<lambda>k. (k, the (field source k))) (filter (has_field source) transaction_field_order)
     @ filter (\<lambda>kv. fst kv \<notin> set transaction_field_order \<and> fst kv \<notin> set inherited_fields) source"

definition ordered_transaction :: "json option \<Rightarrow> json" where
  "ordered_transaction value =
     (case value of
        None \<Rightarrow> JNull
      | Some v \<Rightarrow> (case entries v of None \<Rightarrow> JNull | Some source \<Rightarrow> JObj (ordered_fields source)))"

section \<open>The views\<close>

definition present_created :: "intent_row \<Rightarrow> json" where
  "present_created r =
     JObj [(''id'', JStr (intent_id r)), (''type'', JStr (type_name (intent_type r))),
       (''status'', JStr (status_name (status r))), (''account'', JStr (source_account r)),
       (''createdAt'', iso_value (created_at r))]"

definition present_prepared :: "intent_row \<Rightarrow> json" where
  "present_prepared r =
     JObj [(''id'', JStr (intent_id r)), (''status'', JStr (status_name (status r))),
       (''transaction'', ordered_transaction (prepared_tx_json r)),
       (''preparedTxBlob'', or_null JStr (prepared_tx_blob r)),
       (''simulation'', JObj [(''engineResult'', or_null JStr (simulation_engine_result r))])]"

definition present_signed :: "intent_row \<Rightarrow> json" where
  "present_signed r =
     JObj [(''id'', JStr (intent_id r)), (''status'', JStr (status_name (status r))),
       (''transactionHash'', or_null JStr (transaction_hash r)),
       (''signingPubKey'', or_null JStr (signing_pub_key r))]"

definition submit_flag :: "json option \<Rightarrow> string \<Rightarrow> json" where
  "submit_flag response name =
     (case as_record response of
        None \<Rightarrow> JNull
      | Some ob \<Rightarrow> or_null JBool (optional_bool (field ob name)))"

definition present_submitted :: "intent_row \<Rightarrow> json" where
  "present_submitted r =
     JObj [(''id'', JStr (intent_id r)), (''status'', JStr (status_name (status r))),
       (''transactionHash'', or_null JStr (transaction_hash r)),
       (''submission'', JObj [
          (''engineResult'', or_null JStr (submit_engine_result r)),
          (''accepted'', submit_flag (submit_response r) ''accepted''),
          (''queued'', submit_flag (submit_response r) ''queued''),
          (''broadcast'', submit_flag (submit_response r) ''broadcast'')])]"

text \<open>The detail view; \<open>asIntentPayload\<close> refuses a stored value it does not know.\<close>

definition detail_object :: "intent_row \<Rightarrow> object" where
  "detail_object r =
     [(''id'', JStr (intent_id r)), (''type'', JStr (type_name (intent_type r))),
      (''status'', JStr (status_name (status r))), (''account'', JStr (source_account r)),
      (''networkId'', number (network_id r)), (''intent'', intent_payload r),
      (''transaction'', ordered_transaction (prepared_tx_json r)),
      (''preparedTxBlob'', or_null JStr (prepared_tx_blob r)),
      (''preparedLedgerIndex'', or_null number (prepared_ledger_index r)),
      (''sequence'', or_null number (sequence r)),
      (''fee'', or_null JStr (fee_drops r)),
      (''lastLedgerSequence'', or_null number (last_ledger_sequence r)),
      (''simulation'',
        case simulation_engine_result r of
          None \<Rightarrow> JNull
        | Some e \<Rightarrow> JObj [(''engineResult'', JStr e), (''result'', or_null id (simulation_result r))]),
      (''transactionHash'', or_null JStr (transaction_hash r)),
      (''signingPubKey'', or_null JStr (signing_pub_key r)),
      (''submission'', JObj [
         (''attemptCount'', number (submission_attempt_count r)),
         (''engineResult'', or_null JStr (submit_engine_result r)),
         (''validatedLedgerAtFirstSubmission'', or_null number (submission_validated_ledger r)),
         (''lastAttemptAt'', or_null iso_value (last_submit_attempt_at r))]),
      (''finalResult'', or_null JStr (final_result r)),
      (''succeeded'', or_null (\<lambda>s. JBool (starts_with ''tes'' s)) (final_result r)),
      (''finalLedgerIndex'', or_null number (final_ledger_index r)),
      (''finalLedgerHash'', or_null JStr (final_ledger_hash r)),
      (''failureCode'', or_null (\<lambda>c. JStr (failure_name c)) (failure_code r)),
      (''createdAt'', iso_value (created_at r)),
      (''preparedAt'', or_null iso_value (prepared_at r)),
      (''simulatedAt'', or_null iso_value (simulated_at r)),
      (''signedAt'', or_null iso_value (signed_at r)),
      (''submittedAt'', or_null iso_value (submitted_at r)),
      (''finalizedAt'', or_null iso_value (finalized_at r)),
      (''updatedAt'', iso_value (updated_at r))]"

definition present_detail :: "intent_row \<Rightarrow> exn + json" where
  "present_detail r =
     rbind (as_intent_payload (intent_payload r)) (\<lambda>p. Inr (JObj (detail_object r)))"

definition present_transition :: "transition_row \<Rightarrow> json" where
  "present_transition t =
     JObj [(''id'', number (transition_id t)),
       (''fromStatus'', or_null (\<lambda>s. JStr (status_name s)) (from_status t)),
       (''toStatus'', JStr (status_name (to_status t))),
       (''reasonCode'', JStr (reason_name (reason_code t))),
       (''details'', or_null JObj (transition_details t)),
       (''createdAt'', iso_value (transition_created_at t))]"

section \<open>Order\<close>

lemma build_in_order:
  "map fst (build_transaction p params) =
     filter (has_field (build_transaction p params)) transaction_field_order"
proof (cases p)
  case (PaymentIntent a d am tag)
  then show ?thesis
    by (cases tag) (simp_all add: builder_defs has_field_def transaction_field_order_def)
next
  case (TrustSetIntent a c i v)
  then show ?thesis by (simp add: builder_defs has_field_def transaction_field_order_def)
qed

lemma ordered_fields_build:
  assumes "mset source = mset (build_transaction p params)"
  shows "ordered_fields source = build_transaction p params"
proof -
  let ?b = "build_transaction p params"
  have d: "distinct (map fst ?b)" by (rule distinct_build_transaction)
  have s: "set source = set ?b" using assms by (rule mset_eq_setD)
  have "mset (map fst source) = mset (map fst ?b)" using assms by simp
  then have d': "distinct (map fst source)" using d by (metis mset_eq_imp_distinct_iff)
  have f: "field source = field ?b"
    unfolding field_def by (rule ext, rule map_of_eqI[THEN fun_cong]) (use d d' s in auto)
  have h: "has_field source = has_field ?b" by (rule ext) (simp add: has_field_iff f)
  have "map (\<lambda>k. (k, the (field ?b k))) (map fst ?b) = ?b"
    using d by (auto simp: field_def intro!: map_idI)
  moreover have "set (map fst ?b) \<subseteq> set transaction_field_order"
    unfolding build_in_order by auto
  then have "filter (\<lambda>kv. fst kv \<notin> set transaction_field_order \<and> fst kv \<notin> set inherited_fields) source = []"
    using s by (auto simp: filter_empty_conv)
  ultimately show ?thesis
    unfolding ordered_fields_def f h build_in_order[symmetric] by simp
qed

section \<open>Properties\<close>

text \<open>
  C34. The database returns the fields of a stored transaction in an order of its own; whatever that
  order is, the API shows the transaction exactly as the builder made it, field by field in the
  builder's order.
\<close>

theorem presented_transaction_is_the_built_one:
  assumes "mset stored = mset (build_transaction p params)"
  shows "ordered_transaction (Some (JObj stored)) = JObj (build_transaction p params)"
  using ordered_fields_build[OF assms] by (simp add: ordered_transaction_def)

theorem presented_transaction_is_the_built_one_witness:
  "ordered_transaction (Some (JObj (rev (build_transaction (TrustSetIntent ''rA'' ''EUR'' ''rB'' ''5'')
       \<lparr>param_fee = ''10'', param_sequence = 7, param_last_ledger_sequence = 120, param_network_id = 2\<rparr>)))) =
     JObj (build_transaction (TrustSetIntent ''rA'' ''EUR'' ''rB'' ''5'')
       \<lparr>param_fee = ''10'', param_sequence = 7, param_last_ledger_sequence = 120, param_network_id = 2\<rparr>)"
  by (rule presented_transaction_is_the_built_one) simp

text \<open>
  No view of an intent depends on the signed blob, the final transaction, its metadata, the
  idempotency key or the request hash, and of the raw submit response (which repeats the signed
  blob) on nothing but three flags: two intents that differ only there look the same.
\<close>

lemma views_hide_the_signed_blob:
  fixes r :: intent_row
  assumes "r' = r\<lparr>idempotency_key := k, request_hash := h, signed_tx_blob := b, final_tx_json := t,
      final_meta := m, submit_response := s\<rparr>"
    and "\<And>name. name \<in> {''accepted'', ''queued'', ''broadcast''} \<Longrightarrow>
      submit_flag s name = submit_flag (submit_response r) name"
  shows "present_created r' = present_created r \<and> present_prepared r' = present_prepared r \<and>
    present_signed r' = present_signed r \<and> present_submitted r' = present_submitted r \<and>
    present_detail r' = present_detail r"
  using assms(2)
  by (simp add: assms(1) present_created_def present_prepared_def present_signed_def
      present_submitted_def present_detail_def detail_object_def split: option.split)

lemma views_hide_the_signed_blob_witness:
  "present_submitted (demo_sent\<lparr>idempotency_key := ''k2'', request_hash := ''h2'', signed_tx_blob := Some ''00'',
       final_tx_json := None, final_meta := None,
       submit_response := Some (JObj [(''tx_blob'', JStr ''00'')])\<rparr>) =
     present_submitted (demo_sent\<lparr>submit_response := None\<rparr>)"
  using views_hide_the_signed_blob[where r = "demo_sent\<lparr>submit_response := None\<rparr>" and k = "''k2''" and h = "''h2''"
      and b = "Some ''00''" and t = None and m = None and s = "Some (JObj [(''tx_blob'', JStr ''00'')])", OF refl]
  by (auto simp: submit_flag_def as_record_def or_null_def optional_bool_def field_def)

end
