(* ===== verification/Validation.thy ===== *)
theory Validation
  imports Intents Config
begin

text \<open>
  What a request body must look like: the pattern and decorator checks of
  \<open>src/intents/dto/\<close> and the pipe that chooses the class, validates and cross-checks it
  (\<open>create-intent.pipe.ts\<close>). \<open>class-transformer\<close> and \<open>class-validator\<close> are the parameter
  \<open>validated\<close>: the errors they report or the instance they make; whether a text is an XRPL address is the
  parameter \<open>valid_address\<close>.
\<close>

section \<open>Patterns\<close>

definition digit_run :: "string \<Rightarrow> bool" where
  "digit_run s \<longleftrightarrow> s \<noteq> [] \<and> all_in ''0123456789'' s"

definition xrp_drops_pattern :: "string \<Rightarrow> bool" where
  "xrp_drops_pattern s \<longleftrightarrow>
     digit_run s \<and> hd s \<in> set ''123456789'' \<and> length s \<le> 30"

definition currency_code_pattern :: "string \<Rightarrow> bool" where
  "currency_code_pattern s \<longleftrightarrow>
     length s = 3 \<and> all_in ''ABCDEFGHIJKLMNOPQRSTUVWXYZ0123456789'' s"

definition decimal_value_pattern :: "string \<Rightarrow> bool" where
  "decimal_value_pattern s \<longleftrightarrow>
     (let whole = takeWhile (\<lambda>c. c \<noteq> CHR ''.'') s; rest = dropWhile (\<lambda>c. c \<noteq> CHR ''.'') s
      in canonical_digits whole \<and> (rest = [] \<or> digit_run (tl rest)))"

definition decimal_value_max_length :: nat where
  "decimal_value_max_length = 64"

definition idempotency_key_pattern :: "string \<Rightarrow> bool" where
  "idempotency_key_pattern s \<longleftrightarrow>
     s \<noteq> [] \<and> length s \<le> 128 \<and>
     all_in ''ABCDEFGHIJKLMNOPQRSTUVWXYZabcdefghijklmnopqrstuvwxyz0123456789._:-'' s"

definition is_classic_address :: "(string \<Rightarrow> bool) \<Rightarrow> json option \<Rightarrow> bool" where
  "is_classic_address valid_address v = (case v of Some (JStr s) \<Rightarrow> valid_address s | _ \<Rightarrow> False)"

definition is_issued_currency_code :: "json option \<Rightarrow> bool" where
  "is_issued_currency_code v =
     (case v of Some (JStr s) \<Rightarrow> currency_code_pattern s \<and> s \<noteq> ''XRP'' | _ \<Rightarrow> False)"

definition is_decimal_string :: "bool \<Rightarrow> json option \<Rightarrow> bool" where
  "is_decimal_string positive v =
     (case v of
        Some (JStr s) \<Rightarrow>
          length s \<le> decimal_value_max_length \<and> decimal_value_pattern s \<and>
          (positive \<longrightarrow> (\<exists>c \<in> set s. c \<in> set ''123456789''))
      | _ \<Rightarrow> False)"

section \<open>The decorated classes\<close>

fun amount_decorators :: "(string \<Rightarrow> bool) \<Rightarrow> amount_dto \<Rightarrow> bool" where
  "amount_decorators va (XrpAmountDto d) = xrp_drops_pattern d"
| "amount_decorators va (IssuedAmountDto c i v) =
     (is_issued_currency_code (Some (JStr c)) \<and> is_classic_address va (Some (JStr i)) \<and>
      is_decimal_string True (Some (JStr v)))"

fun tag_decorators :: "tag_field \<Rightarrow> bool" where
  "tag_decorators (TagNumber n) = (n \<le> uint32_max)"
| "tag_decorators t = True"

fun dto_decorators :: "(string \<Rightarrow> bool) \<Rightarrow> create_intent_dto \<Rightarrow> bool" where
  "dto_decorators va (PaymentIntentDto a d am tag) =
     (is_classic_address va (Some (JStr a)) \<and> is_classic_address va (Some (JStr d)) \<and>
      amount_decorators va am \<and> tag_decorators tag)"
| "dto_decorators va (TrustSetIntentDto a c i v) =
     (is_classic_address va (Some (JStr a)) \<and> is_issued_currency_code (Some (JStr c)) \<and>
      is_classic_address va (Some (JStr i)) \<and> is_decimal_string False (Some (JStr v)))"

fun dto_type :: "create_intent_dto \<Rightarrow> intent_type" where
  "dto_type (PaymentIntentDto a d am tag) = PAYMENT"
| "dto_type (TrustSetIntentDto a c i v) = TRUST_SET"

section \<open>The pipe\<close>

text \<open>\<open>ValidationError\<close>: the property, its failed constraints, the errors of what it holds.\<close>

datatype validation_error = ValidationError (property: string) (constraints: "string list") (children: "validation_error list")

definition prefixed :: "string \<Rightarrow> string \<Rightarrow> string" where
  "prefixed prefix s = (if prefix = [] then s else prefix @ ''.'' @ s)"

fun flatten_error :: "string \<Rightarrow> validation_error \<Rightarrow> string list" where
  "flatten_error prefix (ValidationError p cs es) =
     map (prefixed prefix) cs @ concat (map (flatten_error (prefixed prefix p)) es)"

definition flatten :: "string \<Rightarrow> validation_error list \<Rightarrow> string list" where
  "flatten prefix errors = concat (map (flatten_error prefix) errors)"

type_synonym validator = "intent_type \<Rightarrow> object \<Rightarrow> validation_error list + create_intent_dto"

definition invalid_body :: "string \<Rightarrow> exn + 'a" where
  "invalid_body m = Inl (api_error VALIDATION_ERROR m)"

definition requested_type :: "object \<Rightarrow> intent_type option" where
  "requested_type body =
     (if field body ''type'' = Some (JStr ''PAYMENT'') then Some PAYMENT
      else if field body ''type'' = Some (JStr ''TRUST_SET'') then Some TRUST_SET else None)"

fun cross_checked :: "create_intent_dto \<Rightarrow> exn + create_intent_dto" where
  "cross_checked (PaymentIntentDto a d am tag) =
     (if a = d then invalid_body ''destination must differ from account''
      else Inr (PaymentIntentDto a d am tag))"
| "cross_checked (TrustSetIntentDto a c i v) =
     (if a = i then invalid_body ''limitAmount.issuer must differ from account''
      else Inr (TrustSetIntentDto a c i v))"

definition transform :: "validator \<Rightarrow> json \<Rightarrow> exn + create_intent_dto" where
  "transform validated body =
     (case body of
        JObj ob \<Rightarrow>
          (case requested_type ob of
             None \<Rightarrow> invalid_body ''type must be PAYMENT or TRUST_SET''
           | Some ty \<Rightarrow>
               (case validated ty ob of
                  Inl errors \<Rightarrow> invalid_body (join ''; '' (flatten [] errors))
                | Inr dto \<Rightarrow> cross_checked dto))
      | _ \<Rightarrow> invalid_body ''request body must be a JSON object'')"

section \<open>The other inputs\<close>

definition intent_list_max_limit :: nat where
  "intent_list_max_limit = 100"

text \<open>The decorators of \<open>ListIntentsQuery\<close> and \<open>SignatureDto\<close> on what the types leave open.\<close>

definition list_query_decorators :: "(string \<Rightarrow> bool) \<Rightarrow> list_query \<Rightarrow> bool" where
  "list_query_decorators va q \<longleftrightarrow>
     (case query_account q of None \<Rightarrow> True | Some a \<Rightarrow> is_classic_address va (Some (JStr a))) \<and>
     (case query_limit q of None \<Rightarrow> True | Some n \<Rightarrow> 1 \<le> n \<and> n \<le> intent_list_max_limit)"

definition signature_decorators :: "string \<Rightarrow> bool" where
  "signature_decorators tx_blob \<longleftrightarrow> 1 \<le> length tx_blob"

text \<open>
  The exception factory of the global pipe (\<open>src/app.setup.ts\<close>), for queries and the signature body.
\<close>

definition request_message :: "validation_error list \<Rightarrow> string" where
  "request_message errors =
     (let message = join ''; '' (concat (map constraints errors))
      in if message = [] then ''request is not valid'' else message)"

section \<open>Numerals\<close>

lemma digit_char_value: "c \<in> set ''0123456789'' \<Longrightarrow> digit_value c < 10 \<and> char_of (48 + digit_value c) = c"
proof -
  have "list_all (\<lambda>c. digit_value c < 10 \<and> char_of (48 + digit_value c) = c) ''0123456789''" by code_simp
  then show "c \<in> set ''0123456789'' \<Longrightarrow> digit_value c < 10 \<and> char_of (48 + digit_value c) = c"
    by (simp only: list_all_iff)
qed

lemma nat_of_digits_snoc: "nat_of_digits (s @ [c]) = 10 * nat_of_digits s + digit_value c"
  by (simp add: nat_of_digits_def nat_of_digits_acc_append)

lemma nat_of_digits_bound: "all_in ''0123456789'' s \<Longrightarrow> nat_of_digits s < 10 ^ length s"
proof (induction s rule: rev_induct)
  case Nil
  then show ?case by (simp add: nat_of_digits_def)
next
  case (snoc c s)
  then have "nat_of_digits s < 10 ^ length s" "digit_value c < 10"
    using digit_char_value[of c] by (simp_all add: all_in_def)
  then show ?case by (simp add: nat_of_digits_snoc)
qed

text \<open>A numeral without leading zero is the one its value is written as.\<close>

lemma decimal_nat_of_digits:
  assumes "all_in ''0123456789'' s" and "s \<noteq> []" and "hd s \<noteq> CHR ''0''"
  shows "decimal (nat_of_digits s) = s \<and> 0 < nat_of_digits s"
  using assms
proof (induction s rule: rev_induct)
  case (snoc c s)
  have c: "digit_value c < 10" "char_of (48 + digit_value c) = c"
    using snoc.prems(1) digit_char_value[of c] by (simp_all add: all_in_def)
  show ?case
  proof (cases "s = []")
    case True
    have "digit_value c \<noteq> 0"
    proof
      assume "digit_value c = 0"
      then have "c = char_of (48 :: nat)" using c(2) by simp
      moreover have "char_of (48 :: nat) = CHR ''0''" by code_simp
      ultimately show False using snoc.prems(3) True by simp
    qed
    with True c show ?thesis
      by (subst decimal.simps) (simp add: nat_of_digits_def)
  next
    case False
    then have "decimal (nat_of_digits s) = s \<and> 0 < nat_of_digits s"
      using snoc.IH snoc.prems by (simp add: all_in_def)
    then show ?thesis
      using c by (subst decimal.simps) (simp add: nat_of_digits_snoc)
  qed
qed simp

section \<open>Properties\<close>

text \<open>
  The documented behaviour of the validation library that the pipe relies on: an instance is made
  only of the class that was asked for, and only if all its decorators hold.
\<close>

definition validator_sound :: "(string \<Rightarrow> bool) \<Rightarrow> validator \<Rightarrow> bool" where
  "validator_sound va validated \<longleftrightarrow>
     (\<forall>ty ob dto. validated ty ob = Inr dto \<longrightarrow> dto_type dto = ty \<and> dto_decorators va dto)"

fun well_formed_amount :: "(string \<Rightarrow> bool) \<Rightarrow> amount \<Rightarrow> bool" where
  "well_formed_amount va (XrpAmount d) =
     (0 < nat_of_digits d \<and> nat_of_digits d < 10 ^ 30 \<and> decimal (nat_of_digits d) = d)"
| "well_formed_amount va (IssuedAmount c i v) =
     (length c = 3 \<and> c \<noteq> ''XRP'' \<and> va i \<and> length v \<le> 64 \<and> decimal_value_pattern v \<and>
      (\<exists>x \<in> set v. x \<in> set ''123456789''))"

fun well_formed :: "(string \<Rightarrow> bool) \<Rightarrow> payload \<Rightarrow> bool" where
  "well_formed va (PaymentIntent a d am tag) =
     (va a \<and> va d \<and> a \<noteq> d \<and> well_formed_amount va am \<and> (\<forall>n. tag = Some n \<longrightarrow> n < 2 ^ 32))"
| "well_formed va (TrustSetIntent a c i v) =
     (va a \<and> va i \<and> a \<noteq> i \<and> length c = 3 \<and> c \<noteq> ''XRP'' \<and> length v \<le> 64 \<and> decimal_value_pattern v)"

lemma drops_well_formed:
  assumes "xrp_drops_pattern d" shows "well_formed_amount va (XrpAmount d)"
proof -
  have d: "all_in ''0123456789'' d" "d \<noteq> []" "hd d \<in> set ''123456789''" "length d \<le> 30"
    using assms by (auto simp: xrp_drops_pattern_def digit_run_def)
  then have "hd d \<noteq> CHR ''0''" by auto
  from decimal_nat_of_digits[OF d(1,2) this] have "decimal (nat_of_digits d) = d" "0 < nat_of_digits d" by auto
  moreover have "nat_of_digits d < 10 ^ length d" by (rule nat_of_digits_bound[OF d(1)])
  then have "nat_of_digits d < 10 ^ 30"
    using d(4) by (meson less_le_trans one_le_numeral power_increasing)
  ultimately show ?thesis by simp
qed

lemma transform_well_formed:
  assumes "validator_sound va validated" and "transform validated body = Inr dto"
  shows "well_formed va (to_canonical_intent dto)"
proof -
  obtain ob ty d where d: "validated ty ob = Inr d" "cross_checked d = Inr dto"
    using assms(2) by (auto simp: transform_def invalid_body_def split: json.splits option.splits sum.splits)
  then have dec: "dto_decorators va d" using assms(1) by (auto simp: validator_sound_def)
  show ?thesis
  proof (cases d)
    case (PaymentIntentDto a e am tag)
    then have "a \<noteq> e" "dto = d" using d(2) by (auto simp: invalid_body_def split: if_splits)
    moreover have "well_formed_amount va (canonical_amount am)"
      using dec PaymentIntentDto drops_well_formed
      by (cases am) (auto simp: is_classic_address_def is_issued_currency_code_def currency_code_pattern_def
          is_decimal_string_def decimal_value_max_length_def)
    ultimately show ?thesis
      using dec PaymentIntentDto by (cases tag) (auto simp: is_classic_address_def uint32_max_def)
  next
    case (TrustSetIntentDto a c i v)
    then have "a \<noteq> i" "dto = d" using d(2) by (auto simp: invalid_body_def split: if_splits)
    then show ?thesis
      using dec TrustSetIntentDto
      by (auto simp: is_classic_address_def is_issued_currency_code_def currency_code_pattern_def
          is_decimal_string_def decimal_value_max_length_def)
  qed
qed


text \<open>
  The pipe refuses with the one validation error, whatever the body is and whatever the library
  reports, and an accepted payment or trust line is of the type the body names.
\<close>

lemma pipe_outcomes:
  assumes "validator_sound va validated"
  shows "(\<exists>m. transform validated body = Inl (api_error VALIDATION_ERROR m)) \<or>
    (\<exists>ob dto. body = JObj ob \<and> transform validated body = Inr dto \<and>
       field ob ''type'' = Some (JStr (case dto_type dto of PAYMENT \<Rightarrow> ''PAYMENT'' | TRUST_SET \<Rightarrow> ''TRUST_SET'')))"
proof (cases "transform validated body")
  case (Inl e)
  then show ?thesis
    by (auto simp: transform_def invalid_body_def split: json.splits option.splits sum.splits
        elim!: cross_checked.elims split: if_splits)
next
  case (Inr dto)
  then obtain ob ty where ob: "body = JObj ob" "requested_type ob = Some ty" "validated ty ob = Inr dto"
    by (auto simp: transform_def invalid_body_def split: json.splits option.splits sum.splits
        elim!: cross_checked.elims split: if_splits)
  then have "dto_type dto = ty" using assms by (auto simp: validator_sound_def)
  with ob Inr show ?thesis by (auto simp: requested_type_def split: if_splits)
qed

text \<open>A validator that knows one request.\<close>

definition demo_validator :: validator where
  "demo_validator ty ob =
     (if ty = PAYMENT then Inr (PaymentIntentDto ''rAlice'' ''rBob'' (XrpAmountDto ''25'') (TagNumber 7))
      else Inl [ValidationError ''limitAmount'' [] [ValidationError ''currency'' [''currency is bad''] []]])"

lemma demo_validator_sound: "validator_sound (\<lambda>a. True) demo_validator"
  by (auto simp: validator_sound_def demo_validator_def is_classic_address_def xrp_drops_pattern_def
      digit_run_def all_in_def uint32_max_def split: if_splits)


end
