(* ===== verification/Http.thy ===== *)
theory Http
  imports MethodContracts Presenter Validation
begin

text \<open>
  The HTTP interface of the intents (\<open>src/intents/intents.controller.ts\<close>) with the exception filter
  around it: one definition per route, from the parsed request to the status line and the body.
  Routing, header parsing and the UUID pattern of the framework are parameters or arguments.
\<close>

section \<open>Routes\<close>

type_synonym route = "(nat \<times> json) svc"

definition data :: "json \<Rightarrow> json" where
  "data v = JObj [(''data'', v)]"

definition with_uuid :: "(string \<Rightarrow> bool) \<Rightarrow> string \<Rightarrow> (string \<Rightarrow> route) \<Rightarrow> route" where
  "with_uuid valid_uuid i action =
     (if valid_uuid i then action i else Throw (api_error VALIDATION_ERROR ''id must be a UUID''))"

definition invalid_key :: exn where
  "invalid_key = api_error INVALID_IDEMPOTENCY_KEY
     ''Idempotency-Key header is required: 1-128 characters of A-Z a-z 0-9 . _ : -''"

definition create_route ::
  "codec \<Rightarrow> nat \<Rightarrow> validator \<Rightarrow> string \<Rightarrow> string option \<Rightarrow> json \<Rightarrow> route" where
  "create_route X N validated uuid key body =
     await (lift_result (transform validated body)) (\<lambda>dto.
       case key of
         None \<Rightarrow> Throw invalid_key
       | Some k \<Rightarrow>
           if \<not> idempotency_key_pattern k then Throw invalid_key
           else await (create X N uuid k dto) (\<lambda>(created, r).
                  Return (if created then 201 else 200, data (present_created r))))"

fun present_all :: "intent_row list \<Rightarrow> exn + json list" where
  "present_all [] = Inr []"
| "present_all (r # rs) = rbind (present_detail r) (\<lambda>v. rbind (present_all rs) (\<lambda>vs. Inr (v # vs)))"

definition list_route :: "list_query \<Rightarrow> route" where
  "list_route q =
     await (list_page q) (\<lambda>(rows, following).
     await (lift_result (present_all rows)) (\<lambda>views.
       Return (200, data (JObj [(''intents'', JArr views), (''nextCursor'', or_null JStr following)]))))"

definition reply_detail :: "intent_row \<Rightarrow> route" where
  "reply_detail r = await (lift_result (present_detail r)) (\<lambda>v. Return (200, data v))"

definition get_route :: "(string \<Rightarrow> bool) \<Rightarrow> string \<Rightarrow> route" where
  "get_route valid_uuid i = with_uuid valid_uuid i (\<lambda>i. await (get_intent i) reply_detail)"

definition transitions_route :: "(string \<Rightarrow> bool) \<Rightarrow> string \<Rightarrow> route" where
  "transitions_route valid_uuid i =
     with_uuid valid_uuid i (\<lambda>i. await (transitions_of i) (\<lambda>ts.
       Return (200, data (JObj [(''transitions'', JArr (map present_transition ts))]))))"

definition prepare_route :: "codec \<Rightarrow> nat \<Rightarrow> (string \<Rightarrow> bool) \<Rightarrow> string \<Rightarrow> route" where
  "prepare_route X N valid_uuid i =
     with_uuid valid_uuid i (\<lambda>i. await (prepare X N i) (\<lambda>r.
       if status r = AWAITING_SIGNATURE then Return (200, data (present_prepared r)) else reply_detail r))"

definition signature_route :: "codec \<Rightarrow> (string \<Rightarrow> bool) \<Rightarrow> string \<Rightarrow> string \<Rightarrow> route" where
  "signature_route X valid_uuid i tx_blob =
     with_uuid valid_uuid i (\<lambda>i. await (attach_signature X i tx_blob) (\<lambda>r.
       if status r = SIGNED then Return (200, data (present_signed r)) else reply_detail r))"

definition submit_route :: "(string \<Rightarrow> bool) \<Rightarrow> string \<Rightarrow> route" where
  "submit_route valid_uuid i =
     with_uuid valid_uuid i (\<lambda>i. await (submit i) (\<lambda>r.
       if status r = VALIDATED then reply_detail r else Return (200, data (present_submitted r))))"

section \<open>Replies\<close>

fun error_name :: "error_code \<Rightarrow> string" where
  "error_name VALIDATION_ERROR = ''VALIDATION_ERROR''"
| "error_name INVALID_IDEMPOTENCY_KEY = ''INVALID_IDEMPOTENCY_KEY''"
| "error_name INTENT_NOT_FOUND = ''INTENT_NOT_FOUND''"
| "error_name IDEMPOTENCY_KEY_REUSED = ''IDEMPOTENCY_KEY_REUSED''"
| "error_name INVALID_INTENT_STATE = ''INVALID_INTENT_STATE''"
| "error_name INTENT_EXPIRED = ''INTENT_EXPIRED''"
| "error_name ACCOUNT_NOT_QUIESCENT = ''ACCOUNT_NOT_QUIESCENT''"
| "error_name ACCOUNT_BUSY = ''ACCOUNT_BUSY''"
| "error_name SIGNATURE_ALREADY_ATTACHED = ''SIGNATURE_ALREADY_ATTACHED''"
| "error_name ACCOUNT_NOT_FOUND = ''ACCOUNT_NOT_FOUND''"
| "error_name TRANSACTION_BUILD_INVALID = ''TRANSACTION_BUILD_INVALID''"
| "error_name SIMULATION_REJECTED = ''SIMULATION_REJECTED''"
| "error_name INVALID_SIGNED_TRANSACTION = ''INVALID_SIGNED_TRANSACTION''"
| "error_name SIGNED_TRANSACTION_MISMATCH = ''SIGNED_TRANSACTION_MISMATCH''"
| "error_name INVALID_SIGNATURE = ''INVALID_SIGNATURE''"
| "error_name SIGNER_NOT_AUTHORIZED = ''SIGNER_NOT_AUTHORIZED''"
| "error_name FEE_TOO_HIGH = ''FEE_TOO_HIGH''"
| "error_name XRPL_UNAVAILABLE = ''XRPL_UNAVAILABLE''"
| "error_name SERVICE_NOT_READY = ''SERVICE_NOT_READY''"
| "error_name INTERNAL_ERROR = ''INTERNAL_ERROR''"

definition error_json :: "error_reply \<Rightarrow> json" where
  "error_json reply =
     JObj [(''error'', JObj ([(''code'', JStr (error_name (body_code (reply_body reply)))), (''message'', JStr (body_message (reply_body reply))),
        (''requestId'', JStr (reply_request_id reply))]
        @ (case body_details (reply_body reply) of None \<Rightarrow> [] | Some d \<Rightarrow> [(''details'', JObj d)])))]"

definition respond :: "string \<Rightarrow> route \<Rightarrow> route" where
  "respond request_id route =
     try_catch route (\<lambda>e. Return (reply_status (filter_catch e request_id), error_json (filter_catch e request_id)))"

text \<open>The requests of the interface, after parsing.\<close>

datatype http_request =
    PostIntent string "string option" json
  | ListIntents list_query
  | GetIntent string
  | GetTransitions string
  | PostPrepare string
  | PostSignature string string
  | PostSubmit string

fun route_of :: "codec \<Rightarrow> nat \<Rightarrow> validator \<Rightarrow> (string \<Rightarrow> bool) \<Rightarrow> http_request \<Rightarrow> route" where
  "route_of X N v u (PostIntent uuid key body) = create_route X N v uuid key body"
| "route_of X N v u (ListIntents q) = list_route q"
| "route_of X N v u (GetIntent i) = get_route u i"
| "route_of X N v u (GetTransitions i) = transitions_route u i"
| "route_of X N v u (PostPrepare i) = prepare_route X N u i"
| "route_of X N v u (PostSignature i b) = signature_route X u i b"
| "route_of X N v u (PostSubmit i) = submit_route u i"

section \<open>Every route replies\<close>

definition reply_codes :: "nat set" where
  "reply_codes = {200, 201, 400, 404, 409, 422, 500, 503}"

lemma http_status_code: "http_status c \<in> reply_codes"
  by (cases c) (simp_all add: reply_codes_def)

text \<open>What may follow a method: an answer with a known status, or a thrown error, at once.\<close>

definition at_once :: "route \<Rightarrow> bool" where
  "at_once p \<longleftrightarrow> (\<exists>e. p = Throw e) \<or> (\<exists>code body. p = Return (code, body) \<and> code \<in> {200, 201})"

lemma at_once_simps [simp]:
  "at_once (Throw e)" "at_once (Return (200, v))" "at_once (Return (201, v))"
  by (auto simp: at_once_def)

lemma at_once_detail [simp]: "at_once (reply_detail r)"
  by (cases "present_detail r") (simp_all add: reply_detail_def)

lemma respond_at_once:
  assumes "at_once p"
  shows "meets X N (respond rid p) (\<lambda>(code, body) tr' w'. code \<in> reply_codes) (\<lambda>e tr' w'. False) tr w"
  using assms http_status_code by (auto simp: at_once_def respond_def reply_codes_def filter_catch_def Let_def)

lemma respond_await:
  assumes p: "meets X N p (\<lambda>_ _ _. True) (\<lambda>_ _ _. True) tr w" and k: "\<And>x. at_once (k x)"
  shows "meets X N (respond rid (await p k)) (\<lambda>(code, body) tr' w'. code \<in> reply_codes)
    (\<lambda>e tr' w'. False) tr w"
  unfolding respond_def wp_try_catch wp_await
proof (rule wp_mono[OF p], goal_cases)
  case (1 x tr' w')
  show ?case using respond_at_once[OF k[of x]] unfolding respond_def wp_try_catch .
next
  case (2 e tr' w')
  then show ?case using http_status_code by (simp add: filter_catch_def Let_def)
qed

lemma respond_with_uuid:
  assumes "\<And>i. meets X N (respond rid (action i)) Q E tr w"
    and "\<And>e. meets X N (respond rid (Throw e)) Q E tr w"
  shows "meets X N (respond rid (with_uuid u i action)) Q E tr w"
  using assms by (simp add: with_uuid_def)

lemma respond_throw:
  "meets X N (respond rid (Throw e)) (\<lambda>(code, body) tr' w'. code \<in> reply_codes) (\<lambda>e tr' w'. False) tr w"
  by (rule respond_at_once) simp

lemma respond_create_route:
  "meets X N (respond rid (create_route X N v uuid key body)) (\<lambda>(code, body) tr' w'. code \<in> reply_codes)
     (\<lambda>e tr' w'. False) tr w"
proof (cases "transform v body")
  case (Inl e)
  then show ?thesis using respond_throw by (simp add: create_route_def)
next
  case (Inr dto)
  show ?thesis
  proof (cases "\<exists>k. key = Some k \<and> idempotency_key_pattern k")
    case True
    then obtain k where k: "key = Some k" "idempotency_key_pattern k" by blast
    have "meets X N (respond rid (await (create X N uuid k dto) (\<lambda>(created, r).
        Return (if created then 201 else 200, data (present_created r)))))
        (\<lambda>(code, body) tr' w'. code \<in> reply_codes) (\<lambda>e tr' w'. False) tr w"
      by (rule respond_await, rule wp_create) auto
    then show ?thesis using k by (simp add: create_route_def Inr)
  next
    case False
    then show ?thesis using respond_throw by (auto simp: create_route_def Inr split: option.split)
  qed
qed

lemma respond_list_route:
  "meets X N (respond rid (list_route q)) (\<lambda>(code, body) tr' w'. code \<in> reply_codes)
     (\<lambda>e tr' w'. False) tr w"
  unfolding list_route_def
proof (rule respond_await, rule wp_list_page)
  show "at_once (case x of (rows, following) \<Rightarrow> await (lift_result (present_all rows)) (\<lambda>views.
      Return (200, data (JObj [(''intents'', JArr views), (''nextCursor'', or_null JStr following)]))))" for x
    by (cases x; cases "present_all (fst x)") auto
qed simp_all

lemma respond_method:
  assumes "\<And>i. meets X N (action i) (\<lambda>_ _ _. True) (\<lambda>_ _ _. True) tr w" and "\<And>x. at_once (k x)"
  shows "meets X N (respond rid (with_uuid u i (\<lambda>i. await (action i) k)))
    (\<lambda>(code, body) tr' w'. code \<in> reply_codes) (\<lambda>e tr' w'. False) tr w"
  by (rule respond_with_uuid[OF respond_await respond_throw]) (rule assms)+

text \<open>What the three writes end with before recovery.\<close>

definition not_ready :: exn where
  "not_ready = api_error SERVICE_NOT_READY ''Startup recovery has not completed; retry shortly.''"

lemma run_not_ready: "\<not> recovered w \<Longrightarrow> run env assert_recovered tr w = (Inl not_ready, tr, w)"
  by (simp add: assert_recovered_def run_simps not_ready_def)

lemma prepare_not_ready:
  assumes "\<not> recovered w" and "find_row i w = Some r" and "status r \<in> {CREATED, PREPARED}"
  shows "run env (prepare X N i) tr w = (Inl not_ready, tr, w)"
proof -
  have "run env (preparation_step X N r) tr w = (Inl not_ready, tr, w)"
    using assms by (auto simp: preparation_step_def prepare_created_def simulate_prepared_def run_await
        run_not_ready)
  then show ?thesis
    by (simp add: prepare_def max_preparation_steps_def run_await run_load[OF assms(2)] numeral_eq_Suc)
qed

lemma attach_signature_not_ready:
  assumes "\<not> recovered w" and "find_row i w = Some r" and "status r = AWAITING_SIGNATURE"
  shows "run env (attach_signature X i b) tr w = (Inl not_ready, tr, w)"
  using assms
  by (simp add: attach_signature_def settled_answer_def run_await run_load run_lift_result run_not_ready)

lemma submit_not_ready:
  assumes "\<not> recovered w" and "find_row i w = Some r" and "status r \<in> {SIGNED, SUBMITTED}"
  shows "run env (submit i) tr w = (Inl not_ready, tr, w)"
proof -
  have "run env (submit_signed r) tr w = (Inl not_ready, tr, w)"
    using assms(1) by (simp add: submit_signed_def run_await run_not_ready)
  then show ?thesis
    using assms by (auto simp: submit_def max_submission_steps_def run_await run_load numeral_eq_Suc)
qed

section \<open>Properties\<close>


text \<open>
  Internal failures reveal nothing: the reply to an error that is no API error, no client error of
  the framework and no transport error with a 4xx status is the same whatever the error is.
\<close>

lemma unexpected_errors_reveal_nothing:
  assumes "\<And>c m d. e \<noteq> ApiError c m d" and "\<And>st rm own. e = HttpError st rm own \<Longrightarrow> 500 \<le> st"
    and "\<not> is_client_transport_error e"
  shows "error_json (filter_catch e rid) = error_json (filter_catch ConnectionLost rid) \<and>
    reply_status (filter_catch e rid) = 500"
proof -
  have "describe e = internal_error_body"
    using assms by (cases e) (auto simp: describe_def)
  then show ?thesis
    by (simp add: filter_catch_def Let_def describe_def internal_error_body_def is_client_transport_error_def)
qed

lemma unexpected_errors_reveal_nothing_witness:
  "error_json (filter_catch (DrizzleError (PgError ''23505'' ''secret'')) ''r1'') =
     error_json (filter_catch ConnectionLost ''r1'')"
  using unexpected_errors_reveal_nothing[of "DrizzleError (PgError ''23505'' ''secret'')" "''r1''"]
  by (simp add: is_client_transport_error_def)



end
