(* ===== verification/Duplicates.thy ===== *)
theory Duplicates
  imports Delivery Http
begin

text \<open>
  Two intents with one transaction. Nothing forbids two intents with the same payload, and two of
  them prepared for the same Sequence, fee and ledger have the same transaction, so one signed blob
  verifies against both. The unique index on the transaction hash is what keeps the second one from
  being signed, and its violation is not translated.
\<close>

section \<open>The violated index\<close>

definition hash_index :: string where
  "hash_index = ''transaction_intents_transaction_hash_key''"

definition duplicate_hash :: exn where
  "duplicate_hash = DrizzleError (PgError ''23505'' hash_index)"

lemma constraint_error_duplicate:
  assumes checks: "row_checks r"
    and others: "\<And>p. p \<in> set ps \<Longrightarrow> intent_id p \<noteq> intent_id r \<and> idempotency_key p \<noteq> idempotency_key r \<and>
      \<not> same_sequence_owner p r"
    and dup: "\<exists>p \<in> set ps. same_transaction_hash p r"
  shows "constraint_error ps r = Some duplicate_hash"
proof -
  have "find (\<lambda>(n, ok). \<not> ok r) check_constraints = None"
    using checks by (auto simp: find_None_iff row_checks_def list_all_iff)
  moreover have "find (\<lambda>(n, c). list_ex (\<lambda>p. c p r) ps) unique_indexes = Some (hash_index, same_transaction_hash)"
    using others dup by (auto simp: unique_indexes_def hash_index_def list_ex_iff)
  ultimately show ?thesis by (simp add: constraint_error_def duplicate_hash_def)
qed

text \<open>Signing a row with the hash of another is refused by the database and changes nothing.\<close>

lemma run_transition_duplicate:
  assumes u: "unopposed i r w" and s: "status r = AWAITING_SIGNATURE"
    and q: "q \<in> set (intents w)" "intent_id q \<noteq> i" "transaction_hash q = Some (vb_transaction_hash v)"
  shows "run env (transition i (signed_transition v t)) tr w = (Inl duplicate_hash, tr, w)"
proof -
  note f = unopposed_facts[OF u]
  let ?r' = "moved (request_patch (signed_transition v t)) SIGNED (clock w) r"
  have same: "intent_id ?r' = i" "idempotency_key ?r' = idempotency_key r"
      "source_account ?r' = source_account r" "transaction_hash ?r' = Some (vb_transaction_hash v)"
    using f(4) by (simp_all add: moved_def signed_transition_def)
  have "row_checks q" using f(1) q(1) by (simp add: table_ok_iff)
  then have "row_checks ?r'"
    using f(5) q(3) by (simp add: check_simps moved_def signed_transition_def optional_check_def)
  moreover have "idempotency_key p \<noteq> idempotency_key ?r' \<and> \<not> same_sequence_owner p ?r'"
    if p: "p \<in> set (intents w)" "intent_id p \<noteq> i" for p
  proof
    show "idempotency_key p \<noteq> idempotency_key ?r'"
      using table_ok_no_clash[OF f(1) p(1) f(3)] p(2) f(4) same(2) by (auto simp: row_clash_iff)
    show "\<not> same_sequence_owner p ?r'"
      using u p same(3) by (auto simp: unopposed_def same_sequence_owner_def is_sequence_active_def)
  qed
  moreover have "same_transaction_hash q ?r'" using q(3) same(4) by (simp add: same_transaction_hash_def)
  ultimately have "constraint_error (filter (\<lambda>p. intent_id p \<noteq> i) (intents w)) ?r' = Some duplicate_hash"
    using q(1,2) same(1) by (intro constraint_error_duplicate) auto
  then have "update_row ?r' w = Inl duplicate_hash" by (simp add: update_row_def same(1))
  then have "transition_tx i (signed_transition v t) w = (Inl duplicate_hash, w)"
    using f(2) s by (simp add: transition_tx_def moved_def signed_transition_def Let_def)
  then show ?thesis
    by (simp add: transition_def run_try_catch run_db duplicate_hash_def hash_index_def sequence_active_index_def)
qed

lemma run_attach_duplicate:
  assumes u: "unopposed i r w" and rec: "recovered w" and s: "status r = AWAITING_SIGNATURE"
    and c: "prepared_tx_blob r = Some pb" "sequence r = Some seq" "last_ledger_sequence r = Some high"
    and v: "verify X b pb = Inr v"
    and q: "q \<in> set (intents w)" "intent_id q \<noteq> i" "transaction_hash q = Some (vb_transaction_hash v)"
    and a: "authorizes X env (vb_signing_pub_key v) (source_account r) n seq" and n: "n \<le> high"
  shows "\<exists>tr'. run env (attach_signature X i b) tr w = (Inl duplicate_hash, tr', w)"
proof -
  obtain resp a where a: "env tr (Request (validated_account_request (source_account r))) = Response resp"
      "read_validated_account resp = Inr (Some a)" "ai_sequence a = seq" "ai_ledger_index a = Some n"
      "assert_authorized X (vb_signing_pub_key v) (source_account r) a = Inr ()"
    using a unfolding authorizes_def by blast
  show ?thesis
    using s n unopposed_facts(4)[OF u]
    by (simp add: run_transition_duplicate[OF u s q] attach_signature_def run_await run_load[OF unopposed_facts(2)[OF u]] run_lift_result
        settled_answer_def run_assert_recovered rec run_required c v validated_account_info_def
        run_connection_request a check_and_attach_def attach_verified_def run_current_time cong: lazy)
qed

section \<open>What the client sees\<close>

text \<open>
  C22. The database refuses a second intent with the transaction of another one, and the client is told
  only that the service failed: when an intent awaiting its signature is sent a blob that passes
  every check, but whose transaction hash another intent already holds, nothing changes and the
  reply is 500 INTERNAL_ERROR, the reply to an unexpected error.
\<close>

theorem duplicate_transaction_is_an_internal_error:
  assumes "execution X N w log" and "recovered w" and "find_row i w = Some r" and "u i"
    and "status r = AWAITING_SIGNATURE" and "prepared_tx_blob r = Some pb" and "sequence r = Some seq"
    and "last_ledger_sequence r = Some high" and "verify X b pb = Inr v"
    and "q \<in> set (intents w)" and "intent_id q \<noteq> i" and "transaction_hash q = Some (vb_transaction_hash v)"
    and "authorizes X env (vb_signing_pub_key v) (source_account r) n seq" and "n \<le> high"
  shows "\<exists>tr. run env (respond rid (route_of X N val u (PostSignature i b))) [] w =
    (Inr (500, error_json (filter_catch (PlainError m) rid)), tr, w)"
proof -
  have "is_sequence_active r" using assms(5) by (simp add: is_sequence_active_def status_groups)
  with active_unopposed[OF execution_world_ok[OF assms(1)] assms(3)] have "unopposed i r w" by blast
  from run_attach_duplicate[OF this assms(2,5-14)] obtain tr where
    "run env (attach_signature X i b) [] w = (Inl duplicate_hash, tr, w)" by blast
  then show ?thesis
    using assms(4)
    by (simp add: respond_def run_try_catch signature_route_def with_uuid_def run_await duplicate_hash_def
        filter_catch_def describe_def is_client_transport_error_def internal_error_body_def)
qed

section \<open>It happens\<close>

definition demo_second :: intent_row where
  "demo_second = new_row demo_codec 2 ''id2'' ''key2'' demo_payload 0"

lemma run_create_second:
  assumes "demo_state w demo_created True"
  shows "\<exists>w'. run env (create demo_codec 2 ''id2'' ''key2'' demo_payment) [] w = (Inr (True, demo_second), [], w') \<and>
    intents w' = [demo_created, demo_second] \<and> recovered w' \<and> clock w' = 0"
proof -
  have "to_canonical_intent demo_payment = demo_payload" by (simp add: demo_payment_def demo_payload_def)
  moreover have "constraint_error [demo_created] demo_second = None"
    using new_row_checks
    by (simp add: constraint_error_None_iff check_simps row_clash_iff demo_second_def demo_created_def new_row_def
        same_sequence_owner_def is_sequence_active_def status_groups same_transaction_hash_def)
  ultimately show ?thesis
    using assms
    by (simp add: demo_state_def create_def run_await run_current_time create_idempotent_def run_db
        create_idempotent_tx_def demo_created_def new_row_def demo_second_def insert_transition_def cong: lazy)
qed

definition demo_refusing :: demo_ledger where
  "demo_refusing = (at_ledger 102)\<lparr>demo_submit := ''temBAD_FEE''\<rparr>"

lemma demo_refuses:
  "takes_submission (demo_env demo_refusing) ''ABCDEF'' 102 (demo_submitted demo_refusing)
     [(''engine_result'', JStr ''temBAD_FEE'')]"
  "starts_with ''tem'' (sub_engine_result (demo_submitted demo_refusing))"
  by (simp_all add: takes_submission_def demo_env_def demo_answer_def request_defs read_validated_ledger_def
      read_submit_def parser_defs max_safe_integer_def demo_submitted_def demo_refusing_def starts_with_def)

text \<open>The first intent of the account is prepared, signed and rejected by the node.\<close>

lemma demo_first_rejected:
  "\<exists>w log r. execution demo_codec 2 w log \<and> recovered w \<and> clock w = 0 \<and>
     find_row ''id1'' w = Some r \<and> status r = REJECTED \<and> transaction_hash r = Some demo_hash \<and>
     find_row ''id2'' w = Some demo_second \<and>
     (\<forall>q \<in> set (intents w). intent_id q \<in> {''id1'', ''id2''})"
proof -
  obtain w0 log0 where e0: "execution demo_codec 2 w0 log0" and w0: "demo_state w0 demo_created True"
    using history_created unfolding history_def by blast
  obtain w where c: "run (demo_env (at_ledger 100)) (create demo_codec 2 ''id2'' ''key2'' demo_payment) [] w0 =
      (Inr (True, demo_second), [], w)" "intents w = [demo_created, demo_second]" "recovered w" "clock w = 0"
    using run_create_second[OF w0] by blast
  obtain log where e: "execution demo_codec 2 w log"
    using execution_run[OF e0 _ c(1), of "CallCreate ''id2'' ''key2'' demo_payment"] by auto
  note demo = demo_created_facts[OF w0]
  have rows: "intent_id demo_created = ''id1''" "intent_id demo_second = ''id2''" "status demo_second = CREATED"
    by (simp_all add: demo_created_def demo_second_def new_row_def)
  have u: "unopposed ''id1'' demo_created w"
    using execution_world_ok[OF e] c(2) rows
    by (simp add: unopposed_def world_ok_def store_ok_def find_row_def status_groups)
  let ?v = "\<lparr>vb_tx_blob = ''ABCDEF'', vb_transaction_hash = demo_hash, vb_signing_pub_key = ''ED01''\<rparr>"
  have up: "upper ''abcdef'' = ''ABCDEF''" by code_simp
  have count: "submission_attempt_count demo_created < 2147483647" by (simp add: demo_created_def new_row_def)
  have fresh: "transaction_hash q \<noteq> Some (vb_transaction_hash ?v)"
    if "q \<in> set (intents w)" "intent_id q \<noteq> ''id1''" for q
    using that c(2) by (auto simp: demo_created_def demo_second_def new_row_def)
  have auth: "authorizes demo_codec (demo_env (at_ledger 101)) (vb_signing_pub_key ?v) (source_account demo_created) 101 7"
    using demo_authorizes demo(6) by simp
  have takes: "takes_submission (demo_env demo_refusing) (upper ''abcdef'') 102 (demo_submitted demo_refusing)
      [(''engine_result'', JStr ''temBAD_FEE'')]"
    using demo_refuses(1) by (simp add: up)
  have n: "0 < (100::nat)" "101 \<le> last_ledger_sequence_for 100" "102 \<le> last_ledger_sequence_for 100"
      "hash64 (vb_transaction_hash ?v)"
    by (simp_all add: demo_last_ledger demo_hash_ok)
  obtain r1 tr1 w1 r2 tr2 w2 r3 tr3 w3 where
    1: "run (demo_env (at_ledger 100)) (prepare demo_codec 2 ''id1'') [] w = (Inr r1, tr1, w1)" and
    2: "run (demo_env (at_ledger 101)) (attach_signature demo_codec ''id1'' ''abcdef'') [] w1 = (Inr r2, tr2, w2)" and
    3: "run (demo_env demo_refusing) (submit ''id1'') [] w2 = (Inr r3, tr3, w3)"
      "delivered ''id1'' ''abcdef'' ?v (demo_submitted demo_refusing) r3 tr3 w w3"
    using run_delivery[OF u c(3) demo(3,4) count n(1) demo(7,8) demo_verify n(4) fresh auth n(2) takes n(3)]
    by blast
  obtain log3 where "execution demo_codec 2 w3 log3"
    using execution_run[OF e _ 1, of "CallPrepare ''id1''"] execution_run[OF _ _ 2, of demo_codec 2 _ "CallSignature ''id1'' ''abcdef''"]
      execution_run[OF _ _ 3(1), of demo_codec 2 _ "CallSubmit ''id1''"] by auto
  moreover have "intent_id q \<in> {''id1'', ''id2''}" if "q \<in> set (intents w3)" for q
  proof (cases "intent_id q = ''id1''")
    case False
    with 3(2) that have "q \<in> set (intents w)" unfolding delivered_def by (blast intro: reaches_others)
    then show ?thesis using c(2) rows by auto
  qed simp
  ultimately show ?thesis
    using 3(2) c rows demo_refuses(2)
    by (intro exI[of _ w3] exI[of _ log3] exI[of _ r3])
      (auto simp: delivered_def reaches_def unopposed_def find_row_def)
qed

text \<open>The second one is prepared for the same Sequence, which the rejected transaction did not use.\<close>

lemma demo_second_awaits:
  "\<exists>w log r q. execution demo_codec 2 w log \<and> recovered w \<and> find_row ''id2'' w = Some r \<and>
     status r = AWAITING_SIGNATURE \<and> prepared_tx_blob r = Some ''ABCD'' \<and> sequence r = Some 7 \<and>
     last_ledger_sequence r = Some 120 \<and> source_account r = ''rAlice'' \<and>
     q \<in> set (intents w) \<and> intent_id q = ''id1'' \<and> transaction_hash q = Some demo_hash"
proof -
  obtain w log q where e: "execution demo_codec 2 w log" and w: "recovered w" "clock w = 0"
      "find_row ''id1'' w = Some q" "status q = REJECTED" "transaction_hash q = Some demo_hash"
      "find_row ''id2'' w = Some demo_second" "\<And>q. q \<in> set (intents w) \<Longrightarrow> intent_id q \<in> {''id1'', ''id2''}"
    using demo_first_rejected by blast
  have second: "status demo_second = CREATED" "intent_payload demo_second = JObj (payload_object demo_payload)"
      "source_account demo_second = ''rAlice''"
    by (simp_all add: demo_second_def new_row_def demo_payload_def)
  have table: "table_ok (intents w)" using execution_world_ok[OF e] by (simp add: world_ok_def store_ok_def)
  have "status p = REJECTED" if "p \<in> set (intents w)" "intent_id p \<noteq> ''id2''" for p
    using w(3,4) w(7)[OF that(1)] that find_row_Some_iff[OF table, of "''id1''" p] by auto
  then have u: "unopposed ''id2'' demo_second w" using table w(6) by (auto simp: unopposed_def status_groups)
  obtain w0 log0 where w0: "demo_state w0 demo_created True"
    using history_created unfolding history_def by blast
  obtain r tr1 w1 where 1: "run (demo_env (at_ledger 100)) (prepare demo_codec 2 ''id2'') [] w = (Inr r, tr1, w1)"
      "reaches ''id2'' r w w1" "prepared_in demo_second r demo_transaction ''ABCD'' 100 7 ''10''"
    using run_prepare[OF u w(1) second(1,2) _ demo_created_facts(7,8)[OF w0]] by fastforce
  obtain log1 where "execution demo_codec 2 w1 log1"
    using execution_run[OF e _ 1(1), of "CallPrepare ''id2''"] by auto
  moreover have "find_row ''id1'' w1 = Some q" using 1(2) w(3) by (simp add: reaches_def)
  ultimately show ?thesis
    using 1(2,3) second(3) w(1,5) find_row_SomeD[of "''id1''" w1 q]
    by (intro exI[of _ w1] exI[of _ log1] exI[of _ r] exI[of _ q])
      (auto simp: reaches_def unopposed_def prepared_in_def same_identity_def demo_last_ledger)
qed

theorem duplicate_transaction_is_an_internal_error_witness:
  "\<exists>w log r q tr body. execution demo_codec 2 w log \<and> find_row ''id2'' w = Some r \<and>
     status r = AWAITING_SIGNATURE \<and> find_row ''id1'' w = Some q \<and>
     run (demo_env (at_ledger 101)) (respond ''r1'' (route_of demo_codec 2 demo_validator (\<lambda>i. True)
       (PostSignature ''id2'' ''abcdef''))) [] w = (Inr (500, body), tr, w)"
proof -
  obtain w log r q where e: "execution demo_codec 2 w log" and w: "recovered w" "find_row ''id2'' w = Some r"
      "status r = AWAITING_SIGNATURE" "prepared_tx_blob r = Some ''ABCD''" "sequence r = Some 7"
      "last_ledger_sequence r = Some 120" "source_account r = ''rAlice''"
      "q \<in> set (intents w)" "intent_id q = ''id1''" "transaction_hash q = Some demo_hash"
    using demo_second_awaits by blast
  let ?v = "\<lparr>vb_tx_blob = ''ABCDEF'', vb_transaction_hash = demo_hash, vb_signing_pub_key = ''ED01''\<rparr>"
  have "intent_id q \<noteq> ''id2''" "transaction_hash q = Some (vb_transaction_hash ?v)" using w by simp_all
  moreover have "authorizes demo_codec (demo_env (at_ledger 101)) (vb_signing_pub_key ?v) (source_account r) 101 7"
    using demo_authorizes w(7) by simp
  moreover have "find_row ''id1'' w = Some q"
    using world_ok_find[OF execution_world_ok[OF e]] w(8,9) by simp
  ultimately show ?thesis
    using duplicate_transaction_is_an_internal_error[OF e w(1,2) _ w(3-6) demo_verify w(8), of "\<lambda>i. True"] e w(2,3)
    by fastforce
qed

end
