(* ===== verification/Bounds.thy ===== *)
theory Bounds
  imports Scenario Budget
begin

text \<open>
  How much the handlers of the service may cost: each ends after a bounded number of steps, whatever
  the database, the ledger and the other handlers do in between, and sends a bounded number of
  submissions and switches.
\<close>

section \<open>The price of the operations\<close>

text \<open>A read of the ledger costs \<open>R\<close>, a submission \<open>S\<close>, a switch of the endpoint \<open>W\<close>.\<close>

fun price :: "nat \<Rightarrow> nat \<Rightarrow> nat \<Rightarrow> env_call \<Rightarrow> nat" where
  "price R S W (Request q) = (if command q = ''submit'' then S else R)"
| "price R S W (SwitchEndpoint reason) = W"

lemma affords_read:
  "command q \<noteq> ''submit'' \<Longrightarrow> R \<le> n \<Longrightarrow> (\<And>x m. n = m + R \<Longrightarrow> Q x m) \<Longrightarrow> (\<And>e m. n = m + R \<Longrightarrow> E e m) \<Longrightarrow>
     affords (price R S W) d (await (connection_request q) (\<lambda>resp. lift_result (f resp))) Q E n"
  by (auto simp: connection_request_def affords_lift_result split: sum.split env_answer.split)

lemma affords_validated_ledger_index [affords_rules]:
  "R \<le> n \<Longrightarrow> (\<And>x m. n = m + R \<Longrightarrow> Q x m) \<Longrightarrow> (\<And>e m. n = m + R \<Longrightarrow> E e m) \<Longrightarrow>
     affords (price R S W) d (validated_ledger_index) Q E n"
  unfolding validated_ledger_index_def by (rule affords_read) (simp_all add: validated_ledger_request_def)

lemma affords_validated_account_info [affords_rules]:
  "R \<le> n \<Longrightarrow> (\<And>x m. n = m + R \<Longrightarrow> Q x m) \<Longrightarrow> (\<And>e m. n = m + R \<Longrightarrow> E e m) \<Longrightarrow>
     affords (price R S W) d (validated_account_info a) Q E n"
  unfolding validated_account_info_def by (rule affords_read) (simp_all add: validated_account_request_def)

lemma affords_current_account_info [affords_rules]:
  "R \<le> n \<Longrightarrow> (\<And>x m. n = m + R \<Longrightarrow> Q x m) \<Longrightarrow> (\<And>e m. n = m + R \<Longrightarrow> E e m) \<Longrightarrow>
     affords (price R S W) d (current_account_info a) Q E n"
  unfolding current_account_info_def by (rule affords_read) (simp_all add: current_account_request_def)

lemma affords_open_ledger_fee [affords_rules]:
  "R \<le> n \<Longrightarrow> (\<And>x m. n = m + R \<Longrightarrow> Q x m) \<Longrightarrow> (\<And>e m. n = m + R \<Longrightarrow> E e m) \<Longrightarrow>
     affords (price R S W) d (open_ledger_fee) Q E n"
  unfolding open_ledger_fee_def by (rule affords_read) (simp_all add: fee_request_def)

lemma affords_ledger_simulate [affords_rules]:
  "R \<le> n \<Longrightarrow> (\<And>x m. n = m + R \<Longrightarrow> Q x m) \<Longrightarrow> (\<And>e m. n = m + R \<Longrightarrow> E e m) \<Longrightarrow>
     affords (price R S W) d (ledger_simulate t) Q E n"
  unfolding ledger_simulate_def by (rule affords_read) (simp_all add: simulate_request_def)

lemma affords_ledger_tx [affords_rules]:
  "R \<le> n \<Longrightarrow> (\<And>x m. n = m + R \<Longrightarrow> Q x m) \<Longrightarrow> (\<And>e m. n = m + R \<Longrightarrow> E e m) \<Longrightarrow>
     affords (price R S W) d (ledger_tx h a b) Q E n"
  unfolding ledger_tx_def by (rule affords_read) (simp_all add: tx_request_def)

lemma affords_ledger_submit [affords_rules]:
  "S \<le> n \<Longrightarrow> (\<And>x m. n = m + S \<Longrightarrow> Q x m) \<Longrightarrow> (\<And>e m. n = m + S \<Longrightarrow> E e m) \<Longrightarrow>
     affords (price R S W) d (ledger_submit b) Q E n"
  by (auto simp: ledger_submit_def connection_request_def affords_await affords_lift_result submit_request_def
      split: sum.split env_answer.split)

lemma affords_switch_endpoint [affords_rules]:
  "W \<le> n \<Longrightarrow> (\<And>x m. n = m + W \<Longrightarrow> Q x m) \<Longrightarrow> (\<And>e m. n = m + W \<Longrightarrow> E e m) \<Longrightarrow>
     affords (price R S W) d (switch_endpoint reason) Q E n"
  by (auto simp: switch_endpoint_def split: env_answer.split)

lemma affords_transition [affords_rules]:
  "d \<le> n \<Longrightarrow> (\<And>x m. n = m + d \<Longrightarrow> Q x m) \<Longrightarrow> (\<And>e m. n = m + d \<Longrightarrow> E e m) \<Longrightarrow> affords c d (transition i req) Q E n"
  by (auto simp: transition_def db_def affords_await affords_try_catch intro!: affords_rules split: option.split)

lemma affords_update_in_status [affords_rules]:
  "d \<le> n \<Longrightarrow> (\<And>x m. n = m + d \<Longrightarrow> Q x m) \<Longrightarrow> (\<And>e m. n = m + d \<Longrightarrow> E e m) \<Longrightarrow> affords c d (update_in_status i ss cols) Q E n"
  by (auto simp: update_in_status_def db_def affords_await affords_try_catch intro!: affords_rules split: option.split)

lemma affords_create_idempotent [affords_rules]:
  "d \<le> n \<Longrightarrow> (\<And>x m. n = m + d \<Longrightarrow> Q x m) \<Longrightarrow> (\<And>e m. n = m + d \<Longrightarrow> E e m) \<Longrightarrow> affords c d (create_idempotent r) Q E n"
  by (auto simp: create_idempotent_def db_def affords_await affords_try_catch intro!: affords_rules split: option.split)

lemma affords_load [affords_rules]:
  "d \<le> n \<Longrightarrow> (\<And>x m. n = m + d \<Longrightarrow> Q x m) \<Longrightarrow> (\<And>e m. n = m + d \<Longrightarrow> E e m) \<Longrightarrow> affords c d (load i) Q E n"
  by (auto simp: load_def find_by_id_def db_def affords_await affords_try_catch intro!: affords_rules split: option.split)

lemma affords_find_by_statuses [affords_rules]:
  "d \<le> n \<Longrightarrow> (\<And>x m. n = m + d \<Longrightarrow> Q x m) \<Longrightarrow> (\<And>e m. n = m + d \<Longrightarrow> E e m) \<Longrightarrow> affords c d (find_by_statuses ss) Q E n"
  by (auto simp: find_by_statuses_def db_def affords_await affords_try_catch intro!: affords_rules split: option.split)

lemma affords_list_intents [affords_rules]:
  "d \<le> n \<Longrightarrow> (\<And>x m. n = m + d \<Longrightarrow> Q x m) \<Longrightarrow> (\<And>e m. n = m + d \<Longrightarrow> E e m) \<Longrightarrow> affords c d (list_intents f) Q E n"
  by (auto simp: list_intents_def db_def affords_await affords_try_catch intro!: affords_rules split: option.split)

lemma affords_list_by_intent [affords_rules]:
  "d \<le> n \<Longrightarrow> (\<And>x m. n = m + d \<Longrightarrow> Q x m) \<Longrightarrow> (\<And>e m. n = m + d \<Longrightarrow> E e m) \<Longrightarrow> affords c d (list_by_intent i) Q E n"
  by (auto simp: list_by_intent_def db_def affords_await affords_try_catch intro!: affords_rules split: option.split)

lemma affords_current_time [affords_rules]:
  "d \<le> n \<Longrightarrow> (\<And>x m. n = m + d \<Longrightarrow> Q x m) \<Longrightarrow> (\<And>e m. n = m + d \<Longrightarrow> E e m) \<Longrightarrow> affords c d (current_time) Q E n"
  by (auto simp: current_time_def affords_await affords_try_catch intro!: affords_rules split: option.split)

lemma affords_assert_recovered [affords_rules]:
  "d \<le> n \<Longrightarrow> (\<And>x m. n = m + d \<Longrightarrow> Q x m) \<Longrightarrow> (\<And>e m. n = m + d \<Longrightarrow> E e m) \<Longrightarrow> affords c d (assert_recovered) Q E n"
  by (auto simp: assert_recovered_def affords_await affords_try_catch intro!: affords_rules split: option.split)

lemma affords_finish_cycle [affords_rules]:
  "d \<le> n \<Longrightarrow> (\<And>x m. n = m + d \<Longrightarrow> Q x m) \<Longrightarrow> (\<And>e m. n = m + d \<Longrightarrow> E e m) \<Longrightarrow> affords c d (finish_cycle b) Q E n"
  by (auto simp: finish_cycle_def affords_await affords_try_catch intro!: affords_rules split: option.split)

lemma affords_required [affords_rules]:
  "(\<And>x. Q x n) \<Longrightarrow> (\<And>e. E e n) \<Longrightarrow> affords c d (required v col) Q E n"
  by (simp add: required_def affords_lift_result split: option.split)

text \<open>Preparation: a step reads the ledger at most four times.\<close>

lemma affords_preparation_step:
  assumes "4 * R + 3 * d \<le> n" and "\<And>x m. n \<le> m + 4 * R + 3 * d \<Longrightarrow> Q x m"
    and "\<And>e m. n \<le> m + 4 * R + 3 * d \<Longrightarrow> E e m"
  shows "affords (price R S W) d (preparation_step X N r) Q E n"
proof -
  note split = option.split prod.split if_split
  have "affords (price R S W) d (prepare_created X N r) Q E n"
    unfolding prepare_created_def quiescent_sequence_def capped_open_ledger_fee_def Let_def
    using assms by (auto simp: affords_await affords_try_catch intro!: affords_rules split: split)
  moreover have "affords (price R S W) d (simulate_prepared X r) Q E n"
    unfolding simulate_prepared_def simulate_def
    using assms by (auto simp: affords_await intro!: affords_rules split: split)
  moreover have "affords (price R S W) d (complete_simulation r) Q E n"
    unfolding complete_simulation_def Let_def
    using assms by (auto simp: affords_await intro!: affords_rules split: split)
  moreover have "Q x n" "E e n" for x e using assms by simp_all
  ultimately show ?thesis by (simp add: preparation_step_def split: intent_status.split)
qed

lemma affords_prepare_loop:
  "k * (4 * R + 4 * d) \<le> n \<Longrightarrow> affords (price R S W) d (prepare_loop X N i k r) (\<lambda>_ _. True) (\<lambda>_ _. True) n"
proof (induction k arbitrary: r n)
  case (Suc k)
  show ?case
    unfolding prepare_loop.simps affords_await
    using Suc.prems
    by (auto intro!: affords_preparation_step affords_rules Suc.IH simp: affords_await split: step_result.split)
qed simp

lemma prepare_costs: "costs_at_most (price R S W) d (prepare X N i) (32 * R + 33 * d)"
  unfolding costs_at_most_def prepare_def affords_await max_preparation_steps_def
  by (auto intro!: affords_rules affords_prepare_loop)

text \<open>Signing: one read of the account, at most one of the ledger.\<close>

lemma attach_signature_costs: "costs_at_most (price R S W) d (attach_signature X i b) (2 * R + 5 * d)"
  unfolding costs_at_most_def attach_signature_def check_and_attach_def attach_verified_def Let_def
  by (auto simp: affords_await intro!: affords_rules split: option.split)

text \<open>Settling: two lookups with a switch between them, one read of the account, two statements.\<close>

lemma affords_apply_search:
  assumes "R + 2 * d \<le> n" and "\<And>x m. n \<le> m + R + 2 * d \<Longrightarrow> Q x m" and "\<And>e m. n \<le> m + R + 2 * d \<Longrightarrow> E e m"
  shows "affords (price R S W) d (apply_search r search current) Q E n"
proof -
  have "affords (price R S W) d (apply_found r lk raw) Q E n" for lk raw
    unfolding apply_found_def fail_def record_validated_def Let_def
    using assms by (auto simp: affords_await intro!: affords_rules split: option.split)
  moreover have "affords (price R S W) d (apply_proven_absent r high) Q E n" for high
    unfolding apply_proven_absent_def settle_absent_def fail_def Let_def
    using assms by (auto simp: affords_await intro!: affords_rules split: option.split)
  moreover have "Q x n" for x using assms by simp
  ultimately show ?thesis
    using assms(3) by (cases search) (auto simp: affords_await intro!: affords_rules)
qed

lemma affords_resolve_signed:
  assumes "2 * R + 2 * d + budget * (R + W) \<le> n"
    and "\<And>x left m. left \<le> budget \<Longrightarrow> n + left * (R + W) \<le> m + 2 * R + 2 * d + budget * (R + W) \<Longrightarrow> Q (x, left) m"
    and "\<And>e m. E e m"
  shows "affords (price R S W) d (resolve_signed r current budget) Q E n"
  unfolding resolve_signed_def
  using assms
  by (cases budget) (auto simp: affords_await intro!: affords_rules affords_apply_search split: option.split)

lemma affords_reconcile:
  assumes "length rs * (2 * R + 2 * d) + budget * (R + W) \<le> n"
    and "\<And>x m. n \<le> m + length rs * (2 * R + 2 * d) + budget * (R + W) \<Longrightarrow> Q x m" and "\<And>e m. E e m"
  shows "affords (price R S W) d (reconcile rs current budget degraded) Q E n"
  using assms(1,2)
proof (induction rs arbitrary: budget degraded n)
  case (Cons r rs)
  note rest = Cons.IH Cons.prems
  have "affords (price R S W) d (await (expire_unsigned r current) (\<lambda>_. reconcile rs current budget degraded)) Q E n"
    unfolding expire_unsigned_def using Cons.prems
    by (auto simp: affords_await algebra_simps intro!: affords_rules Cons.IH assms(3))
  moreover have "affords (price R S W) d (await (resolve_signed r current budget)
      (\<lambda>(outcome, left). reconcile rs current left (degraded \<or> outcome = O_UNPROVABLE))) Q E n"
    unfolding affords_await
  proof (rule affords_resolve_signed[where budget = budget])
    show "2 * R + 2 * d + budget * (R + W) \<le> n" using Cons.prems(1) by simp
  next
    fix outcome left m assume m: "left \<le> budget" "n + left * (R + W) \<le> m + 2 * R + 2 * d + budget * (R + W)"
    then show "affords (price R S W) d (case (outcome, left) of (outcome, left) \<Rightarrow>
        reconcile rs current left (degraded \<or> outcome = O_UNPROVABLE)) Q E m"
      unfolding prod.case using Cons.prems by (intro Cons.IH) auto
  qed (rule assms(3))
  moreover have "affords (price R S W) d (reconcile rs current budget degraded) Q E n"
    using Cons.prems by (intro Cons.IH) auto
  ultimately show ?case by simp
qed simp

text \<open>A whole cycle, where only switches of the endpoint are paid for.\<close>

lemma cycle_costs: "costs_at_most (price 0 S W) 0 cycle W"
  unfolding costs_at_most_def cycle_def
  by (auto simp: affords_await affords_try_catch intro!: affords_rules affords_reconcile)

text \<open>Submission: at most three rounds, each with one submission or one resolution.\<close>

lemma affords_submit_signed:
  assumes "d + R + k \<le> n" and "3 * R + W + 2 * d \<le> k" and "S + 3 * d \<le> k"
    and "\<And>x m. n \<le> m + d + R + k \<Longrightarrow> Q x m" and "\<And>e m. E e m"
  shows "affords (price R S W) d (submit_signed r) Q E n"
  unfolding submit_signed_def attempt_def record_submission_def
  using assms
  by (auto simp: affords_await affords_try_catch intro!: affords_rules affords_resolve_signed
      split: option.split prod.split)

lemma affords_submit_loop:
  assumes "steps * (2 * d + R + k) \<le> n" and "3 * R + W + 2 * d \<le> k" and "S + 3 * d \<le> k"
  shows "affords (price R S W) d (submit_loop i steps r) (\<lambda>_ _. True) (\<lambda>_ _. True) n"
  using assms(1)
proof (induction steps arbitrary: r n)
  case (Suc steps)
  then show ?case
    by (auto simp: affords_await intro!: affords_rules affords_submit_signed[OF _ assms(2,3)] Suc.IH split: option.split)
qed simp

lemma submit_costs:
  assumes "3 * R + W + 2 * d \<le> k" and "S + 3 * d \<le> k"
  shows "costs_at_most (price R S W) d (submit i) (3 * (2 * d + R + k) + d)"
  unfolding costs_at_most_def submit_def max_submission_steps_def affords_await
  by (auto intro!: affords_rules affords_submit_loop[OF _ assms])

text \<open>The reads and the creation.\<close>

lemma other_costs:
  "costs_at_most (price R S W) d (create X N uuid key dto) (2 * d)"
  "costs_at_most (price R S W) d (get_intent i) d"
  "costs_at_most (price R S W) d (list_page q) d"
  "costs_at_most (price R S W) d (transitions_of i) (2 * d)"
  unfolding costs_at_most_def create_def get_intent_def list_page_def transitions_of_def Let_def
  by (auto simp: affords_await intro!: affords_rules split: prod.split)

lemma costs_forget: "costs_at_most c d (forget p) n = costs_at_most c d p n"
  by (simp add: costs_at_most_def forget_def affords_await)

section \<open>Properties\<close>

text \<open>The steps a request may take: statements, reads of memory and requests to the ledger.\<close>

fun max_steps :: "api_call \<Rightarrow> nat" where
  "max_steps (CallCreate uuid key dto) = 2"
| "max_steps (CallGet i) = 1"
| "max_steps (CallList q) = 1"
| "max_steps (CallTransitions i) = 2"
| "max_steps (CallPrepare i) = 65"
| "max_steps (CallSignature i b) = 7"
| "max_steps (CallSubmit i) = 28"
| "max_steps CallCycle = 0"

lemmas affordable =
  prepare_costs[THEN costs_more] attach_signature_costs[THEN costs_more] other_costs[THEN costs_more]

lemma handler_costs:
  "c \<noteq> CallCycle \<Longrightarrow> costs_at_most (price 1 1 1) 1 (handler X N c) (max_steps c)"
  using submit_costs[of 1 1 1 6 1] by (cases c) (simp_all add: costs_forget affordable)

lemma handler_submissions: "costs_at_most (price 0 1 0) 0 (handler X N c) 3"
  using submit_costs[of 0 0 0 1 1] cycle_costs[of 1 0, THEN costs_more]
  by (cases c) (simp_all add: costs_forget affordable)

lemma price_one: "step_cost (price 1 1 1) 1 e = 1"
  by (cases e; cases "the e") simp_all

lemma steps_are_counted: "sum_list (map (step_cost (price 1 1 1) 1) es) = length es"
  by (induction es) (simp_all add: price_one del: One_nat_def)

definition is_submission :: "env_call \<Rightarrow> bool" where
  "is_submission q \<longleftrightarrow> (\<exists>b. q = Request (submit_request b))"

definition is_switch :: "env_call \<Rightarrow> bool" where
  "is_switch q \<longleftrightarrow> (\<exists>reason. q = SwitchEndpoint reason)"

lemma submissions_are_counted:
  "length (filter is_submission (requests_of es)) \<le> sum_list (map (step_cost (price 0 1 0) 0) es)"
proof (induction es)
  case (Cons e es)
  then show ?case by (cases e) (auto simp: is_submission_def submit_request_def)
qed simp

lemma switches_are_counted:
  "length (filter is_switch (requests_of es)) = sum_list (map (step_cost (price 0 0 1) 0) es)"
proof (induction es)
  case (Cons e es)
  then show ?case by (cases e; cases "the e") (auto simp: is_switch_def)
qed simp

text \<open>
  C17. No request hangs in the service: whatever the database, the ledger and the other handlers
  answer and in whatever order, a handler other than the cycle comes to its end within a fixed
  number of steps, counting statements, reads of memory and requests, and no sequence of its steps
  is longer.
\<close>

theorem handlers_terminate:
  assumes "io_path (handler X N c) es p" and "c \<noteq> CallCycle"
  shows "length es \<le> max_steps c"
  using costs_path[OF assms(1) handler_costs[OF assms(2)]] by (simp only: steps_are_counted)

theorem handlers_terminate_witness:
  "io_path (handler demo_codec 2 (CallGet ''id1'')) [None] (Throw ConnectionLost) \<and>
     length [None :: env_call option] \<le> max_steps (CallGet ''id1'')"
proof -
  have "io_path (handler demo_codec 2 (CallGet ''id1'')) [None] (Throw ConnectionLost)"
    unfolding handler.simps forget_def get_intent_def load_def find_by_id_def db_def transaction_def await.simps
    by (rule io_path.Statement[where fl = LostBefore and w = empty_world]) (simp add: db_result_def io_path.Here)
  from handlers_terminate[OF this] this show ?thesis by blast
qed





end
