(* ===== verification/Outcome.thy ===== *)
theory Outcome
  imports Delivery
begin

text \<open>
  How an intent comes to its outcome while the ledger goes on: one cycle over any number of active
  intents records every transaction that the ledger has included, and with it the way of an intent
  from its creation to VALIDATED is complete.
\<close>

section \<open>A ledger that answers\<close>

text \<open>
  No request of the cycle fails: the server is at validated ledger \<open>n\<close>, and lookups, accounts and
  switches are answered, whatever they are answered.
\<close>

definition responsive :: "(env_call, env_answer) answers \<Rightarrow> nat \<Rightarrow> bool" where
  "responsive env n \<longleftrightarrow>
     (\<forall>tr. \<exists>resp. env tr (Request validated_ledger_request) = Response resp \<and>
        read_validated_ledger resp = Inr n) \<and>
     (\<forall>tr h low high. \<exists>resp search. env tr (Request (tx_request h low high)) = Response resp \<and>
        read_tx resp = Inr search) \<and>
     (\<forall>tr a. \<exists>resp acct. env tr (Request (validated_account_request a)) = Response resp \<and>
        read_validated_account resp = Inr acct) \<and>
     (\<forall>tr reason. \<exists>resp. env tr (SwitchEndpoint reason) = Response resp)"

lemma responsive_index:
  assumes "responsive env n" shows "\<exists>tr'. run env validated_ledger_index tr w = (Inr n, tr', w)"
proof -
  from assms obtain resp where "env tr (Request validated_ledger_request) = Response resp"
      "read_validated_ledger resp = Inr n"
    unfolding responsive_def by blast
  then show ?thesis by (simp add: validated_ledger_index_def run_await run_connection_request)
qed

lemma responsive_tx:
  assumes "responsive env n" shows "\<exists>tr' search. run env (ledger_tx h low high) tr w = (Inr search, tr', w)"
proof -
  from assms obtain resp search where "env tr (Request (tx_request h low high)) = Response resp"
      "read_tx resp = Inr search"
    unfolding responsive_def by blast
  then show ?thesis by (simp add: ledger_tx_def run_await run_connection_request run_lift_result)
qed

lemma responsive_account:
  assumes "responsive env n" shows "\<exists>tr' acct. run env (validated_account_info a) tr w = (Inr acct, tr', w)"
proof -
  from assms obtain resp acct where "env tr (Request (validated_account_request a)) = Response resp"
      "read_validated_account resp = Inr acct"
    unfolding responsive_def by blast
  then show ?thesis by (simp add: validated_account_info_def run_await run_connection_request run_lift_result)
qed

lemma responsive_switch:
  assumes "responsive env n" shows "\<exists>tr'. run env (switch_endpoint reason) tr w = (Inr (), tr', w)"
proof -
  from assms obtain resp where "env tr (SwitchEndpoint reason) = Response resp"
    unfolding responsive_def by blast
  then show ?thesis by (simp add: switch_endpoint_def)
qed

section \<open>One row\<close>

definition touches_only :: "string \<Rightarrow> world \<Rightarrow> world \<Rightarrow> bool" where
  "touches_only i w w' \<longleftrightarrow> table_ok (intents w') \<and> (\<forall>j. j \<noteq> i \<longrightarrow> find_row j w' = find_row j w)"

lemma touches_only_refl: "table_ok (intents w) \<Longrightarrow> touches_only i w w"
  by (simp add: touches_only_def)

lemma settled_into_touches: "settled_into i w w' \<Longrightarrow> touches_only i w w'"
  by (simp add: settled_into_def touches_only_def)

lemmas touches = touches_only_refl settled_into_touches

text \<open>The row holds the columns that the cycle reads.\<close>

definition readable :: "intent_row \<Rightarrow> bool" where
  "readable r \<longleftrightarrow> status r \<in> set unsigned_active_statuses \<and> last_ledger_sequence r \<noteq> None \<or> resolvable r"

lemma any_apply_found:
  assumes "table_ok (intents w)" and "find_row (intent_id r) w = Some r" and "resolvable r"
  shows "\<exists>outcome w'. run env (apply_found r lk raw) tr w = (Inr outcome, tr, w') \<and> touches_only (intent_id r) w w'"
proof (cases "lk_validated lk")
  case True
  from run_apply_found[OF assms True, of env raw tr] show ?thesis by (blast intro: settled_into_touches)
next
  case False
  then show ?thesis using touches_only_refl[OF assms(1)] by (simp add: apply_found_def)
qed

lemma any_settle_absent:
  assumes "table_ok (intents w)" and "find_row (intent_id r) w = Some r" and s: "status r \<in> set signed_active_statuses"
  shows "\<exists>outcome w'. run env (settle_absent r high prepared acct) tr w = (Inr outcome, tr, w') \<and>
    touches_only (intent_id r) w w'"
proof (cases "case acct of None \<Rightarrow> False
    | Some a \<Rightarrow> (case ai_ledger_index a of None \<Rightarrow> 0 | Some n \<Rightarrow> n) \<le> high")
  case True
  then show ?thesis using touches_only_refl[OF assms(1)] by (simp add: settle_absent_def)
next
  case False
  then have "\<exists>m. ai_ledger_index info = Some m \<and> high < m" if "acct = Some info" for info
    using that by (auto split: option.splits)
  from run_settle_absent[OF assms this] show ?thesis by (blast intro: settled_into_touches)
qed

lemma any_apply_search:
  assumes env: "responsive env n" and t: "table_ok (intents w)" "find_row (intent_id r) w = Some r"
    and r: "resolvable r"
  shows "\<exists>outcome tr' w'. run env (apply_search r search n) tr w = (Inr outcome, tr', w') \<and>
    touches_only (intent_id r) w w'"
proof -
  from r obtain high seq where c: "last_ledger_sequence r = Some high" "sequence r = Some seq"
    and s: "status r \<in> set signed_active_statuses" by (auto simp: resolvable_def)
  show ?thesis
  proof (cases search)
    case (Found lk raw)
    with any_apply_found[OF t r, of env lk raw tr] show ?thesis by auto
  next
    case (NotFound complete)
    obtain tr2 acct where acct: "run env (validated_account_info (source_account r)) tr w = (Inr acct, tr2, w)"
      using responsive_account[OF env] by blast
    obtain outcome w' where "run env (settle_absent r high seq acct) tr2 w = (Inr outcome, tr2, w')"
        "touches_only (intent_id r) w w'"
      using any_settle_absent[OF t s] by blast
    with NotFound acct c touches_only_refl[OF t(1)] show ?thesis
      by (auto simp: run_await run_required apply_proven_absent_def)
  qed
qed

lemma any_resolve_signed:
  assumes env: "responsive env n" and t: "table_ok (intents w)" "find_row (intent_id r) w = Some r"
    and r: "resolvable r"
  shows "\<exists>outcome left tr' w'. run env (resolve_signed r n budget) tr w = (Inr (outcome, left), tr', w') \<and>
    touches_only (intent_id r) w w'"
proof -
  from r obtain h low high where c: "transaction_hash r = Some h" "prepared_ledger_index r = Some low"
      "last_ledger_sequence r = Some high" by (auto simp: resolvable_def)
  obtain tr1 search where 1: "run env (ledger_tx h (js_add low 1) high) tr w = (Inr search, tr1, w)"
    using responsive_tx[OF env] by blast
  obtain tr2 where 2: "run env (switch_endpoint ''tx searched_all=false'') tr1 w = (Inr (), tr2, w)"
    using responsive_switch[OF env] by blast
  obtain tr3 search2 where 3: "run env (ledger_tx h (js_add low 1) high) tr2 w = (Inr search2, tr3, w)"
    using responsive_tx[OF env] by blast
  obtain o1 tr4 w4 where 4: "run env (apply_search r search n) tr1 w = (Inr o1, tr4, w4)"
      "touches_only (intent_id r) w w4"
    using any_apply_search[OF env t r] by blast
  obtain o2 tr5 w5 where 5: "run env (apply_search r search2 n) tr3 w = (Inr o2, tr5, w5)"
      "touches_only (intent_id r) w w5"
    using any_apply_search[OF env t r] by blast
  show ?thesis
    using 4(2) 5(2)
    by (cases "search = NotFound False \<and> high < n \<and> 0 < budget")
      (auto simp: resolve_signed_def run_await run_required c 1 2 3 4(1) 5(1) simp del: One_nat_def cong: if_cong)
qed

lemma any_expire_unsigned:
  assumes t: "table_ok (intents w)" "find_row (intent_id r) w = Some r"
    and r: "status r \<in> set unsigned_active_statuses" "last_ledger_sequence r = Some high"
  shows "\<exists>w'. run env (expire_unsigned r n) tr w = (Inr (), tr, w') \<and> touches_only (intent_id r) w w'"
proof (cases "n \<le> high")
  case True
  then show ?thesis using touches_only_refl[OF t(1)] by (simp add: expire_unsigned_def run_await run_required r)
next
  case False
  then have "high < n" by simp
  from run_expire_unsigned[OF t r this, of env tr] show ?thesis by (blast intro: settled_into_touches)
qed

section \<open>Inclusion\<close>

text \<open>The ledger has the transaction of \<open>r\<close>, with the result \<open>res\<close> at index \<open>idx\<close>.\<close>

definition shows_included ::
  "(env_call, env_answer) answers \<Rightarrow> string \<Rightarrow> nat \<Rightarrow> nat \<Rightarrow> string \<Rightarrow> nat \<Rightarrow> bool" where
  "shows_included env h low high res idx \<longleftrightarrow>
     low < idx \<and> idx \<le> high \<and> tes_or_tec res \<and>
     (\<forall>tr. \<exists>resp lk raw. env tr (Request (tx_request h (js_add low 1) high)) = Response resp \<and>
        read_tx resp = Inr (Found lk raw) \<and> lk_validated lk \<and> map_option upper (lk_hash lk) = Some h \<and>
        lk_ledger_index lk = Some idx \<and> lk_transaction_result lk = Some res)"

definition included :: "(env_call, env_answer) answers \<Rightarrow> intent_row \<Rightarrow> string \<Rightarrow> nat \<Rightarrow> bool" where
  "included env r res idx \<longleftrightarrow>
     (\<exists>h low high. transaction_hash r = Some h \<and> prepared_ledger_index r = Some low \<and>
        last_ledger_sequence r = Some high \<and> shows_included env h low high res idx)"

definition validated_as :: "intent_row \<Rightarrow> string \<Rightarrow> nat \<Rightarrow> intent_row \<Rightarrow> bool" where
  "validated_as r res idx r' \<longleftrightarrow>
     status r' = VALIDATED \<and> final_result r' = Some res \<and> final_ledger_index r' = Some idx \<and>
     transaction_hash r' = transaction_hash r \<and> signed_tx_blob r' = signed_tx_blob r \<and> same_identity r r'"

lemma run_record_inclusion:
  assumes "table_ok (intents w)" and "find_row (intent_id r) w = Some r" and "status r \<in> set signed_active_statuses"
  shows "\<exists>r' w'. run env (record_validated r lk raw res idx) tr w = (Inr O_VALIDATED, tr, w') \<and>
    find_row (intent_id r) w' = Some r' \<and> validated_as r res idx r' \<and> settled_into (intent_id r) w w'"
proof -
  let ?req = "validated_transition lk raw res idx (clock w)"
  let ?r' = "moved (request_patch ?req) (request_to ?req) (clock w) r"
  have "\<exists>w'. run env (transition (intent_id r) ?req) tr w = (Inr (Some ?r'), tr, w') \<and>
      find_row (intent_id r) w' = Some ?r' \<and> settled_into (intent_id r) w w'"
    by (rule run_terminal_transition[OF assms(1,2)])
      (use assms(3) in \<open>auto simp: status_groups moved_def row_checks_def check_constraints_def
         validated_transition_def\<close>)
  moreover have "validated_as r res idx ?r'"
    by (simp add: validated_as_def moved_def validated_transition_def same_identity_def)
  ultimately show ?thesis by (auto simp: record_validated_def run_await run_current_time)
qed

lemma run_resolve_included:
  assumes "included env r res idx" and t: "table_ok (intents w)" "find_row (intent_id r) w = Some r"
    and s: "status r \<in> set signed_active_statuses"
  shows "\<exists>r' tr' w'. run env (resolve_signed r n budget) tr w = (Inr (O_VALIDATED, budget), tr', w') \<and>
    find_row (intent_id r) w' = Some r' \<and> validated_as r res idx r' \<and> touches_only (intent_id r) w w'"
proof -
  obtain h low high resp lk raw where c: "transaction_hash r = Some h" "prepared_ledger_index r = Some low"
      "last_ledger_sequence r = Some high" "low < idx" "idx \<le> high" "tes_or_tec res"
    and a: "env tr (Request (tx_request h (js_add low 1) high)) = Response resp" "read_tx resp = Inr (Found lk raw)"
      "lk_validated lk" "map_option upper (lk_hash lk) = Some h" "lk_ledger_index lk = Some idx"
      "lk_transaction_result lk = Some res"
    using assms(1) unfolding included_def shows_included_def by blast
  let ?tr = "tr @ [(Request (tx_request h (js_add low 1) high), Response resp)]"
  obtain r' w' where 1: "run env (record_validated r lk raw res idx) ?tr w = (Inr O_VALIDATED, ?tr, w')"
      "find_row (intent_id r) w' = Some r'" "validated_as r res idx r'" "settled_into (intent_id r) w w'"
    using run_record_inclusion[OF t s] by blast
  have "run env (ledger_tx h (js_add low 1) high) tr w = (Inr (Found lk raw), ?tr, w)"
    using a by (simp add: ledger_tx_def run_await run_connection_request run_lift_result)
  then show ?thesis
    using 1 c a(3-6)
    by (auto simp: resolve_signed_def run_await run_required apply_found_def Let_def intro: settled_into_touches
        simp del: One_nat_def)
qed

section \<open>The loop\<close>

text \<open>One row is dealt with, and recorded if it is included; the loop goes on with the rest.\<close>

lemma any_reconcile_row:
  assumes env: "responsive env n" and t: "table_ok (intents w)" "find_row (intent_id r) w = Some r"
    and r: "readable r"
  shows "\<exists>left d tr' w'. run env (reconcile (r # rs) n budget degraded) tr w = run env (reconcile rs n left d) tr' w' \<and>
    touches_only (intent_id r) w w' \<and>
    (\<forall>res idx. status r \<in> set signed_active_statuses \<longrightarrow> included env r res idx \<longrightarrow>
       (\<exists>r'. find_row (intent_id r) w' = Some r' \<and> validated_as r res idx r'))"
proof (cases "status r \<in> set unsigned_active_statuses")
  case True
  then obtain high where "last_ledger_sequence r = Some high"
    using r by (auto simp: readable_def resolvable_def status_groups)
  from any_expire_unsigned[OF t True this] obtain w' where
    "run env (expire_unsigned r n) tr w = (Inr (), tr, w')" "touches_only (intent_id r) w w'" by blast
  moreover have "status r \<notin> set signed_active_statuses" using True by (auto simp: status_groups)
  ultimately show ?thesis using True by (auto simp: run_await)
next
  case False
  then have res: "resolvable r" "status r \<in> set signed_active_statuses"
    using r by (auto simp: readable_def resolvable_def)
  have step: "run env (reconcile (r # rs) n budget degraded) tr w =
      run env (reconcile rs n left (degraded \<or> outcome = O_UNPROVABLE)) tr' w'"
    if "run env (resolve_signed r n budget) tr w = (Inr (outcome, left), tr', w')" for outcome left tr' w'
    using that False res(2) by (simp add: run_await)
  show ?thesis
  proof (cases "\<exists>res idx. included env r res idx")
    case True
    then obtain x idx where inc: "included env r x idx" by blast
    have same: "res = x \<and> i = idx" if "included env r res i" for res i
      using that inc unfolding included_def shows_included_def by (force dest: spec[of _ "[]"])
    from run_resolve_included[OF inc t res(2)] obtain r' tr' w' where
      "run env (resolve_signed r n budget) tr w = (Inr (O_VALIDATED, budget), tr', w')"
      "find_row (intent_id r) w' = Some r'" "validated_as r x idx r'" "touches_only (intent_id r) w w'" by blast
    with step same show ?thesis by metis
  next
    case False
    from any_resolve_signed[OF env t res(1)] step False show ?thesis by metis
  qed
qed

lemma any_reconcile:
  assumes "responsive env n" and "table_ok (intents w)" and "distinct (map intent_id rs)"
    and "\<And>r. r \<in> set rs \<Longrightarrow> find_row (intent_id r) w = Some r \<and> readable r"
  shows "\<exists>d tr' w'. run env (reconcile rs n budget degraded) tr w = (Inr d, tr', w') \<and>
    (\<forall>i. i \<notin> intent_id ` set rs \<longrightarrow> find_row i w' = find_row i w) \<and>
    (\<forall>r res idx. r \<in> set rs \<longrightarrow> status r \<in> set signed_active_statuses \<longrightarrow> included env r res idx \<longrightarrow>
       (\<exists>r'. find_row (intent_id r) w' = Some r' \<and> validated_as r res idx r'))"
  using assms(2-)
proof (induction rs arbitrary: tr w budget degraded)
  case (Cons r rs)
  have r: "find_row (intent_id r) w = Some r" "readable r" using Cons.prems(3)[of r] by auto
  obtain left d1 tr1 w1 where
    step: "run env (reconcile (r # rs) n budget degraded) tr w = run env (reconcile rs n left d1) tr1 w1" and
    t: "touches_only (intent_id r) w w1" and
    inc: "\<And>res idx. status r \<in> set signed_active_statuses \<Longrightarrow> included env r res idx \<Longrightarrow>
       \<exists>r'. find_row (intent_id r) w1 = Some r' \<and> validated_as r res idx r'"
    using any_reconcile_row[OF assms(1) Cons.prems(1) r] by blast
  have other: "intent_id p \<noteq> intent_id r" if "p \<in> set rs" for p
    using that Cons.prems(2) by (auto simp: image_iff)
  then have rest: "find_row (intent_id p) w1 = Some p \<and> readable p" if "p \<in> set rs" for p
    using t that Cons.prems(3)[of p] by (simp add: touches_only_def)
  have "table_ok (intents w1)" "distinct (map intent_id rs)" using t Cons.prems(2) by (simp_all add: touches_only_def)
  from Cons.IH[OF this rest] obtain d tr2 w2 where
    w2: "run env (reconcile rs n left d1) tr1 w1 = (Inr d, tr2, w2)"
      "\<And>i. i \<notin> intent_id ` set rs \<Longrightarrow> find_row i w2 = find_row i w1"
      "\<And>p res idx. p \<in> set rs \<Longrightarrow> status p \<in> set signed_active_statuses \<Longrightarrow> included env p res idx \<Longrightarrow>
       \<exists>r'. find_row (intent_id p) w2 = Some r' \<and> validated_as p res idx r'"
    by blast
  have "find_row (intent_id r) w2 = find_row (intent_id r) w1" by (rule w2(2)) (use Cons.prems(2) in simp)
  then show ?case
    unfolding step using w2 t inc by (auto simp: touches_only_def)
qed simp

section \<open>The cycle\<close>

lemma readable_row:
  assumes "row_ok X N r" and "status r \<in> set sequence_active_statuses"
  shows "readable r"
proof (cases "status r \<in> set signed_active_statuses")
  case True
  from signed_columns[OF assms(1) True] True show ?thesis by (auto simp: readable_def resolvable_def)
next
  case False
  then have s: "status r \<in> set unsigned_active_statuses" using assms(2) by (auto simp: status_groups)
  then have "prepared_ok X N r" using row_ok_prepared[OF assms(1)] by (auto simp: status_groups)
  then show ?thesis using s by (auto simp: readable_def prepared_ok_def)
qed

definition memory_of_cycle :: "world \<Rightarrow> bool \<Rightarrow> world" where
  "memory_of_cycle w degraded =
     w\<lparr>health := if degraded then DEGRADED else HEALTHY, last_successful_cycle_at := Some (clock w), recovered := True\<rparr>"

lemma find_row_memory [simp]: "find_row i (memory_of_cycle w d) = find_row i w" "recovered (memory_of_cycle w d)"
  by (simp_all add: memory_of_cycle_def find_row_def)

lemma run_any_cycle:
  assumes I: "world_ok X N w" and env: "responsive env n"
  shows "\<exists>tr w'. run env cycle [] w = (Inr (), tr, w') \<and> recovered w' \<and>
    (\<forall>r \<in> set (intents w). if is_sequence_active r
       then \<forall>res idx. status r \<in> set signed_active_statuses \<longrightarrow> included env r res idx \<longrightarrow>
         (\<exists>r'. find_row (intent_id r) w' = Some r' \<and> validated_as r res idx r')
       else find_row (intent_id r) w' = Some r)"
proof -
  have t: "table_ok (intents w)" using I by (simp add: world_ok_def store_ok_def)
  let ?rs = "sort_key (\<lambda>r. (created_at r, intent_id r))
    (filter (\<lambda>r. status r \<in> set sequence_active_statuses) (intents w))"
  obtain tr1 where index: "run env validated_ledger_index [] w = (Inr n, tr1, w)"
    using responsive_index[OF env] by blast
  have rows: "run env (find_by_statuses sequence_active_statuses) tr1 w = (Inr ?rs, tr1, w)"
    by (simp add: find_by_statuses_def run_db)
  have "distinct (map intent_id (intents w))" by (rule table_ok_distinct_ids[OF t])
  then have d: "distinct (map intent_id ?rs)" by (auto simp: distinct_map intro: inj_on_subset)
  have find: "find_row (intent_id r) w = Some r" if "r \<in> set (intents w)" for r
    using find_row_Some_iff[OF t] that by blast
  have p: "find_row (intent_id r) w = Some r \<and> readable r" if "r \<in> set ?rs" for r
    using that find readable_row[OF world_ok_row[OF I]] by auto
  from any_reconcile[OF env t d p] obtain deg tr2 w2 where
    loop: "run env (reconcile ?rs n 1 False) tr1 w = (Inr deg, tr2, w2)"
    and others: "\<And>i. i \<notin> intent_id ` set ?rs \<Longrightarrow> find_row i w2 = find_row i w"
    and inc: "\<And>r res idx. r \<in> set ?rs \<Longrightarrow> status r \<in> set signed_active_statuses \<Longrightarrow> included env r res idx \<Longrightarrow>
       \<exists>r'. find_row (intent_id r) w2 = Some r' \<and> validated_as r res idx r'" by blast
  have "run env cycle [] w = (Inr (), tr2, memory_of_cycle w2 deg)"
    using run_cycle_loop[OF index rows loop] by (simp add: memory_of_cycle_def)
  moreover have "find_row (intent_id r) w2 = Some r" if "r \<in> set (intents w)" "\<not> is_sequence_active r" for r
  proof -
    have "intent_id r \<notin> intent_id ` set ?rs"
      using that by (auto simp: image_iff is_sequence_active_def dest: world_ok_unique[OF I _ that(1)])
    with others find[OF that(1)] show ?thesis by simp
  qed
  ultimately show ?thesis
    using inc by (intro exI[of _ tr2] exI[of _ "memory_of_cycle w2 deg"]) (simp add: is_sequence_active_def)
qed

section \<open>Properties\<close>

text \<open>
  C16. No outcome is missed: one cycle that gets an answer to every request, whatever the answers are,
  records every transaction that the ledger has included in its window, for any number of active
  intents in any mixture of statuses. The intent becomes VALIDATED with the result and the ledger index of
  the ledger, and the intents that were not active stay as they were.
\<close>

theorem cycle_records_inclusions:
  assumes "execution X N w log" and "responsive env n"
  shows "\<exists>tr w'. run env cycle [] w = (Inr (), tr, w') \<and> recovered w' \<and>
    (\<forall>r \<in> set (intents w). if is_sequence_active r
       then \<forall>res idx. status r \<in> set signed_active_statuses \<longrightarrow> included env r res idx \<longrightarrow>
         (\<exists>r'. find_row (intent_id r) w' = Some r' \<and> validated_as r res idx r')
       else find_row (intent_id r) w' = Some r)"
  by (rule run_any_cycle[OF execution_world_ok[OF assms(1)] assms(2)])

text \<open>
  The whole way of a payment: for a created intent whose account has no other active intent, four
  calls take it to its end. \<open>prepare\<close> against a cooperating ledger, \<open>attachSignature\<close> with a blob that
  verifies and an authorized key, \<open>submit\<close> inside the window, and a finality cycle once the ledger
  has included the transaction: the intent is VALIDATED with the result of the ledger, it holds the
  blob of the client, and that blob was sent exactly once. The cycle may have any number of other
  active intents to deal with.
\<close>

lemma an_intent_comes_to_its_outcome:
  assumes "execution X N w log" and "recovered w" and "find_row i w = Some r" and "status r = CREATED"
    and "intent_payload r = JObj (payload_object p)" and "submission_attempt_count r < 2147483647"
    and "\<And>q. q \<in> set (intents w) \<Longrightarrow> status q \<in> set sequence_active_statuses \<Longrightarrow>
      source_account q \<noteq> source_account r"
    and "0 < n" and "prepared_as X N p fee seq n tx blob" and "cooperates X env (account p) n seq fee tx"
    and "verify X b blob = Inr v" and "hash64 (vb_transaction_hash v)"
    and "\<And>q. q \<in> set (intents w) \<Longrightarrow> intent_id q \<noteq> i \<Longrightarrow> transaction_hash q \<noteq> Some (vb_transaction_hash v)"
    and "authorizes X env2 (vb_signing_pub_key v) (source_account r) n2 seq" and "n2 \<le> last_ledger_sequence_for n"
    and "takes_submission env3 (upper b) n3 res raw" and "n3 \<le> last_ledger_sequence_for n"
    and "\<not> starts_with ''tem'' (sub_engine_result res)"
    and "responsive env4 n4"
    and "shows_included env4 (vb_transaction_hash v) n (last_ledger_sequence_for n) final idx"
  shows "\<exists>r1 tr1 w1 r2 tr2 w2 r3 tr3 w3 tr4 w4 r4.
    run env (prepare X N i) [] w = (Inr r1, tr1, w1) \<and>
    run env2 (attach_signature X i b) [] w1 = (Inr r2, tr2, w2) \<and>
    run env3 (submit i) [] w2 = (Inr r3, tr3, w3) \<and>
    map fst tr3 = [Request validated_ledger_request, Request (submit_request (upper b))] \<and>
    run env4 cycle [] w3 = (Inr (), tr4, w4) \<and>
    find_row i w4 = Some r4 \<and> status r4 = VALIDATED \<and> final_result r4 = Some final \<and>
    final_ledger_index r4 = Some idx \<and> signed_tx_blob r4 = Some (upper b)"
proof -
  have "world_ok X N w" by (rule execution_world_ok[OF assms(1)])
  then have u: "unopposed i r w"
    using assms(3,7) by (simp add: unopposed_def world_ok_def store_ok_def)
  obtain r1 tr1 w1 r2 tr2 w2 r3 tr3 w3 where
    1: "run env (prepare X N i) [] w = (Inr r1, tr1, w1)" and
    2: "run env2 (attach_signature X i b) [] w1 = (Inr r2, tr2, w2)" and
    3: "run env3 (submit i) [] w2 = (Inr r3, tr3, w3)" "delivered i b v res r3 tr3 w w3"
      "prepared_ledger_index r3 = Some n" "last_ledger_sequence r3 = Some (last_ledger_sequence_for n)"
    using run_delivery[OF u assms(2,4-6,8-17)] by blast
  obtain log3 where e3: "execution X N w3 log3"
    using execution_run[OF assms(1) _ 1, of "CallPrepare i"] execution_run[OF _ _ 2, of X N _ "CallSignature i b"]
      execution_run[OF _ _ 3(1), of X N _ "CallSubmit i"] by auto
  have r3: "find_row i w3 = Some r3" "status r3 = SUBMITTED" "transaction_hash r3 = Some (vb_transaction_hash v)"
      "signed_tx_blob r3 = Some (upper b)"
    using 3(2) assms(18) by (auto simp: delivered_def reaches_def unopposed_def)
  have inc: "included env4 r3 final idx" using assms(20) 3(3,4) r3(3) by (auto simp: included_def)
  have in3: "r3 \<in> set (intents w3)" "intent_id r3 = i" "is_sequence_active r3" "status r3 \<in> set signed_active_statuses"
    using find_row_SomeD[OF r3(1)] r3(2) by (auto simp: is_sequence_active_def status_groups)
  obtain tr4 w4 r4 where "run env4 cycle [] w3 = (Inr (), tr4, w4)" "find_row i w4 = Some r4"
      "validated_as r3 final idx r4"
    using run_any_cycle[OF execution_world_ok[OF e3] assms(19)] in3 inc by (metis (no_types, lifting))
  moreover have "map fst tr3 = [Request validated_ledger_request, Request (submit_request (upper b))]"
    using 3(2) by (simp add: delivered_def)
  ultimately show ?thesis using 1 2 3(1) r3(4) by (auto simp: validated_as_def)
qed

section \<open>Witnesses\<close>

text \<open>The ledger of the demo after it has included the transaction.\<close>

definition demo_including :: demo_ledger where
  "demo_including = finds 106 (demo_found demo_hash 105 ''tesSUCCESS'')"

lemma demo_including_answers:
  "responsive (demo_env demo_including) 106"
  "shows_included (demo_env demo_including) demo_hash 100 120 ''tesSUCCESS'' 105"
proof -
  obtain raw where raw: "read_tx (demo_found demo_hash 105 ''tesSUCCESS'') = Inr (Found demo_lookup raw)"
    using demo_read_found by blast
  then show "responsive (demo_env demo_including) 106"
    by (simp add: responsive_def demo_including_def demo_env_def demo_answer_def request_defs read_validated_ledger_def
        parser_defs max_safe_integer_def)
  show "shows_included (demo_env demo_including) demo_hash 100 120 ''tesSUCCESS'' 105"
    by (simp add: shows_included_def demo_including_def demo_env_def demo_answer_def request_defs raw demo_lookup_def
        demo_hash_ok tes_or_tec_def starts_with_def)
qed

theorem cycle_records_inclusions_witness:
  "\<exists>w tr w' r'. intents w = [demo_sent] \<and> included (demo_env demo_including) demo_sent ''tesSUCCESS'' 105 \<and>
     run (demo_env demo_including) cycle [] w = (Inr (), tr, w') \<and>
     find_row ''id1'' w' = Some r' \<and> validated_as demo_sent ''tesSUCCESS'' 105 r'"
proof -
  obtain w log where e: "execution demo_codec 2 w log" and w: "demo_state w demo_sent True"
    using arrival_history[OF arrival_submitted] unfolding history_def by blast
  have inc: "included (demo_env demo_including) demo_sent ''tesSUCCESS'' 105"
    using demo_including_answers(2) by (simp add: included_def)
  have s: "intents w = [demo_sent]" "is_sequence_active demo_sent" "status demo_sent \<in> set signed_active_statuses"
    using w by (simp_all add: demo_state_def is_sequence_active_def status_groups)
  from cycle_records_inclusions[OF e demo_including_answers(1)] inc s show ?thesis by auto
qed

lemma an_intent_comes_to_its_outcome_witness:
  "\<exists>w r1 tr1 w1 r2 tr2 w2 r3 tr3 w3 tr4 w4 r4. intents w = [demo_created] \<and>
     run (demo_env (at_ledger 100)) (prepare demo_codec 2 ''id1'') [] w = (Inr r1, tr1, w1) \<and>
     run (demo_env (at_ledger 101)) (attach_signature demo_codec ''id1'' ''abcdef'') [] w1 = (Inr r2, tr2, w2) \<and>
     run (demo_env (at_ledger 102)) (submit ''id1'') [] w2 = (Inr r3, tr3, w3) \<and>
     run (demo_env demo_including) cycle [] w3 = (Inr (), tr4, w4) \<and>
     find_row ''id1'' w4 = Some r4 \<and> status r4 = VALIDATED \<and> final_result r4 = Some ''tesSUCCESS''"
proof -
  obtain w log where e: "execution demo_codec 2 w log" and w: "demo_state w demo_created True"
    using history_created unfolding history_def by blast
  note demo = demo_created_facts[OF w]
  have up: "upper ''abcdef'' = ''ABCDEF''" by code_simp
  have tes: "\<not> starts_with ''tem'' (sub_engine_result (demo_submitted (at_ledger 102)))"
    by (simp add: demo_submitted_def starts_with_def)
  let ?v = "\<lparr>vb_tx_blob = ''ABCDEF'', vb_transaction_hash = demo_hash, vb_signing_pub_key = ''ED01''\<rparr>"
  have fresh: "transaction_hash q \<noteq> Some (vb_transaction_hash ?v)"
    if "q \<in> set (intents w)" "intent_id q \<noteq> ''id1''" for q
    using that w by (simp add: demo_state_def demo_created_def new_row_def)
  have count: "submission_attempt_count demo_created < 2147483647" by (simp add: demo_created_def new_row_def)
  have takes: "takes_submission (demo_env (at_ledger 102)) (upper ''abcdef'') 102 (demo_submitted (at_ledger 102))
     [(''engine_result'', JStr ''tesSUCCESS'')]"
    using demo_takes_submission by (simp add: up)
  have auth: "authorizes demo_codec (demo_env (at_ledger 101)) (vb_signing_pub_key ?v) (source_account demo_created) 101 7"
    using demo_authorizes demo(6) by simp
  have n: "0 < (100::nat)" "101 \<le> last_ledger_sequence_for 100" "102 \<le> last_ledger_sequence_for 100"
      "hash64 (vb_transaction_hash ?v)"
    by (simp_all add: demo_last_ledger demo_hash_ok)
  have inc: "shows_included (demo_env demo_including) (vb_transaction_hash ?v) 100 (last_ledger_sequence_for 100)
      ''tesSUCCESS'' 105"
    using demo_including_answers(2) by (simp add: demo_last_ledger)
  from an_intent_comes_to_its_outcome[OF e demo(1-4) count demo(5) n(1) demo(7,8) demo_verify n(4) fresh auth n(2)
      takes n(3) tes demo_including_answers(1) inc] w show ?thesis
    unfolding demo_state_def by blast
qed

end
