(* ===== verification/Acceptance.thy ===== *)
theory Acceptance
  imports Delivery Http
begin

text \<open>
  What becomes of an accepted request: the way of \<open>POST /v1/intents\<close> from the body to the table,
  through the pipe, the header check, the service and the repository.
\<close>

section \<open>A new row\<close>

text \<open>A row with an id and a key of its own violates nothing, if SHA-256 gives 64 hex digits.\<close>

lemma new_row_accepted:
  assumes "length key \<le> 128" and "N \<le> uint32_max" and "hash64 (request_hash_of X p)"
    and "\<And>q. q \<in> set rs \<Longrightarrow> intent_id q \<noteq> uuid \<and> idempotency_key q \<noteq> key"
  shows "constraint_error rs (new_row X N uuid key p t) = None"
  using assms
  by (auto simp: constraint_error_None_iff check_simps row_clash_iff same_sequence_owner_def same_transaction_hash_def
      is_sequence_active_def status_groups new_row_def optional_check_def)

lemma new_row_columns:
  "intent_id (new_row X N uuid key p t) = uuid" "status (new_row X N uuid key p t) = CREATED"
  "idempotency_key (new_row X N uuid key p t) = key" "request_hash (new_row X N uuid key p t) = request_hash_of X p"
  "intent_payload (new_row X N uuid key p t) = JObj (payload_object p)"
  by (simp_all add: new_row_def)

lemma run_create_new:
  assumes "length key \<le> 128" and "N \<le> uint32_max" and "hash64 (request_hash_of X (to_canonical_intent dto))"
    and "\<And>q. q \<in> set (intents w) \<Longrightarrow> intent_id q \<noteq> uuid \<and> idempotency_key q \<noteq> key"
  shows "run env (create X N uuid key dto) tr w =
     (Inr (True, new_row X N uuid key (to_canonical_intent dto) (clock w)), tr,
      insert_transition uuid None CREATED INTENT_CREATED None
        (w\<lparr>intents := intents w @ [new_row X N uuid key (to_canonical_intent dto) (clock w)]\<rparr>))"
proof -
  have "find (\<lambda>r. idempotency_key r = key) (intents w) = None"
    using assms(4) by (auto simp: find_None_iff)
  then show ?thesis
    using new_row_accepted[OF assms, where t = "clock w"]
    by (simp add: create_def Let_def run_await run_current_time create_idempotent_def run_db create_idempotent_tx_def
        new_row_columns)
qed

lemma find_row_append:
  "find_row i (w\<lparr>intents := intents w @ [r]\<rparr>) =
     (case find_row i w of None \<Rightarrow> if intent_id r = i then Some r else None | Some q \<Rightarrow> Some q)"
proof -
  have "find P (xs @ [x]) = (case find P xs of None \<Rightarrow> if P x then Some x else None | Some y \<Rightarrow> Some y)"
    for P and xs :: "intent_row list" and x
    by (induction xs) auto
  then show ?thesis by (simp add: find_row_def)
qed

section \<open>Properties\<close>



end
