(* ===== verification/Signer.thy ===== *)
theory Signer
  imports Delivery Http Config
begin

text \<open>
  The external signer of the Testnet demo (\<open>examples/testnet-signer/sign.ts\<close>): the client on the other
  side of the HTTP interface, which holds the key. It is a program like the handlers, whose requests
  are HTTP calls. The wallet of the XRPL library is a parameter; what is only printed is left out.
\<close>

section \<open>The environment file\<close>

definition line_end :: "char \<Rightarrow> bool" where
  "line_end c \<longleftrightarrow> of_char c \<in> {10, 13 :: nat}"

definition name_start :: string where
  "name_start = ''ABCDEFGHIJKLMNOPQRSTUVWXYZ_''"

definition name_char :: "char \<Rightarrow> bool" where
  "name_char c \<longleftrightarrow> c \<in> set name_start \<or> c \<in> set ''0123456789''"

text \<open>
  The pattern \<open>^\s*([A-Z_][A-Z0-9_]*)\s*=\s*(.*)\s*$\<close>. Each part takes all it can, and giving back
  never helps; \<open>.\<close> stops only at a line terminator, so it keeps the blanks at the end.
\<close>

definition env_line :: "string \<Rightarrow> (string \<times> string) option" where
  "env_line line =
     (let s = dropWhile js_space line; name = takeWhile name_char s
      in if name = [] \<or> hd name \<notin> set name_start then None
         else case dropWhile js_space (dropWhile name_char s) of
             [] \<Rightarrow> None
           | c # v \<Rightarrow>
               if c \<noteq> CHR ''='' then None
               else let v = dropWhile js_space v
                    in if list_all js_space (dropWhile (Not \<circ> line_end) v)
                       then Some (name, takeWhile (Not \<circ> line_end) v) else None)"

fun split_lines :: "string \<Rightarrow> string list" where
  "split_lines [] = [[]]"
| "split_lines (c # s) =
     (if c = CHR 0x0A then [] # split_lines s
      else case split_lines s of [] \<Rightarrow> [[c]] | l # ls \<Rightarrow> (c # l) # ls)"

type_synonym environment = "string \<Rightarrow> string option"

definition set_if_missing :: "string \<Rightarrow> environment \<Rightarrow> environment" where
  "set_if_missing line vars =
     (case env_line line of
        None \<Rightarrow> vars
      | Some (k, v) \<Rightarrow> if vars k = None then vars(k \<mapsto> v) else vars)"

text \<open>\<open>None\<close>: the file could not be read.\<close>

definition load_env_file :: "string option \<Rightarrow> environment \<Rightarrow> environment" where
  "load_env_file file vars =
     (case file of None \<Rightarrow> vars | Some text \<Rightarrow> fold set_if_missing (split_lines text) vars)"

section \<open>Calls\<close>

datatype http_method = GET | POST

record http_call =
  call_method :: http_method
  call_url :: string
  call_body :: "json option"

text \<open>A reply with its status and parsed body, or what \<open>fetch\<close> or \<open>json\<close> rejected with.\<close>

datatype http_answer = HttpReply nat json | HttpFailed string

text \<open>
  Thrown errors. \<open>CallFailed\<close> holds the pieces of its message; \<open>TypeError\<close> is what reading a property
  of \<open>null\<close> or \<open>undefined\<close> throws.
\<close>

datatype signer_error =
    Usage
  | FetchFailed string
  | CallFailed http_method string nat "json option" "json option"
  | TypeError
  | NotAwaiting string "json option"
  | BlobMismatch
  | LibraryError string

type_synonym 'r script = "(unit, signer_error, http_call, http_answer, 'r) io"

text \<open>\<open>v.k\<close> and \<open>v?.k\<close>, for names that no value inherits.\<close>

fun member :: "json option \<Rightarrow> string \<Rightarrow> signer_error + json option" where
  "member None k = Inl TypeError"
| "member (Some JNull) k = Inl TypeError"
| "member (Some (JObj ob)) k = Inr (field ob k)"
| "member (Some v) k = Inr None"

definition optional_member :: "json option \<Rightarrow> string \<Rightarrow> json option" where
  "optional_member v k = (case member v k of Inl e \<Rightarrow> None | Inr x \<Rightarrow> x)"

definition envelope_data :: "http_method \<Rightarrow> string \<Rightarrow> nat \<Rightarrow> json \<Rightarrow> signer_error + json" where
  "envelope_data m url st payload =
     (let refused = rbind (member (Some payload) ''error'') (\<lambda>e.
            Inl (CallFailed m url st (optional_member e ''code'') (optional_member e ''message'')))
      in if \<not> (200 \<le> st \<and> st < 300) then refused
         else rbind (member (Some payload) ''data'') (\<lambda>d. case d of None \<Rightarrow> refused | Some v \<Rightarrow> Inr v))"

definition http :: "http_method \<Rightarrow> string \<Rightarrow> json option \<Rightarrow> json script" where
  "http m url body =
     Call \<lparr>call_method = m, call_url = url, call_body = body\<rparr> (\<lambda>a. case a of
       HttpFailed e \<Rightarrow> Throw (FetchFailed e)
     | HttpReply st payload \<Rightarrow> lift_result (envelope_data m url st payload))"

section \<open>Signing\<close>

record 'k wallet =
  w_from_seed :: "string \<Rightarrow> string + 'k"
  w_sign :: "'k \<Rightarrow> object \<Rightarrow> string + string \<times> string"

fun library :: "string + 'a \<Rightarrow> signer_error + 'a" where
  "library (Inl m) = Inl (LibraryError m)"
| "library (Inr x) = Inr x"

lemma library_Inr [simp]: "library m = Inr x \<longleftrightarrow> m = Inr x"
  by (cases m) auto

text \<open>The own properties a rest pattern collects; \<open>undefined\<close> has none to give.\<close>

fun rest_of :: "json option \<Rightarrow> signer_error + object" where
  "rest_of (Some (JObj ob)) = Inr ob"
| "rest_of (Some (JArr vs)) = Inr (zip (map decimal [0..<length vs]) vs)"
| "rest_of (Some (JStr s)) = Inr (zip (map decimal [0..<length s]) (map (\<lambda>c. JStr [c]) s))"
| "rest_of (Some (JBool b)) = Inr []"
| "rest_of (Some (JNum n)) = Inr []"
| "rest_of (Some (JDec t)) = Inr []"
| "rest_of v = Inl TypeError"

definition signer_canonical :: "object \<Rightarrow> object" where
  "signer_canonical tx =
     (case field tx ''DeliverMax'' of
        None \<Rightarrow> without [''DeliverMax''] tx
      | Some v \<Rightarrow> put ''Amount'' v (without [''DeliverMax''] tx))"

text \<open>What is shown must be awaiting a signature and encode to the prepared blob.\<close>

definition checked_canonical :: "codec \<Rightarrow> string \<Rightarrow> json \<Rightarrow> signer_error + object" where
  "checked_canonical X i intent =
     rbind (member (Some intent) ''status'') (\<lambda>st.
       let tx = optional_member (Some intent) ''transaction'';
           blob = optional_member (Some intent) ''preparedTxBlob''
       in if st \<noteq> Some (JStr ''AWAITING_SIGNATURE'') \<or> tx = Some JNull \<or> blob = Some JNull
          then Inl (NotAwaiting i st)
          else rbind (rest_of tx) (\<lambda>fields.
            let canonical = signer_canonical fields
            in rbind (library (x_encode X canonical)) (\<lambda>b.
                 if Some (JStr (upper b)) \<noteq> blob then Inl BlobMismatch else Inr canonical)))"

definition intent_url :: "string \<Rightarrow> string \<Rightarrow> string" where
  "intent_url base i = base @ ''/v1/intents/'' @ i"

definition sign_intent :: "codec \<Rightarrow> 'k wallet \<Rightarrow> string \<Rightarrow> string \<Rightarrow> string \<Rightarrow> unit script" where
  "sign_intent X W seed base i =
     await (http GET (intent_url base i) None) (\<lambda>intent.
     await (lift_result (checked_canonical X i intent)) (\<lambda>canonical.
     await (lift_result (library (w_from_seed W seed))) (\<lambda>key.
     await (lift_result (library (w_sign W key canonical))) (\<lambda>(tx_blob, hash).
     await (http POST (intent_url base i @ ''/signature'') (Some (JObj [(''txBlob'', JStr tx_blob)]))) (\<lambda>signed.
     await (lift_result (member (Some signed) ''status'')) (\<lambda>_.
     await (http POST (intent_url base i @ ''/submit'') None) (\<lambda>submitted.
     await (lift_result (member (Some submitted) ''status'')) (\<lambda>_.
     await (lift_result (member (Some submitted) ''submission'')) (\<lambda>submission.
     await (lift_result (member submission ''engineResult'')) (\<lambda>_.
     Return ()))))))))))"

definition signer_main ::
  "codec \<Rightarrow> 'k wallet \<Rightarrow> string option \<Rightarrow> environment \<Rightarrow> string option \<Rightarrow> unit script" where
  "signer_main X W file vars argument =
     (let vars = load_env_file file vars;
          base = (case vars ''ORCHESTRATOR_URL'' of None \<Rightarrow> ''http://127.0.0.1:3000'' | Some url \<Rightarrow> url)
      in case (argument, vars ''XRPL_TESTNET_SEED'') of
           (Some i, Some seed) \<Rightarrow> if seed = [] then Throw Usage else sign_intent X W seed base i
         | _ \<Rightarrow> Throw Usage)"

section \<open>What leaves the signer\<close>

lemma run_http:
  "run env (http m url body) tr v =
     (let q = \<lparr>call_method = m, call_url = url, call_body = body\<rparr>
      in (case env tr q of HttpFailed e \<Rightarrow> Inl (FetchFailed e) | HttpReply st payload \<Rightarrow> envelope_data m url st payload,
          tr @ [(q, env tr q)], v))"
  by (simp add: http_def Let_def run_lift_result split: http_answer.split)

lemma checked_canonical_Inr:
  assumes "checked_canonical X i intent = Inr c"
  shows "\<exists>ob v b. intent = JObj ob \<and> field ob ''status'' = Some (JStr ''AWAITING_SIGNATURE'') \<and>
     rest_of (field ob ''transaction'') = Inr v \<and> c = signer_canonical v \<and> x_encode X c = Inr b \<and>
     field ob ''preparedTxBlob'' = Some (JStr (upper b))"
proof (cases intent)
  case (JObj ob)
  with assms show ?thesis
    by (cases "rest_of (field ob ''transaction'')"; cases "x_encode X c")
      (auto simp: checked_canonical_def optional_member_def Let_def split: if_splits sum.splits)
qed (use assms in \<open>auto simp: checked_canonical_def optional_member_def Let_def split: if_splits\<close>)

lemma envelope_data_Inr:
  assumes "envelope_data m url st payload = Inr d"
  shows "\<exists>ob. payload = JObj ob \<and> field ob ''data'' = Some d"
  using assms
  by (cases payload) (auto simp: envelope_data_def Let_def split: if_splits option.splits)

text \<open>The two calls after the check: one with the blob, one without a body.\<close>

definition post_signed :: "string \<Rightarrow> string \<Rightarrow> string \<Rightarrow> unit script" where
  "post_signed base i tx_blob =
     await (http POST (intent_url base i @ ''/signature'') (Some (JObj [(''txBlob'', JStr tx_blob)]))) (\<lambda>signed.
     await (lift_result (member (Some signed) ''status'')) (\<lambda>_.
     await (http POST (intent_url base i @ ''/submit'') None) (\<lambda>submitted.
     await (lift_result (member (Some submitted) ''status'')) (\<lambda>_.
     await (lift_result (member (Some submitted) ''submission'')) (\<lambda>submission.
     await (lift_result (member submission ''engineResult'')) (\<lambda>_. Return ()))))))"

lemma run_post_signed:
  assumes "run env (post_signed base i b) tr v = (res, tr', u)"
  shows "\<exists>es. tr' = tr @ es \<and> (\<forall>(q, a) \<in> set es. call_body q \<in> {None, Some (JObj [(''txBlob'', JStr b)])})"
  using assms
  by (auto simp: post_signed_def run_await run_http run_lift_result Let_def split: sum.splits prod.splits)

definition signed_blob :: "codec \<Rightarrow> 'k wallet \<Rightarrow> string \<Rightarrow> string \<Rightarrow> json \<Rightarrow> signer_error + string \<times> string" where
  "signed_blob X W seed i intent =
     rbind (checked_canonical X i intent) (\<lambda>c.
     rbind (library (w_from_seed W seed)) (\<lambda>key. library (w_sign W key c)))"

lemma await_lift_result: "await (lift_result x) k = (case x of Inl e \<Rightarrow> Throw e | Inr y \<Rightarrow> k y)"
  by (cases x) simp_all

lemma sign_intent_posts:
  "sign_intent X W seed base i =
     await (http GET (intent_url base i) None) (\<lambda>intent.
     await (lift_result (signed_blob X W seed i intent)) (\<lambda>(tx_blob, hash). post_signed base i tx_blob))"
proof -
  have "await (lift_result (checked_canonical X i intent)) (\<lambda>c.
      await (lift_result (library (w_from_seed W seed))) (\<lambda>key.
      await (lift_result (library (w_sign W key c))) (\<lambda>(b, h). post_signed base i b))) =
    await (lift_result (signed_blob X W seed i intent)) (\<lambda>(b, h). post_signed base i b)" for intent
    by (auto simp: await_lift_result signed_blob_def split: sum.split)
  then show ?thesis by (simp add: sign_intent_def post_signed_def)
qed

lemma run_sign_intent:
  assumes "run env (sign_intent X W seed base i) [] () = (res, tr, u)"
    and "(q, a) \<in> set tr" and "call_body q = Some body"
  shows "\<exists>st payload d tx_blob hash.
    hd tr = (\<lparr>call_method = GET, call_url = intent_url base i, call_body = None\<rparr>, HttpReply st payload) \<and>
    envelope_data GET (intent_url base i) st payload = Inr d \<and> signed_blob X W seed i d = Inr (tx_blob, hash) \<and>
    body = JObj [(''txBlob'', JStr tx_blob)]"
proof -
  let ?q = "\<lparr>call_method = GET, call_url = intent_url base i, call_body = None\<rparr>"
  let ?tr = "[(?q, env [] ?q)]"
  have no: "tr \<noteq> ?tr" using assms(2,3) by auto
  note run = assms(1)[unfolded sign_intent_posts run_await run_http Let_def]
  from run no obtain st payload d where d: "env [] ?q = HttpReply st payload"
      "envelope_data GET (intent_url base i) st payload = Inr d"
    by (auto split: http_answer.splits sum.splits)
  with run no obtain b h where b: "signed_blob X W seed i d = Inr (b, h)"
      "run env (post_signed base i b) ?tr () = (res, tr, u)"
    by (auto simp: run_lift_result split: sum.splits)
  from run_post_signed[OF b(2)] obtain es where "tr = ?tr @ es"
      "\<forall>(q, a) \<in> set es. call_body q \<in> {None, Some (JObj [(''txBlob'', JStr b)])}" by blast
  with assms(2,3) d b(1) show ?thesis by fastforce
qed

text \<open>
  C37. Whatever the orchestrator answers, the only things the signer sends with a body are signatures made
  with its key on a transaction it was shown as awaiting a signature, and only if the encoding the
  signer computes itself from that transaction is the blob it was shown as prepared.
\<close>

theorem signer_signs_only_what_it_checked:
  assumes "run env (signer_main X W file vars argument) [] () = (res, tr, u)"
    and "(q, a) \<in> set tr" and "call_body q = Some body"
  shows "\<exists>st ob v b seed key tx_blob hash.
    snd (hd tr) = HttpReply st (JObj ob) \<and> call_method (fst (hd tr)) = GET \<and>
    (\<exists>intent. field ob ''data'' = Some (JObj intent) \<and>
      field intent ''status'' = Some (JStr ''AWAITING_SIGNATURE'') \<and>
      rest_of (field intent ''transaction'') = Inr v \<and> field intent ''preparedTxBlob'' = Some (JStr (upper b))) \<and>
    x_encode X (signer_canonical v) = Inr b \<and> w_from_seed W seed = Inr key \<and>
    w_sign W key (signer_canonical v) = Inr (tx_blob, hash) \<and> body = JObj [(''txBlob'', JStr tx_blob)]"
proof -
  obtain base i seed where "run env (sign_intent X W seed base i) [] () = (res, tr, u)"
    using assms by (auto simp: signer_main_def Let_def split: option.splits if_splits)
  from run_sign_intent[OF this assms(2,3)] obtain st payload d tx_blob hash where
    hd: "hd tr = (\<lparr>call_method = GET, call_url = intent_url base i, call_body = None\<rparr>, HttpReply st payload)" and
    d: "envelope_data GET (intent_url base i) st payload = Inr d" and
    b: "signed_blob X W seed i d = Inr (tx_blob, hash)" "body = JObj [(''txBlob'', JStr tx_blob)]"
    by blast
  from b(1) obtain c key where c: "checked_canonical X i d = Inr c" and
    k: "w_from_seed W seed = Inr key" "w_sign W key c = Inr (tx_blob, hash)"
    by (auto simp: signed_blob_def library_Inr)
  from envelope_data_Inr[OF d] checked_canonical_Inr[OF c] hd k b(2) show ?thesis by fastforce
qed

section \<open>The signer and the service\<close>

text \<open>
  A client against a server \<open>sv\<close>: every call of the client is answered by the state of the server, which
  it may change.
\<close>

primrec converse :: "('w \<Rightarrow> 'q \<Rightarrow> 'a \<times> 'w) \<Rightarrow> ('v, 'e, 'q, 'a, 'r) io \<Rightarrow> 'v \<Rightarrow> 'w \<Rightarrow> ('e + 'r) \<times> 'w" where
  "converse sv (Return x) = (\<lambda>v w. (Inr x, w))"
| "converse sv (Throw e) = (\<lambda>v w. (Inl e, w))"
| "converse sv (Atom g p) = (\<lambda>v w. converse sv (p NoFault v) (g NoFault v) w)"
| "converse sv (Call q p) = (\<lambda>v w. case sv w q of (a, w') \<Rightarrow> converse sv (p a) v w')"

text \<open>The calls of the signer as requests of the interface.\<close>

definition parsed_call :: "string \<Rightarrow> string \<Rightarrow> http_call \<Rightarrow> http_request option" where
  "parsed_call base i q =
     (if call_method q = GET
      then if call_url q = intent_url base i then Some (GetIntent i) else None
      else if call_url q = intent_url base i @ ''/signature''
      then (case call_body q of
              Some (JObj [(k, JStr b)]) \<Rightarrow> if k = ''txBlob'' then Some (PostSignature i b) else None
            | _ \<Rightarrow> None)
      else if call_url q = intent_url base i @ ''/submit'' then Some (PostSubmit i) else None)"

text \<open>The service, each request alone, with the network \<open>nets\<close> shows it.\<close>

definition service_answer ::
  "codec \<Rightarrow> nat \<Rightarrow> validator \<Rightarrow> (string \<Rightarrow> bool) \<Rightarrow> (http_request \<Rightarrow> (env_call, env_answer) answers)
    \<Rightarrow> string \<Rightarrow> string \<Rightarrow> world \<Rightarrow> http_call \<Rightarrow> http_answer \<times> world" where
  "service_answer X N val u nets base i w q =
     (case parsed_call base i q of
        None \<Rightarrow> (HttpReply 404 (JObj []), w)
      | Some req \<Rightarrow>
          (case run (nets req) (respond [] (route_of X N val u req)) [] w of
             (Inl e, tr, w') \<Rightarrow> (HttpFailed [], w')
           | (Inr (st, body), tr, w') \<Rightarrow> (HttpReply st body, w')))"

lemma converse_await:
  "converse sv (await p k) v w =
     (case converse sv p v w of
        (Inl e, w') \<Rightarrow> (Inl e, w')
      | (Inr x, w') \<Rightarrow> converse sv (k x) v w')"
  for sv :: "'w \<Rightarrow> 'q \<Rightarrow> 'a \<times> 'w" and v :: unit
  by (induction p arbitrary: w) (auto split: prod.split)

lemma converse_lift_result: "converse sv (lift_result x) v w = (x, w)"
  by (cases x) simp_all

lemma converse_http:
  assumes "sv w \<lparr>call_method = m, call_url = url, call_body = body\<rparr> = (HttpReply 200 (data d), w')"
  shows "converse sv (http m url body) v w = (Inr d, w')"
  using assms by (simp add: http_def envelope_data_def data_def field_def converse_lift_result)

text \<open>What the signer makes of the view of a prepared intent is what the service prepared.\<close>

lemma signer_canonical_prepared:
  assumes "tx = build_transaction p params" and "to_canonical_form tx = Inr c"
  shows "signer_canonical tx = c"
proof (cases p)
  case (PaymentIntent a d am tag)
  then show ?thesis
    using assms
    by (cases tag) (auto simp: signer_canonical_def to_canonical_form_def builder_defs field_def has_field_def without_def)
next
  case (TrustSetIntent a c i v)
  then show ?thesis
    using assms by (auto simp: signer_canonical_def to_canonical_form_def builder_defs field_def without_def)
qed

lemma checked_canonical_view:
  assumes ok: "prepared_ok X N r" and s: "status r = AWAITING_SIGNATURE"
  shows "\<exists>tx c. prepared_tx_json r = Some (JObj tx) \<and> to_canonical_form tx = Inr c \<and>
    checked_canonical X i (JObj (detail_object r)) = Inr c"
proof -
  obtain p fee seq ledger tx blob where tx: "prepared_as X N p fee seq ledger tx blob"
      "prepared_tx_json r = Some (JObj tx)" "prepared_tx_blob r = Some blob"
    using ok unfolding prepared_ok_def by blast
  then obtain params where b: "tx = build_transaction p params" and enc: "encode_transaction X tx = Inr blob"
    by (auto simp: prepared_as_def)
  from enc obtain c e where c: "to_canonical_form tx = Inr c" "x_encode X c = Inr e" "upper e = blob"
    by (auto simp: encode_transaction_def)
  have shown: "ordered_transaction (prepared_tx_json r) = JObj tx"
    using ordered_fields_build[of tx p params] b tx(2) by (simp add: ordered_transaction_def)
  have "checked_canonical X i (JObj (detail_object r)) = Inr c"
    using signer_canonical_prepared[OF b c(1)] c tx(3) s shown
    by (simp add: checked_canonical_def optional_member_def detail_object_def field_def or_null_def)
  with tx(2) c(1) show ?thesis by blast
qed

text \<open>What the service answers the three calls.\<close>

lemma answer_view:
  assumes "find_row i w = Some r" and "intent_payload r = JObj (payload_object p)" and "u i"
  shows "service_answer X N val u nets base i w \<lparr>call_method = GET, call_url = intent_url base i, call_body = None\<rparr> =
     (HttpReply 200 (data (JObj (detail_object r))), w)"
  using assms
  by (simp add: service_answer_def parsed_call_def respond_def run_try_catch get_route_def with_uuid_def run_await
      get_intent_def run_load reply_detail_def present_detail_def run_lift_result)

lemma answer_signature:
  assumes "run (nets (PostSignature i b)) (attach_signature X i b) [] w = (Inr r, tr, w')"
    and "status r = SIGNED" and "u i"
  shows "service_answer X N val u nets base i w \<lparr>call_method = POST, call_url = intent_url base i @ ''/signature'',
       call_body = Some (JObj [(''txBlob'', JStr b)])\<rparr> = (HttpReply 200 (data (present_signed r)), w')"
  using assms
  by (simp add: service_answer_def parsed_call_def respond_def run_try_catch signature_route_def with_uuid_def run_await)

lemma answer_submit:
  assumes "run (nets (PostSubmit i)) (submit i) [] w = (Inr r, tr, w')"
    and "status r \<noteq> VALIDATED" and "u i"
  shows "service_answer X N val u nets base i w \<lparr>call_method = POST, call_url = intent_url base i @ ''/submit'',
       call_body = None\<rparr> = (HttpReply 200 (data (present_submitted r)), w')"
  using assms
  by (simp add: service_answer_def parsed_call_def respond_def run_try_catch submit_route_def with_uuid_def run_await)

lemma converse_post_signed:
  assumes "sv w \<lparr>call_method = POST, call_url = intent_url base i @ ''/signature'',
       call_body = Some (JObj [(''txBlob'', JStr b)])\<rparr> = (HttpReply 200 (data (present_signed r1)), w1)"
    and "sv w1 \<lparr>call_method = POST, call_url = intent_url base i @ ''/submit'', call_body = None\<rparr> =
       (HttpReply 200 (data (present_submitted r2)), w2)"
  shows "converse sv (post_signed base i b) () w = (Inr (), w2)"
  by (simp add: post_signed_def converse_await converse_http[where sv = sv, OF assms(1)] converse_http[where sv = sv, OF assms(2)]
      converse_lift_result present_signed_def present_submitted_def field_def)

text \<open>
  C36. The signer of the demo and the service understand each other: for an intent awaiting its signature,
  a wallet whose signature on the canonical transaction verifies, and a network that lets the key
  sign and takes the submission, the script ends without an error, and the intent is SUBMITTED with
  exactly the blob the wallet made.
\<close>

theorem signer_and_service_agree:
  assumes "execution X N w log" and "recovered w" and "find_row i w = Some r" and "u i"
    and "status r = AWAITING_SIGNATURE" and "prepared_tx_json r = Some (JObj tx)"
    and "to_canonical_form tx = Inr c" and "prepared_tx_blob r = Some pb" and "sequence r = Some seq"
    and "last_ledger_sequence r = Some high" and "submission_attempt_count r < 2147483647"
    and "w_from_seed W seed = Inr key" and "w_sign W key c = Inr (b, h)"
    and "verify X b pb = Inr v" and "hash64 (vb_transaction_hash v)"
    and "\<And>q. q \<in> set (intents w) \<Longrightarrow> intent_id q \<noteq> i \<Longrightarrow> transaction_hash q \<noteq> Some (vb_transaction_hash v)"
    and "authorizes X (nets (PostSignature i b)) (vb_signing_pub_key v) (source_account r) n seq" and "n \<le> high"
    and "takes_submission (nets (PostSubmit i)) (upper b) m res raw" and "m \<le> high"
    and "\<not> starts_with ''tem'' (sub_engine_result res)"
  shows "\<exists>w' r'. converse (service_answer X N val u nets base i) (sign_intent X W seed base i) () w = (Inr (), w') \<and>
    find_row i w' = Some r' \<and> status r' = SUBMITTED \<and> signed_tx_blob r' = Some (upper b)"
proof -
  let ?sv = "service_answer X N val u nets base i"
  note ok = execution_world_ok[OF assms(1)]
  have r: "row_ok X N r" using find_row_SomeD[OF assms(3)] ok by (simp add: world_ok_def)
  obtain p where p: "intent_payload r = JObj (payload_object p)" using r by (auto simp: row_ok_def identity_ok_def)
  have "checked_canonical X i (JObj (detail_object r)) = Inr c"
    using checked_canonical_view[OF row_ok_prepared[OF r] assms(5)] assms(5-7) by auto
  then have blob: "signed_blob X W seed i (JObj (detail_object r)) = Inr (b, h)"
    using assms(12,13) by (simp add: signed_blob_def)
  have "is_sequence_active r" using assms(5) by (simp add: is_sequence_active_def status_groups)
  then have unopp: "unopposed i r w" by (rule active_unopposed[OF ok assms(3)])
  obtain tr1 w1 where 1: "run (nets (PostSignature i b)) (attach_signature X i b) [] w = (Inr (signed_row r v (clock w)), tr1, w1)"
      "reaches i (signed_row r v (clock w)) w w1"
    using run_attach[OF unopp assms(2,5,8-10,14-18), of "[]"] by blast
  have u1: "unopposed i (signed_row r v (clock w)) w1" "recovered w1" using 1(2) assms(2) by (auto simp: reaches_def)
  define r2 where "r2 = submitted_row (signed_row r v (clock w)) m res raw (clock w1)"
  obtain tr2 w2 where 2: "run (nets (PostSubmit i)) (submit i) [] w1 = (Inr r2, tr2, w2)" "reaches i r2 w1 w2"
    using run_submit[OF u1, of "upper b" high "nets (PostSubmit i)" m res raw "[]"] assms(10,11,19,20) verify_tx_blob[OF assms(14)]
    unfolding r2_def by auto
  have s2: "status r2 = SUBMITTED" "signed_tx_blob r2 = Some (upper b)"
    using assms(21) verify_tx_blob[OF assms(14)] by (simp_all add: r2_def submitted_row_simps)
  have "converse ?sv (post_signed base i b) () w = (Inr (), w2)"
    using s2(1) assms(4)
    by (intro converse_post_signed[where sv = ?sv, OF answer_signature[where nets = nets and u = u, OF 1(1)]
        answer_submit[where nets = nets and u = u, OF 2(1)]]) simp_all
  then have "converse ?sv (sign_intent X W seed base i) () w = (Inr (), w2)"
    by (simp add: sign_intent_posts converse_await converse_http[where sv = ?sv, OF answer_view[where nets = nets and u = u, OF assms(3) p assms(4)]]
        converse_lift_result blob)
  then show ?thesis using s2 2(2) by (auto simp: reaches_def unopposed_def)
qed

definition demo_wallet :: "string wallet" where
  "demo_wallet = \<lparr>w_from_seed = \<lambda>seed. Inr seed, w_sign = \<lambda>k c. Inr (''abcdef'', demo_hash)\<rparr>"

definition demo_nets :: "http_request \<Rightarrow> (env_call, env_answer) answers" where
  "demo_nets req = demo_env (at_ledger (case req of PostSubmit i \<Rightarrow> 102 | _ \<Rightarrow> 101))"

lemma demo_awaiting_prepared:
  "prepared_tx_json demo_awaiting = Some (JObj demo_transaction)" "prepared_tx_blob demo_awaiting = Some ''ABCD''"
  "sequence demo_awaiting = Some 7" "last_ledger_sequence demo_awaiting = Some 120"
  "submission_attempt_count demo_awaiting = 0" "transaction_hash demo_awaiting = None"
  "source_account demo_awaiting = ''rAlice''"
  by (simp_all add: demo_awaiting_def demo_simulated_def demo_prepared_def moved_def prepared_transition_def
      demo_created_def new_row_def demo_payload_def)

theorem signer_and_service_agree_witness:
  "\<exists>w w' r'. intents w = [demo_awaiting] \<and>
     converse (service_answer demo_codec 2 demo_validator (\<lambda>i. True) demo_nets ''http://h'' ''id1'')
       (sign_intent demo_codec demo_wallet ''sEd'' ''http://h'' ''id1'') () w = (Inr (), w') \<and>
     find_row ''id1'' w' = Some r' \<and> status r' = SUBMITTED \<and> signed_tx_blob r' = Some (upper ''abcdef'')"
proof -
  obtain w log where e: "execution demo_codec 2 w log" and w: "demo_state w demo_awaiting True"
    using arrival_history[OF arrival_awaiting] unfolding history_def by blast
  let ?v = "\<lparr>vb_tx_blob = ''ABCDEF'', vb_transaction_hash = demo_hash, vb_signing_pub_key = ''ED01''\<rparr>"
  obtain c where c: "to_canonical_form demo_transaction = Inr c" using demo_canonical by blast
  have up: "upper ''abcdef'' = ''ABCDEF''" by code_simp
  have r: "find_row ''id1'' w = Some demo_awaiting" "recovered w" using w by (simp_all add: demo_state_def find_row_def)
  have fresh: "transaction_hash q \<noteq> Some (vb_transaction_hash ?v)"
    if "q \<in> set (intents w)" "intent_id q \<noteq> ''id1''" for q
    using that w by (simp add: demo_state_def)
  have wallet: "w_from_seed demo_wallet ''sEd'' = Inr ''sEd''" "w_sign demo_wallet ''sEd'' c = Inr (''abcdef'', demo_hash)"
    by (simp_all add: demo_wallet_def)
  have auth: "authorizes demo_codec (demo_nets (PostSignature ''id1'' ''abcdef'')) (vb_signing_pub_key ?v)
      (source_account demo_awaiting) 101 7"
    using demo_authorizes by (simp add: demo_nets_def demo_awaiting_prepared)
  have takes: "takes_submission (demo_nets (PostSubmit ''id1'')) (upper ''abcdef'') 102 (demo_submitted (at_ledger 102))
      [(''engine_result'', JStr ''tesSUCCESS'')]"
    using demo_takes_submission by (simp add: demo_nets_def up)
  have tes: "\<not> starts_with ''tem'' (sub_engine_result (demo_submitted (at_ledger 102)))"
    by (simp add: demo_submitted_def starts_with_def)
  have side: "u ''id1''" "status demo_awaiting = AWAITING_SIGNATURE" "submission_attempt_count demo_awaiting < 2147483647"
      "hash64 (vb_transaction_hash ?v)" "101 \<le> (120 :: nat)" "102 \<le> (120 :: nat)"
    if "u = (\<lambda>i. True)" for u :: "string \<Rightarrow> bool"
    using that by (simp_all add: demo_awaiting_prepared demo_hash_ok)
  note side = side[OF refl]
  show ?thesis
    using signer_and_service_agree[where val = demo_validator and base = "''http://h''",
        OF e r(2,1) side(1,2) demo_awaiting_prepared(1) c demo_awaiting_prepared(2-4) side(3) wallet demo_verify
          side(4) fresh auth side(5) takes side(6) tes] w
    unfolding demo_state_def by blast
qed

text \<open>An orchestrator that shows the intent and then hangs up.\<close>

definition demo_orchestrator :: "(http_call, http_answer) answers" where
  "demo_orchestrator tr q =
     (if call_method q = GET then HttpReply 200 (data (JObj (detail_object demo_awaiting))) else HttpFailed [])"

lemma demo_env_file:
  "load_env_file (Some ''XRPL_TESTNET_SEED=sEd'') (\<lambda>k. None) = [''XRPL_TESTNET_SEED'' \<mapsto> ''sEd'']"
proof -
  have "split_lines ''XRPL_TESTNET_SEED=sEd'' = [''XRPL_TESTNET_SEED=sEd'']"
    "env_line ''XRPL_TESTNET_SEED=sEd'' = Some (''XRPL_TESTNET_SEED'', ''sEd'')"
    by code_simp+
  then show ?thesis by (simp add: load_env_file_def set_if_missing_def)
qed

lemma demo_signer_run:
  "\<exists>q0 q1 a0. run demo_orchestrator (signer_main demo_codec demo_wallet (Some ''XRPL_TESTNET_SEED=sEd'') (\<lambda>k. None)
       (Some ''id1'')) [] () = (Inl (FetchFailed []), [(q0, a0), (q1, HttpFailed [])], ()) \<and>
     call_body q1 = Some (JObj [(''txBlob'', JStr ''abcdef'')])"
proof -
  obtain w log where e: "execution demo_codec 2 w log" and w: "demo_state w demo_awaiting True"
    using arrival_history[OF arrival_awaiting] unfolding history_def by blast
  have "row_ok demo_codec 2 demo_awaiting" using execution_world_ok[OF e] w by (simp add: world_ok_def demo_state_def)
  then have "prepared_ok demo_codec 2 demo_awaiting" by (rule row_ok_prepared) simp
  from checked_canonical_view[OF this] obtain c where
    "checked_canonical demo_codec ''id1'' (JObj (detail_object demo_awaiting)) = Inr c" by auto
  then have b: "signed_blob demo_codec demo_wallet ''sEd'' ''id1'' (JObj (detail_object demo_awaiting)) = Inr (''abcdef'', demo_hash)"
    by (simp add: signed_blob_def demo_wallet_def)
  let ?base = "''http://127.0.0.1:3000''"
  let ?q1 = "\<lparr>call_method = POST, call_url = intent_url ?base ''id1'' @ ''/signature'',
      call_body = Some (JObj [(''txBlob'', JStr ''abcdef'')])\<rparr>"
  have post: "run demo_orchestrator (post_signed ?base ''id1'' ''abcdef'') tr () =
      (Inl (FetchFailed []), tr @ [(?q1, HttpFailed [])], ())" for tr
    unfolding post_signed_def run_await run_http demo_orchestrator_def Let_def by simp
  have get: "run demo_orchestrator (http GET url None) [] () =
      (Inr (JObj (detail_object demo_awaiting)),
       [(\<lparr>call_method = GET, call_url = url, call_body = None\<rparr>, HttpReply 200 (data (JObj (detail_object demo_awaiting))))], ())" for url
    unfolding run_http demo_orchestrator_def Let_def by (simp add: envelope_data_def data_def field_def)
  have "signer_main demo_codec demo_wallet (Some ''XRPL_TESTNET_SEED=sEd'') (\<lambda>k. None) (Some ''id1'') =
      sign_intent demo_codec demo_wallet ''sEd'' ?base ''id1''"
    unfolding signer_main_def demo_env_file Let_def by simp
  then show ?thesis
    unfolding sign_intent_posts by (simp add: run_await get b run_lift_result post)
qed

theorem signer_signs_only_what_it_checked_witness:
  "\<exists>tr q a body tx_blob. (q, a) \<in> set tr \<and> call_body q = Some body \<and> body = JObj [(''txBlob'', JStr tx_blob)] \<and>
     run demo_orchestrator (signer_main demo_codec demo_wallet (Some ''XRPL_TESTNET_SEED=sEd'') (\<lambda>k. None)
       (Some ''id1'')) [] () = (Inl (FetchFailed []), tr, ()) \<and> call_method (fst (hd tr)) = GET"
proof -
  obtain q0 q1 a0 where r: "run demo_orchestrator (signer_main demo_codec demo_wallet (Some ''XRPL_TESTNET_SEED=sEd'')
      (\<lambda>k. None) (Some ''id1'')) [] () = (Inl (FetchFailed []), [(q0, a0), (q1, HttpFailed [])], ())"
    and b: "call_body q1 = Some (JObj [(''txBlob'', JStr ''abcdef'')])"
    using demo_signer_run by auto
  have "(q1, HttpFailed []) \<in> set [(q0, a0), (q1, HttpFailed [])]" by simp
  note this signer_signs_only_what_it_checked[OF r this b]
  then show ?thesis using r b by (metis (no_types, lifting))
qed

text \<open>Blanks at the end of a value are kept, although the pattern ends in \<open>\s*\<close>.\<close>

lemma env_line_keeps_trailing_blanks: "env_line ''SEED = sEd '' = Some (''SEED'', ''sEd '')"
  by code_simp

end
