(* ===== verification/Health.thy ===== *)
theory Health
  imports Presenter Connection
begin

text \<open>
  Health and status (\<open>src/health/health.service.ts\<close>, \<open>health.controller.ts\<close>). The status of the
  connection manager is an argument: it is read in the same turn as the memory of the finality
  service.
\<close>

section \<open>Reports\<close>

definition is_reachable :: "bool svc" where
  "is_reachable = try_catch (db (\<lambda>w. (Inr True, w))) (\<lambda>_. Return False)"

text \<open>\<open>status\<close> and \<open>isRecovered\<close> of the finality service.\<close>

definition finality_status :: "world \<Rightarrow> finality_health \<times> string option" where
  "finality_status w = (health w, map_option (\<lambda>t. iso_text (int t)) (last_successful_cycle_at w))"

definition is_recovered :: "world \<Rightarrow> bool" where
  "is_recovered w = recovered w"

text \<open>The checks as shown: database, XRPL, definitions and subscription up, then the finality service.\<close>

record readiness_checks =
  check_database :: bool
  check_xrpl :: bool
  check_definitions_ok :: bool
  check_subscription :: bool
  check_finality :: string
  check_recovery :: bool

record readiness_report =
  report_ready :: bool
  report_checks :: readiness_checks

fun finality_text :: "finality_health \<Rightarrow> string" where
  "finality_text HEALTHY = ''healthy''"
| "finality_text DEGRADED = ''degraded''"
| "finality_text STARTING = ''starting''"

definition readiness_of :: "bool \<Rightarrow> connection_status \<Rightarrow> world \<Rightarrow> readiness_report" where
  "readiness_of database xrpl w =
     \<lparr>report_ready =
        (database \<and> cs_connected xrpl \<and> cs_network_id xrpl \<noteq> None \<and> cs_definitions_compatible xrpl \<and>
         cs_ledger_subscription xrpl \<and> fst (finality_status w) \<noteq> DEGRADED \<and> is_recovered w),
      report_checks =
        \<lparr>check_database = database, check_xrpl = cs_connected xrpl,
         check_definitions_ok = cs_definitions_compatible xrpl,
         check_subscription = cs_ledger_subscription xrpl,
         check_finality = finality_text (fst (finality_status w)), check_recovery = is_recovered w\<rparr>\<rparr>"

definition readiness :: "connection_status \<Rightarrow> readiness_report svc" where
  "readiness xrpl =
     await is_reachable (\<lambda>database. sync (\<lambda>w. (Inr (readiness_of database xrpl w), w)))"

text \<open>\<open>GET /readyz\<close>: the status line and the report.\<close>

definition readyz :: "connection_status \<Rightarrow> (nat \<times> readiness_report) svc" where
  "readyz xrpl =
     await (readiness xrpl) (\<lambda>report. Return (if report_ready report then 200 else 503, report))"

text \<open>\<open>GET /healthz\<close>: the process is alive, whatever else is not.\<close>

definition healthz :: json where
  "healthz = JObj [(''status'', JStr ''ok'')]"

fun status_key :: "intent_status \<Rightarrow> string" where
  "status_key CREATED = ''created''"
| "status_key PREPARED = ''prepared''"
| "status_key SIMULATED = ''simulated''"
| "status_key AWAITING_SIGNATURE = ''awaitingSignature''"
| "status_key SIGNED = ''signed''"
| "status_key SUBMITTED = ''submitted''"
| "status_key VALIDATED = ''validated''"
| "status_key REJECTED = ''rejected''"
| "status_key EXPIRED = ''expired''"
| "status_key FAILED = ''failed''"

record status_report =
  sr_database :: bool
  sr_xrpl :: connection_status
  sr_finality :: "finality_health \<times> string option"
  sr_intents :: "(string \<times> nat) list"

definition count_table :: "(intent_status \<Rightarrow> nat option) \<Rightarrow> (string \<times> nat) list" where
  "count_table counts =
     map (\<lambda>s. (status_key s, case counts s of None \<Rightarrow> 0 | Some n \<Rightarrow> n)) intent_statuses"

definition status_report_of :: "connection_status \<Rightarrow> status_report svc" where
  "status_report_of xrpl =
     await is_reachable (\<lambda>up.
     await (if up then count_by_status else Return (\<lambda>_. None)) (\<lambda>counts.
     sync (\<lambda>w. (Inr \<lparr>sr_database = up, sr_xrpl = xrpl, sr_finality = finality_status w,
                    sr_intents = count_table counts\<rparr>, w))))"

text \<open>\<open>GET /v1/status\<close>: the report as JSON, the status of the connection inside.\<close>

definition connection_status_json :: "connection_status \<Rightarrow> json" where
  "connection_status_json c =
     JObj [(''connected'', JBool (cs_connected c)),
           (''endpoint'', or_null (JStr \<circ> endpoint_text) (cs_endpoint c)),
           (''networkId'', or_null (JNum \<circ> int) (cs_network_id c)),
           (''buildVersion'', or_null JStr (cs_build_version c)),
           (''validatedLedger'', or_null (JNum \<circ> int) (cs_validated_ledger c)),
           (''definitionsCompatible'', JBool (cs_definitions_compatible c)),
           (''ledgerSubscription'', JBool (cs_ledger_subscription c))]"

fun health_name :: "finality_health \<Rightarrow> string" where
  "health_name STARTING = ''STARTING''"
| "health_name HEALTHY = ''HEALTHY''"
| "health_name DEGRADED = ''DEGRADED''"

definition status_json :: "status_report \<Rightarrow> json" where
  "status_json report =
     JObj [(''database'', JStr (if sr_database report then ''up'' else ''down'')),
           (''xrpl'', connection_status_json (sr_xrpl report)),
           (''finality'', JObj [(''status'', JStr (health_name (fst (sr_finality report)))),
                              (''lastSuccessfulCycleAt'', or_null JStr (snd (sr_finality report)))]),
           (''intents'', JObj (map (\<lambda>(k, n). (k, JNum (int n))) (sr_intents report)))]"

definition status_route :: "connection_status \<Rightarrow> json svc" where
  "status_route xrpl =
     await (status_report_of xrpl) (\<lambda>report. Return (JObj [(''data'', status_json report)]))"

section \<open>What they show\<close>

lemma status_partition: "(\<Sum>s \<leftarrow> intent_statuses. length (filter (\<lambda>r. status r = s) rs)) = length rs"
proof (induction rs)
  case (Cons r rs)
  have "(\<Sum>s \<leftarrow> intent_statuses. length (filter (\<lambda>x. status x = s) (r # rs))) =
      (\<Sum>s \<leftarrow> intent_statuses. (if status r = s then 1 else 0)) +
      (\<Sum>s \<leftarrow> intent_statuses. length (filter (\<lambda>x. status x = s) rs))"
    by (simp add: intent_statuses_def)
  moreover have "(\<Sum>s \<leftarrow> intent_statuses. if status r = s then 1 else 0) = (1 :: nat)"
    by (cases "status r") (simp_all add: intent_statuses_def)
  ultimately show ?case using Cons by simp
qed (simp add: intent_statuses_def)

lemma wp_is_reachable:
  assumes "\<And>b w'. evolves w w' \<Longrightarrow> world_ok X N w' \<Longrightarrow> Q b tr w'"
  shows "meets X N is_reachable Q E tr w"
  unfolding is_reachable_def wp_try_catch
  by (rule wp_db_read) (auto intro: assms)

lemma wp_sync_read:
  assumes "\<And>w'. evolves w w' \<Longrightarrow> world_ok X N w' \<Longrightarrow> Q (f w') tr w'"
  shows "meets X N (sync (\<lambda>w. (Inr (f w), w))) Q E tr w"
  using assms by (auto simp: wp_sync intro: permitted_refl world_ok_store)

section \<open>Properties\<close>


text \<open>
  The counts of \<open>GET /v1/status\<close> add up to the number of intents in the table at the moment of
  the count, and to zero when the database does not answer: no status is missing or counted twice.
\<close>

lemma status_counts_add_up:
  "meets X N (status_report_of xrpl)
     (\<lambda>report tr' w'. \<exists>w1. evolves w w1 \<and> evolves w1 w' \<and>
        sum_list (map snd (sr_intents report)) = (if sr_database report then length (intents w1) else 0))
     (\<lambda>e tr' w'. e = ConnectionLost) tr w"
proof -
  let ?Q = "\<lambda>report tr' w'. \<exists>w1. evolves w w1 \<and> evolves w1 w' \<and>
    sum_list (map snd (sr_intents report)) = (if sr_database report then length (intents w1) else 0)"
  have total: "sum_list (map snd (count_table (\<lambda>s. let n = length (filter (\<lambda>r. status r = s) rs)
      in if n = 0 then None else Some n))) = length rs" for rs :: "intent_row list"
  proof -
    have "map snd (count_table (\<lambda>s. let n = length (filter (\<lambda>r. status r = s) rs)
        in if n = 0 then None else Some n)) = map (\<lambda>s. length (filter (\<lambda>r. status r = s) rs)) intent_statuses"
      by (simp add: count_table_def Let_def comp_def)
    then show ?thesis using status_partition[of rs] by simp
  qed
  have none: "sum_list (map snd (count_table (\<lambda>_. None))) = 0"
    by (simp add: count_table_def comp_def intent_statuses_def)
  have last: "meets X N (sync (\<lambda>w. (Inr \<lparr>sr_database = up, sr_xrpl = xrpl, sr_finality = finality_status w, sr_intents = count_table counts\<rparr>, w)))
      ?Q (\<lambda>e tr' w'. e = ConnectionLost) tr' w2"
    if "evolves w w2" "sum_list (map snd (count_table counts)) = (if up then length (intents w2) else 0)"
    for up counts tr' w2
    by (rule wp_sync_read) (use that in auto)
  show ?thesis
    unfolding status_report_of_def wp_await
  proof (rule wp_is_reachable, goal_cases)
    case (1 up w2)
    show ?case
    proof (cases up)
      case True
      then have u: "up = True" by simp
      show ?thesis
        unfolding u if_True count_by_status_def
        by (rule wp_db_read, rule last) (use 1 total in \<open>auto intro: evolves_trans\<close>)
    next
      case False
      then show ?thesis using last[OF 1(1), of "\<lambda>_. None" False] none by simp
    qed
  qed
qed

end
