(* ===== verification/Startup.thy ===== *)
theory Startup
  imports Config Http Health
begin

text \<open>
  What surrounds the services: access to the validated configuration
  (\<open>src/config/config.service.ts\<close>, \<open>config.module.ts\<close>), request ids
  (\<open>src/common/request-id/request-id.ts\<close>), the settings of the application (\<open>src/app.setup.ts\<close>) and
  the migration command (\<open>src/database/migrate.ts\<close>). The framework that calls them is not part of it.
\<close>

section \<open>Configuration\<close>

definition app_config_key :: string where
  "app_config_key = ''app''"

text \<open>What the configuration module holds after its \<open>validate\<close> has run on the environment.\<close>

definition load_configuration :: "(string \<Rightarrow> string option) \<Rightarrow> object \<Rightarrow> exn + (string \<Rightarrow> app_config option)" where
  "load_configuration url_protocol env =
     rbind (validate_config url_protocol env) (\<lambda>c. Inr [app_config_key \<mapsto> c])"

definition config_service :: "(string \<Rightarrow> app_config option) \<Rightarrow> exn + app_config" where
  "config_service loaded =
     (case loaded app_config_key of
        None \<Rightarrow> Inl (PlainError ''configuration was not loaded'')
      | Some c \<Rightarrow> Inr c)"

text \<open>The getters; \<open>networkId\<close> is the \<open>N\<close> of the services.\<close>

definition service_database_url :: "app_config \<Rightarrow> string" where "service_database_url = database_url"
definition service_network_id :: "app_config \<Rightarrow> nat" where "service_network_id = xrpl_network_id"
definition service_primary_url :: "app_config \<Rightarrow> string" where "service_primary_url = xrpl_primary_url"
definition service_secondary_url :: "app_config \<Rightarrow> string" where "service_secondary_url = xrpl_secondary_url"
definition service_log_level :: "app_config \<Rightarrow> log_level" where "service_log_level = log_level"
definition service_port :: "app_config \<Rightarrow> nat" where "service_port = port"

lemma config_service_after_load:
  "load_configuration url_protocol env = Inr loaded \<Longrightarrow>
     config_service loaded = validate_config url_protocol env"
  by (cases "validate_config url_protocol env") (auto simp: load_configuration_def config_service_def)

section \<open>Request ids\<close>

definition request_id_header :: string where
  "request_id_header = ''X-Request-Id''"

text \<open>The weak map from raw requests, here numbers, to their ids.\<close>

type_synonym request_ids = "nat \<Rightarrow> string option"

text \<open>The hook: the id of the request, and the headers of its reply.\<close>

definition on_request :: "nat \<Rightarrow> string \<Rightarrow> request_ids \<Rightarrow> request_ids \<times> (string \<times> string) list" where
  "on_request raw uuid ids = (ids(raw \<mapsto> uuid), [(request_id_header, uuid)])"

definition get_request_id :: "request_ids \<Rightarrow> nat \<Rightarrow> string \<Rightarrow> string" where
  "get_request_id ids raw fresh = (case ids raw of None \<Rightarrow> fresh | Some i \<Rightarrow> i)"

text \<open>
  A request from the hook to its reply: headers, status line and body. Other requests may come in
  before the reply; they have ids of their own.
\<close>

definition reply_to ::
  "nat \<Rightarrow> string \<Rightarrow> string \<Rightarrow> (request_ids \<Rightarrow> request_ids) \<Rightarrow> request_ids \<Rightarrow> route
    \<Rightarrow> ((string \<times> string) list \<times> nat \<times> json) svc" where
  "reply_to raw uuid fresh others ids route =
     (let (ids, headers) = on_request raw uuid ids
      in await (respond (get_request_id (others ids) raw fresh) route) (\<lambda>(code, body).
           Return (headers, code, body)))"

definition error_request_id :: "json \<Rightarrow> json option" where
  "error_request_id body =
     (case as_record (Some body) of
        None \<Rightarrow> None
      | Some ob \<Rightarrow> (case as_record (field ob ''error'') of None \<Rightarrow> None | Some e \<Rightarrow> field e ''requestId''))"

lemma errors_carry_the_request_id:
  assumes "run env route tr w = (Inl e, tr', w')" and "\<And>ids. others ids raw = ids raw"
  shows "\<exists>code body. run env (reply_to raw uuid fresh others ids route) tr w =
      (Inr ([(request_id_header, uuid)], code, body), tr', w') \<and> error_request_id body = Some (JStr uuid)"
  using assms
  by (simp add: reply_to_def on_request_def respond_def run_await run_try_catch get_request_id_def
      error_request_id_def error_json_def as_record_def field_def filter_catch_def Let_def)

section \<open>The application\<close>

record app_settings =
  body_limit :: nat
  trust_proxy :: bool
  log_json :: bool
  log_colors :: bool
  log_levels :: "log_level list"
  pipe_whitelist :: bool
  pipe_forbid_unknown :: bool
  pipe_transform :: bool

definition app_settings_for :: "app_config \<Rightarrow> app_settings" where
  "app_settings_for c =
     \<lparr>body_limit = 65536, trust_proxy = False, log_json = True, log_colors = False,
      log_levels = enabled_log_levels (service_log_level c), pipe_whitelist = True,
      pipe_forbid_unknown = True, pipe_transform = True\<rparr>"

text \<open>No valid signature is too big for the adapter: the largest body of one fits the limit.\<close>

lemma length_quote_hex:
  assumes "all_in hex_alphabet s" shows "length (quote s) = length s + 2"
proof -
  have "list_all (\<lambda>c. escape_char c = [c]) hex_alphabet" by code_simp
  then have "\<And>c. c \<in> set s \<Longrightarrow> escape_char c = [c]"
    using assms by (auto simp: all_in_def list_all_iff)
  then have "concat (map escape_char s) = s" by (induction s) simp_all
  then show ?thesis by (simp add: quote_def)
qed

lemma largest_signature_fits:
  assumes "well_formed_hex b"
  shows "length (stringify (JObj [(''txBlob'', JStr b)])) \<le> body_limit (app_settings_for c)"
proof -
  have "length (quote ''txBlob'') = 8" by code_simp
  then show ?thesis
    using assms length_quote_hex[of b]
    by (simp add: well_formed_hex_def is_hex_def signed_tx_max_hex_chars_def app_settings_for_def)
qed

section \<open>Migrations\<close>

datatype migration_call = RunMigrations string | EndPool
datatype migration_answer = Completed | Failed string

text \<open>The state is what was written to the standard output.\<close>

type_synonym migration = "(string, string, migration_call, migration_answer, unit) io"

definition migration_step :: "migration_call \<Rightarrow> migration" where
  "migration_step q = Call q (\<lambda>a. case a of Completed \<Rightarrow> Return () | Failed m \<Rightarrow> Throw m)"

text \<open>\<open>try { p } finally { f }\<close>\<close>

definition finally_do :: "migration \<Rightarrow> migration \<Rightarrow> migration" where
  "finally_do p f = await (try_catch p (\<lambda>e. await f (\<lambda>_. Throw e))) (\<lambda>_. f)"

definition migrate_main :: "string option \<Rightarrow> migration" where
  "migrate_main connection_string =
     (case connection_string of
        None \<Rightarrow> Throw ''DATABASE_URL is required''
      | Some url \<Rightarrow>
          if trim url = [] then Throw ''DATABASE_URL is required''
          else finally_do
                 (await (migration_step (RunMigrations url)) (\<lambda>_.
                  sync (\<lambda>out. (Inr (), out @ ''migrations applied'' @ [CHR 0x0A]))))
                 (migration_step EndPool))"

text \<open>The exit code of the process, its standard output and its error output.\<close>

definition migrate_exit :: "(migration_call, migration_answer) answers \<Rightarrow> string option \<Rightarrow> nat \<times> string \<times> string" where
  "migrate_exit env connection_string =
     (case run env (migrate_main connection_string) [] [] of
        (Inl m, tr, out) \<Rightarrow> (1, out, ''migration failed: '' @ m @ [CHR 0x0A])
      | (Inr _, tr, out) \<Rightarrow> (0, out, []))"

text \<open>With a connection string the migrations run once, and the pool is closed whatever they do.\<close>

lemma migrations_close_the_pool:
  "trim url \<noteq> [] \<Longrightarrow> map fst (fst (snd (run env (migrate_main (Some url)) [] []))) = [RunMigrations url, EndPool]"
  by (auto simp: migrate_main_def finally_do_def migration_step_def run_await run_try_catch run_sync
      split: migration_answer.split)

lemma migration_succeeds_iff:
  "trim url \<noteq> [] \<Longrightarrow> fst (migrate_exit env (Some url)) = 0 \<longleftrightarrow>
     env [] (RunMigrations url) = Completed \<and> env [(RunMigrations url, Completed)] EndPool = Completed"
  by (auto simp: migrate_exit_def migrate_main_def finally_do_def migration_step_def run_await run_try_catch run_sync
      split: migration_answer.split)

end
