(* ===== verification/History.thy ===== *)
theory History
  imports Pool
begin

text \<open>
  Reading the log of a pool backwards: what had happened, since the last crash, before a given
  event. An answer that a handler holds was asked for in that time.
\<close>

section \<open>Each event and what came before it\<close>

definition every_event :: "('e list \<Rightarrow> 'e \<Rightarrow> bool) \<Rightarrow> 'e list \<Rightarrow> bool" where
  "every_event P log \<longleftrightarrow> (\<forall>pre e post. log = pre @ e # post \<longrightarrow> P pre e)"

lemma every_event_Nil [simp]: "every_event P []"
  by (simp add: every_event_def)

lemma every_event_snoc: "every_event P (log @ [e]) \<longleftrightarrow> every_event P log \<and> P log e"
proof
  assume L: "every_event P (log @ [e])"
  have "P pre x" if "log = pre @ x # post" for pre x post
    using L that unfolding every_event_def by (metis append_Cons append_assoc)
  with L show "every_event P log \<and> P log e" unfolding every_event_def by blast
next
  assume R: "every_event P log \<and> P log e"
  have "P pre x" if "log @ [e] = pre @ x # post" for pre x post
    using that R by (cases post rule: rev_cases) (auto simp: every_event_def)
  then show "every_event P (log @ [e])" unfolding every_event_def by blast
qed

lemma every_eventD: "every_event P (pre @ e # post) \<Longrightarrow> P pre e"
  by (auto simp: every_event_def)

definition since_crash :: "('w, 'q, 'a) event list \<Rightarrow> ('w, 'q, 'a) event list" where
  "since_crash log = rev (takeWhile (\<lambda>e. e \<noteq> Crashed) (rev log))"

lemma since_crash_Nil [simp]: "since_crash [] = []"
  by (simp add: since_crash_def)

lemma since_crash_snoc [simp]:
  "since_crash (log @ [e]) = (if e = Crashed then [] else since_crash log @ [e])"
  by (simp add: since_crash_def)

section \<open>Answers and their requests\<close>

definition asked_since :: "('w, 'q, 'a) event list \<Rightarrow> ('q, 'a) trace \<Rightarrow> bool" where
  "asked_since log tr \<longleftrightarrow> (\<forall>q a. (q, a) \<in> set tr \<longrightarrow> (\<exists>w. Sent q w \<in> set (since_crash log)))"

lemma asked_since_Nil [simp]: "asked_since log []"
  by (simp add: asked_since_def)

lemma asked_since_more: "asked_since log tr \<Longrightarrow> e \<noteq> Crashed \<Longrightarrow> asked_since (log @ [e]) tr"
  by (fastforce simp: asked_since_def)

definition asked_before :: "('w, 'q, 'a) event list \<Rightarrow> ('w, 'q, 'a) event \<Rightarrow> bool" where
  "asked_before pre e \<longleftrightarrow> (\<forall>tr w w'. e = Committed tr w w' \<longrightarrow> asked_since pre tr)"

lemma asked_step:
  assumes "pool_step handlers ambient reset c c'"
    and "\<forall>t \<in> set (fst (snd c)). asked_since (snd (snd c)) (fst t)"
    and "every_event asked_before (snd (snd c))"
  shows "(\<forall>t \<in> set (fst (snd c')). asked_since (snd (snd c')) (fst t)) \<and>
    every_event asked_before (snd (snd c'))"
  using assms
proof (induction rule: pool_step.induct)
  case (Commit i ts tr g p w log fl)
  then have "asked_since log tr" by (force dest: nth_mem)
  with Commit show ?case
    by (auto simp: every_event_snoc asked_before_def dest!: set_update_subset_insert[THEN subsetD]
        intro: asked_since_more)
next
  case (Send i ts tr q p w log a)
  then have tr: "asked_since log tr" by (force dest: nth_mem)
  then have "asked_since (log @ [Sent q w]) (tr @ [(q, a)])"
    using asked_since_more[OF tr, of "Sent q w"] by (auto simp: asked_since_def)
  with Send show ?case
    by (auto simp: every_event_snoc asked_before_def dest!: set_update_subset_insert[THEN subsetD]
        intro: asked_since_more)
qed (auto simp: every_event_snoc asked_before_def)

lemma reachable_asked:
  "reachable handlers ambient reset init c \<Longrightarrow>
     (\<forall>t \<in> set (fst (snd c)). asked_since (snd (snd c)) (fst t)) \<and> every_event asked_before (snd (snd c))"
proof (induction rule: reachable.induct)
  case (Step c c')
  then show ?case using asked_step[OF Step(2)] by blast
qed simp

text \<open>Whoever commits had asked, since the last crash, for all it was answered.\<close>

lemma committed_asked:
  assumes "reachable handlers ambient reset init (w, ts, pre @ Committed tr w1 w2 # post)"
    and "(q, a) \<in> set tr"
  obtains w' where "Sent q w' \<in> set (since_crash pre)"
proof -
  have "asked_before pre (Committed tr w1 w2)"
    using reachable_asked[OF assms(1)] by (auto dest: every_eventD)
  with assms(2) that show ?thesis by (auto simp: asked_before_def asked_since_def)
qed

text \<open>An event since the last crash, with what came before it.\<close>

lemma since_crash_split:
  assumes "e \<in> set (since_crash log)"
  obtains pre post where "log = pre @ e # post" and "set (since_crash pre) \<subseteq> set (since_crash log)"
  using assms
proof (induction log arbitrary: thesis rule: rev_induct)
  case (snoc x log)
  then have x: "x \<noteq> Crashed" and e: "e = x \<or> e \<in> set (since_crash log)" by (auto split: if_splits)
  from e show ?case
  proof
    assume "e = x"
    then show ?thesis using snoc.prems(1)[of log "[]"] x by auto
  next
    assume e: "e \<in> set (since_crash log)"
    have more: "set (since_crash log) \<subseteq> set (since_crash (log @ [x]))" using x by auto
    from snoc.IH[OF _ e] obtain pre post where
      "log = pre @ e # post" "set (since_crash pre) \<subseteq> set (since_crash log)" by blast
    with more show ?thesis using snoc.prems(1)[of pre "post @ [x]"] by simp
  qed
qed simp

end
