(* ===== verification/Vetting.thy ===== *)
theory Vetting
  imports Failover
begin

text \<open>
  A second contract of the connection manager, beside the one of \<open>ConnectionLaws\<close>: on whose
  connection a request may leave. What is sent for a caller goes to the client of an endpoint that
  a switch has made active, hence vetted, and what the caller is answered is what such a client
  answered. \<open>wp_both\<close> joins the two contracts into one.
\<close>

section \<open>Two contracts at once\<close>

lemma wp_both:
  assumes "wp I R G C p Q E tr w" and "wp I' R' G' C' p Q' E' tr w"
  shows "wp (\<lambda>w. I w \<and> I' w) (\<lambda>w w'. R w w' \<and> R' w w') (\<lambda>tr w w'. G tr w w' \<and> G' tr w w')
    (\<lambda>q w. C q w \<and> C' q w) p (\<lambda>x tr w. Q x tr w \<and> Q' x tr w) (\<lambda>e tr w. E e tr w \<and> E' e tr w) tr w"
  using assms by (induction p arbitrary: tr w) auto

section \<open>The contract\<close>

definition rostered :: "conn \<Rightarrow> bool" where
  "rostered w \<longleftrightarrow> (\<forall>e. active w = Some e \<longrightarrow> e \<in> set (installed w))"

definition roster_grows :: "conn \<Rightarrow> conn \<Rightarrow> bool" where
  "roster_grows w w' \<longleftrightarrow> set (installed w) \<subseteq> set (installed w')"

definition roster_step :: "conn \<Rightarrow> conn \<Rightarrow> bool" where
  "roster_step w w' \<longleftrightarrow>
     (installed w' = installed w \<and> (active w' = active w \<or> active w' = None)) \<or>
     (\<exists>e. installed w' = e # installed w \<and> active w' = Some e)"

text \<open>Beside the commands of the bootstrap, only \<open>P\<close> is sent, to clients of the roster.\<close>

definition sent_on_roster :: "(ledger_request \<Rightarrow> bool) \<Rightarrow> client_call \<Rightarrow> conn \<Rightarrow> bool" where
  "sent_on_roster P call w \<longleftrightarrow>
     (\<forall>c q. call = ClientRequest c q \<longrightarrow> foreign q \<longrightarrow> P q \<and> c \<in> ep_client ` set (installed w))"

abbreviation tracks where
  "tracks P \<equiv> wp rostered roster_grows (\<lambda>tr. roster_step) (sent_on_roster P)"

lemma roster_grows_refl [simp]: "roster_grows w w"
  by (simp add: roster_grows_def)

lemma roster_grows_trans: "roster_grows w w' \<Longrightarrow> roster_grows w' w'' \<Longrightarrow> roster_grows w w''"
  by (auto simp: roster_grows_def)

lemma roster_step_grows: "roster_step w w' \<Longrightarrow> roster_grows w w'"
  by (auto simp: roster_step_def roster_grows_def)

lemma roster_step_rostered: "rostered w \<Longrightarrow> roster_step w w' \<Longrightarrow> rostered w'"
  by (auto simp: roster_step_def rostered_def)

lemma roster_step_refl [simp]: "roster_step w w"
  by (simp add: roster_step_def)

text \<open>A program that may run whenever it likes, and what is known after it.\<close>

definition roster_safe :: "(ledger_request \<Rightarrow> bool) \<Rightarrow> 'r cm \<Rightarrow> bool" where
  "roster_safe P p \<longleftrightarrow> (\<forall>tr w. tracks P p (\<lambda>_ _ _. True) (\<lambda>_ _ _. True) tr w)"

lemma tracks_then:
  assumes "tracks P p (\<lambda>_ _ _. True) (\<lambda>_ _ _. True) tr w"
    and "\<And>x tr' w'. roster_grows w w' \<Longrightarrow> Q x tr' w'"
    and "\<And>x tr' w'. roster_grows w w' \<Longrightarrow> E x tr' w'"
  shows "tracks P p Q E tr w"
  using assms
proof (induction p arbitrary: tr w)
  case (Atom g p)
  show ?case
    unfolding wp.simps
  proof (intro allI impI conjI)
    fix fl w1 assume w1: "roster_grows w w1" "rostered w1"
    with Atom.prems(1) have s: "roster_step w1 (g fl w1)"
      and t: "tracks P (p fl w1) (\<lambda>_ _ _. True) (\<lambda>_ _ _. True) tr (g fl w1)" by auto
    show "roster_step w1 (g fl w1)" by (rule s)
    have "roster_grows w w'" if "roster_grows (g fl w1) w'" for w'
      using that w1(1) roster_step_grows[OF s] roster_grows_trans by blast
    then show "tracks P (p fl w1) Q E tr (g fl w1)"
      by (intro Atom.IH[OF t] Atom.prems(2,3))
  qed
qed auto

lemma roster_safe_then:
  assumes "roster_safe P p"
    and "\<And>x tr' w'. roster_grows w w' \<Longrightarrow> Q x tr' w'" and "\<And>x tr' w'. roster_grows w w' \<Longrightarrow> E x tr' w'"
  shows "tracks P p Q E tr w"
  by (rule tracks_then) (use assms in \<open>auto simp: roster_safe_def\<close>)

named_theorems roster_rules

lemma safe_ends [roster_rules]: "roster_safe P (Return x)" "roster_safe P (Throw e)"
    "roster_safe P (lift_result r)"
  by (auto simp: roster_safe_def wp_lift_result split: sum.split)

lemma safe_await [roster_rules]:
  "roster_safe P p \<Longrightarrow> (\<And>x. roster_safe P (k x)) \<Longrightarrow> roster_safe P (await p k)"
  by (subst roster_safe_def, unfold wp_await) (auto intro!: roster_safe_then simp: roster_safe_def)

lemma safe_try_catch [roster_rules]:
  "roster_safe P p \<Longrightarrow> (\<And>e. roster_safe P (h e)) \<Longrightarrow> roster_safe P (try_catch p h)"
  by (subst roster_safe_def, unfold wp_try_catch) (auto intro!: roster_safe_then simp: roster_safe_def)

lemma safe_sync [roster_rules]:
  "(\<And>w. roster_step w (snd (f w))) \<Longrightarrow> roster_safe P (sync f)"
  by (simp add: roster_safe_def wp_sync split: sum.split)

lemma safe_call [roster_rules]:
  "(\<And>c q. call = ClientRequest c q \<Longrightarrow> \<not> foreign q) \<Longrightarrow> (\<And>a. roster_safe P (k a)) \<Longrightarrow>
     roster_safe P (Call call k)"
  by (auto simp: roster_safe_def sent_on_roster_def)

section \<open>Switches\<close>

lemma safe_expect_ok [roster_rules]:
  "cmd \<in> set bootstrap_commands \<Longrightarrow> roster_safe P (expect_ok c name cmd extra)"
  unfolding expect_ok_def client_request_def
  by (auto simp: foreign_def intro!: roster_rules split: client_answer.split ledger_response.split)

lemma safe_disconnect [roster_rules]: "roster_safe P (disconnect_client c)"
  unfolding disconnect_client_def by (auto simp: roster_step_def intro!: roster_rules)

lemma safe_bootstrap [roster_rules]: "roster_safe P (bootstrap cfg name)"
  unfolding bootstrap_def create_client_def handshake_def interrogate_def abandon_client_def
    format_checked_def endpoint_checked_def connect_client_def
  by (auto simp: roster_step_def bootstrap_commands_def intro!: roster_rules split: client_answer.split)

lemma schedule_reconnect_roster: "roster_step w (schedule_reconnect w)"
  by (simp add: roster_step_def schedule_reconnect_def)

lemma safe_give_up [roster_rules]: "roster_safe P give_up_connecting"
  unfolding give_up_connecting_def by (auto intro!: roster_rules simp: schedule_reconnect_roster)

text \<open>The result of a switch is on the roster.\<close>

lemma tracks_install: "(\<And>w'. e \<in> set (installed w') \<Longrightarrow> Q e tr w') \<Longrightarrow> tracks P (install_endpoint e) Q E tr w"
  by (simp add: install_endpoint_def wp_sync roster_step_def)

lemma tracks_connect_in_order:
  assumes Q: "\<And>e tr' w'. e \<in> set (installed w') \<Longrightarrow> Q e tr' w'" and E: "\<And>x tr' w'. E x tr' w'"
  shows "tracks P (connect_in_order cfg order) Q E tr w"
proof (induction order arbitrary: tr w)
  case Nil
  show ?case unfolding connect_in_order.simps(1) give_up_connecting_def
    by (simp add: wp_await wp_sync schedule_reconnect_roster E)
next
  case (Cons name order)
  have "tracks P (try_catch (await (bootstrap cfg name) (\<lambda>e. Return (Some e))) (\<lambda>_. Return None))
      (\<lambda>r. tracks P (case r of Some e \<Rightarrow> install_endpoint e | None \<Rightarrow> connect_in_order cfg order) Q E) E tr' w'"
    for tr' w'
    by (rule roster_safe_then) (auto intro!: roster_rules tracks_install Q E Cons.IH split: option.split)
  moreover have "tracks P give_up_connecting Q E tr' w'" for tr' w'
    unfolding give_up_connecting_def by (simp add: wp_await wp_sync schedule_reconnect_roster E)
  ultimately show ?case
    by (simp add: wp_await[of _ _ _ _ "sync f" for f] wp_await[of _ _ _ _ "try_catch f h" for f h] wp_sync)
qed

lemma tracks_track:
  assumes work: "\<And>Q E. (\<And>e tr' w'. e \<in> set (installed w') \<Longrightarrow> Q e tr' w') \<Longrightarrow>
      (\<And>x tr' w'. E x tr' w') \<Longrightarrow> tracks P work Q E tr w"
    and Q: "\<And>e tr' w'. e \<in> set (installed w') \<Longrightarrow> Q e tr' w'" and E: "\<And>x tr' w'. E x tr' w'"
  shows "tracks P (track k work) Q E tr w"
  unfolding track_def wp_await wp_try_catch
  by (rule work) (auto simp: wp_await wp_sync wp_lift_result roster_step_def roster_grows_def intro!: Q E)

lemma tracks_join:
  assumes "\<And>e tr' w'. e \<in> set (installed w') \<Longrightarrow> Q e tr' w'" and "\<And>x tr' w'. E x tr' w'"
  shows "tracks P (join_switch t) Q E tr w"
  unfolding join_switch_def using assms
  by (auto simp: wp_sync sent_on_roster_def split: client_answer.split)

lemma tracks_carry_out:
  assumes Q: "\<And>e tr' w'. e \<in> set (installed w') \<Longrightarrow> Q e tr' w'" and E: "\<And>x tr' w'. E x tr' w'"
    and use: "\<And>e. d = UseActive e \<Longrightarrow> e \<in> set (installed w)"
  shows "tracks P (carry_out k cfg d) Q E tr w"
proof (cases d)
  case (UseActive e)
  then show ?thesis using Q[OF use[OF UseActive]] by simp
next
  case (JoinSwitch t)
  then show ?thesis by (simp add: tracks_join[OF Q E])
next
  case (StartConnecting order)
  then show ?thesis by (simp add: tracks_track tracks_connect_in_order Q E)
next
  case (StartFailover c alt)
  have "tracks P (await (disconnect_client c) (\<lambda>_. await (sync (\<lambda>w. (Inr (), w\<lparr>preferred := alt\<rparr>)))
      (\<lambda>_. connect_in_order cfg [alt]))) Q' E' tr' w'"
    if "\<And>e tr' w'. e \<in> set (installed w') \<Longrightarrow> Q' e tr' w'" "\<And>x tr' w'. E' x tr' w'" for Q' E' tr' w'
    unfolding wp_await
    by (rule roster_safe_then[OF safe_disconnect])
      (auto simp: wp_sync roster_step_def that simp del: connect_in_order.simps
        intro!: tracks_connect_in_order)
  then show ?thesis unfolding StartFailover carry_out.simps by (intro tracks_track Q E) auto
qed

text \<open>Decisions leave the roster alone and use an endpoint of it.\<close>

definition roster_decision :: "conn \<Rightarrow> decision \<times> conn \<Rightarrow> bool" where
  "roster_decision w dw \<longleftrightarrow>
     roster_step w (snd dw) \<and> (\<forall>e. fst dw = UseActive e \<longrightarrow> e \<in> set (installed (snd dw)))"

lemma roster_decisions:
  assumes "rostered w"
  shows "roster_decision w (decide_connection k w)" "roster_decision w (decide_failover k c w)"
  using assms by (auto simp: roster_decision_def rostered_def decide_connection_def decide_failover_def
      roster_step_def split: option.split)

lemma tracks_decision:
  assumes "\<And>w. rostered w \<Longrightarrow> roster_decision w (f w)"
    and "\<And>e tr' w'. e \<in> set (installed w') \<Longrightarrow> Q e tr' w'" and "\<And>x tr' w'. E x tr' w'"
  shows "tracks P (await (sync (\<lambda>w. case f w of (d, w') \<Rightarrow> (Inr d, w'))) (carry_out k cfg)) Q E tr w"
  using assms(1)
  by (force simp: wp_await wp_sync roster_decision_def split: prod.split intro!: tracks_carry_out assms(2,3))

lemma tracks_connection:
  assumes "\<And>e tr' w'. e \<in> set (installed w') \<Longrightarrow> Q e tr' w'" and "\<And>x tr' w'. E x tr' w'"
  shows "tracks P (connection k cfg) Q E tr w" "tracks P (failover k cfg c) Q E tr w"
  unfolding connection_def failover_def
  by (rule tracks_decision[OF roster_decisions(1) assms], assumption+,
      rule tracks_decision[OF roster_decisions(2) assms], assumption+)

section \<open>Requests\<close>

text \<open>Some client answered the request so.\<close>

definition exchanged :: "(client_call, client_answer) trace \<Rightarrow> ledger_request \<Rightarrow> ledger_response \<Rightarrow> bool" where
  "exchanged ctr q r \<longleftrightarrow> (\<exists>c. (ClientRequest c q, Answered r) \<in> set ctr)"

lemma tracks_attempt:
  assumes c: "c \<in> ep_client ` set (installed w)" and P: "P q"
    and Q: "\<And>r tr'. exchanged tr' q r \<Longrightarrow> Q (Some r) tr' w" and N: "\<And>tr'. Q None tr' w"
    and E: "\<And>x tr'. E x tr' w"
  shows "tracks P (attempt_request c q) Q E tr w"
proof -
  have "sent_on_roster P (ClientRequest c q) w1" if "roster_grows w w1" for w1
    using that c P by (auto simp: sent_on_roster_def roster_grows_def)
  moreover have "Q (Some r) (tr @ [(ClientRequest c q, Answered r)]) w" for r
    by (rule Q) (auto simp: exchanged_def)
  ultimately show ?thesis
    by (auto simp: attempt_request_def client_request_def wp_await wp_try_catch N E
        split: client_answer.split conn_exn.split)
qed

lemma safe_drop [roster_rules]:
  "roster_safe P (sync (\<lambda>w. case drop_failed c w of (d, w') \<Rightarrow> (Inr d, w')))"
  by (intro safe_sync) (auto simp: drop_failed_def roster_step_def split: option.split)

text \<open>The second attempt, and what follows when it fails.\<close>

lemma tracks_second:
  assumes e: "e \<in> set (installed w)" and P: "P q"
    and Q: "\<And>r tr' w'. exchanged tr' q r \<Longrightarrow> Q r tr' w'" and E: "\<And>x tr' w'. E x tr' w'"
  shows "tracks P (second_attempt q e) Q E tr w"
proof -
  have "tracks P (await (sync (\<lambda>w. case drop_failed (ep_client e) w of (d, w') \<Rightarrow> (Inr d, w')))
      (\<lambda>dropped. case dropped of None \<Rightarrow> Throw unavailable
         | Some c \<Rightarrow> await (disconnect_client c) (\<lambda>_.
             await (sync (\<lambda>w. (Inr (), schedule_reconnect w))) (\<lambda>_. Throw unavailable)))) Q E tr' w'" for tr' w'
  proof -
    have last: "tracks P (await (disconnect_client c) (\<lambda>_.
        await (sync (\<lambda>w. (Inr (), schedule_reconnect w))) (\<lambda>_. Throw unavailable))) Q E tr' w'" for c tr' w'
      unfolding wp_await by (rule roster_safe_then[OF safe_disconnect])
        (simp_all add: wp_sync schedule_reconnect_roster E)
    show ?thesis
      unfolding wp_await[of _ _ _ _ "sync f" for f]
      by (rule roster_safe_then[OF safe_drop]) (auto intro: last E split: option.split)
  qed
  then show ?thesis
    unfolding second_attempt_def wp_await[of _ _ _ _ "attempt_request c q" for c]
    by (intro tracks_attempt) (use e P Q E in auto)
qed

lemma tracks_request_ledger:
  assumes P: "P q" and Q: "\<And>r tr' w'. exchanged tr' q r \<Longrightarrow> Q r tr' w'" and E: "\<And>x tr' w'. E x tr' w'"
  shows "tracks P (request_ledger k cfg q) Q E tr w"
  unfolding request_ledger_second wp_await[of _ _ _ _ "connection k cfg"]
proof (rule tracks_connection(1))
  fix first tr' and w' :: conn assume first: "first \<in> set (installed w')"
  have retry: "tracks P (await (failover k cfg c) (second_attempt q)) Q E tr'' w''" for c tr'' w''
    unfolding wp_await by (rule tracks_connection(2)) (auto intro: tracks_second P Q E)
  show "tracks P (await (attempt_request (ep_client first) q) (\<lambda>answer. case answer of
      Some resp \<Rightarrow> Return resp | None \<Rightarrow> await (failover k cfg (ep_client first)) (second_attempt q))) Q E tr' w'"
    unfolding wp_await[of _ _ _ _ "attempt_request c q" for c]
    by (rule tracks_attempt) (use first P Q E retry in auto)
qed (rule E)

section \<open>The other methods and the callbacks\<close>

lemma safe_carry_out:
  assumes "\<And>w. rostered w \<Longrightarrow> roster_decision w (f w)"
  shows "roster_safe P (await (sync (\<lambda>w. case f w of (d, w') \<Rightarrow> (Inr d, w'))) (carry_out k cfg))"
  by (auto simp: roster_safe_def intro!: tracks_decision assms)

text \<open>What runs without a request of a caller.\<close>

inductive manager_callback :: "app_config \<Rightarrow> nat \<Rightarrow> unit cm \<Rightarrow> bool" for cfg k where
  "manager_callback cfg k (ensure_connected k cfg)"
| "manager_callback cfg k shutdown"
| "manager_callback cfg k (handle_validated_ledger c n)"
| "manager_callback cfg k (handle_unexpected_disconnect k cfg c)"
| "manager_callback cfg k (timer_fires k cfg)"

lemma callback_handler: "manager_callback cfg k p \<Longrightarrow> conn_handler cfg k p"
  by (auto elim!: manager_callback.cases intro: conn_handler.intros)

lemma safe_switch_away: "roster_safe P (switch_away k cfg)"
  unfolding switch_away_eq
  by (intro safe_await safe_carry_out safe_ends) (auto dest: roster_decisions split: option.split)

lemma tracks_callback:
  assumes f: "\<And>w. rostered w \<Longrightarrow> case f w of (None, w') \<Rightarrow> w' = w | (Some d, w') \<Rightarrow> roster_decision w (d, w')"
  shows "roster_safe P (await (sync (\<lambda>w. case f w of (d, w') \<Rightarrow> (Inr d, w')))
      (\<lambda>d. case d of None \<Rightarrow> Return () | Some d' \<Rightarrow> ignore_failure (carry_out k cfg d')))"
proof -
  have "tracks P (case d of None \<Rightarrow> Return () | Some d' \<Rightarrow> ignore_failure (carry_out k cfg d'))
      (\<lambda>_ _ _. True) (\<lambda>_ _ _. True) tr w'" if "rostered w" "f w = (d, w')" for d tr w w'
    using f[OF that(1)] that(2)
    by (auto simp: ignore_failure_def wp_await wp_try_catch roster_decision_def
        intro!: tracks_carry_out split: option.split)
  with f show ?thesis
    by (fastforce simp: roster_safe_def wp_await wp_sync roster_decision_def split: prod.split option.splits)
qed

text \<open>Every method and callback keeps the contract; only a request sends for its caller.\<close>

lemma safe_join [roster_rules]: "roster_safe P (join_switch t)"
  by (auto simp: roster_safe_def intro!: tracks_join)

lemma safe_callback:
  assumes "manager_callback cfg k p"
  shows "roster_safe P p"
  using assms
proof cases
  case 1
  have "roster_safe P (connection k cfg)" by (auto simp: roster_safe_def intro!: tracks_connection)
  then show ?thesis unfolding 1 ensure_connected_def by (intro roster_rules)
next
  case 2
  show ?thesis
    unfolding 2 shutdown_def ignore_failure_def
    by (auto intro!: roster_rules simp: release_active_def roster_step_def split: option.split)
next
  case (3 c n)
  then show ?thesis by (auto simp: handle_validated_ledger_def roster_step_def intro!: roster_rules)
next
  case (4 c)
  have "roster_decision w (d, w')" if "rostered w" "decide_failover k c w = (d, w')" for w d w'
    using roster_decisions(2)[OF that(1), of k c] that(2) by simp
  then show ?thesis
    unfolding 4 unexpected_disconnect_eq
    by (intro tracks_callback) (auto simp: apfst_def map_prod_def split: prod.split)
next
  case 5
  have "roster_decision w (d, w')"
    if "rostered w" "decide_connection k (w\<lparr>reconnect_timer := None\<rparr>) = (d, w')" for w d w'
    using roster_decisions(1)[of "w\<lparr>reconnect_timer := None\<rparr>" k] that
    by (simp add: roster_decision_def rostered_def roster_step_def)
  then show ?thesis
    unfolding 5 timer_fires_eq
    by (intro tracks_callback) (auto simp: apfst_def map_prod_def split: prod.split)
qed

end
