(* ===== verification/Linked.thy ===== *)
theory Linked
  imports Vetting System
begin

text \<open>
  The services on their real connection. \<open>link\<close> replaces each request of a service program by the
  program of the connection manager that carries it out, await by await; what remains outside are
  the clients. One pool runs the linked handlers together with the callbacks of the manager, over
  the pair of the two states.
\<close>

section \<open>Linking\<close>

type_synonym 'r linked = "(world \<times> conn, exn, client_call, client_answer, 'r) io"

text \<open>An error of the manager as the services see it: any \<open>Error\<close> has its message.\<close>

fun exn_of :: "conn_exn \<Rightarrow> exn" where
  "exn_of (Failed e) = e"
| "exn_of (TransportFailure m) = PlainError m"
| "exn_of (EndpointUnusable m) = PlainError m"

primrec lift_conn :: "'r cm \<Rightarrow> 'r linked" where
  "lift_conn (Return x) = Return x"
| "lift_conn (Throw e) = Throw (exn_of e)"
| "lift_conn (Atom g p) =
     Atom (\<lambda>fl s. (fst s, g fl (snd s))) (\<lambda>fl s. lift_conn (p fl (snd s)))"
| "lift_conn (Call q p) = Call q (\<lambda>a. lift_conn (p a))"

text \<open>What the manager does when a service asks, and what it then answers.\<close>

fun perform :: "nat \<Rightarrow> app_config \<Rightarrow> env_call \<Rightarrow> env_answer cm" where
  "perform k cfg (Request q) =
     try_catch (await (request_ledger k cfg q) (\<lambda>r. Return (Response r)))
       (\<lambda>e. Return (Refused (exn_of e)))"
| "perform k cfg (SwitchEndpoint reason) =
     try_catch (await (switch_away k cfg) (\<lambda>_. Return (Response (RespOk []))))
       (\<lambda>e. Return (Refused (exn_of e)))"

primrec link :: "nat \<Rightarrow> app_config \<Rightarrow> 'r svc \<Rightarrow> 'r linked" where
  "link k cfg (Return x) = Return x"
| "link k cfg (Throw e) = Throw e"
| "link k cfg (Atom g p) =
     Atom (\<lambda>fl s. (g fl (fst s), snd s)) (\<lambda>fl s. link k cfg (p fl (fst s)))"
| "link k cfg (Call q p) = await (lift_conn (perform k cfg q)) (\<lambda>a. link k cfg (p a))"

inductive linked_handler ::
  "codec \<Rightarrow> nat \<Rightarrow> app_config \<Rightarrow> nat \<Rightarrow> unit linked \<Rightarrow> bool" for X N cfg k where
  Service: "linked_handler X N cfg k (link k cfg (handler X N c))"
| Callback: "manager_callback cfg k p \<Longrightarrow> linked_handler X N cfg k (lift_conn p)"

definition linked_clock :: "world \<times> conn \<Rightarrow> world \<times> conn \<Rightarrow> bool" where
  "linked_clock s s' \<longleftrightarrow> clock_moves (fst s) (fst s') \<and> snd s' = snd s"

definition linked_restart :: "world \<times> conn \<Rightarrow> world \<times> conn" where
  "linked_restart s = (restart (fst s), fresh_connection)"

definition linked_start :: "world \<times> conn \<Rightarrow> bool" where
  "linked_start s \<longleftrightarrow> fresh_database (fst s) \<and> snd s = fresh_connection"

section \<open>The contract of the whole\<close>

text \<open>What a service was answered is what some client answered, and it asks nothing of the bootstrap.\<close>

definition explained ::
  "(client_call, client_answer) trace \<Rightarrow> (env_call, env_answer) trace \<Rightarrow> bool" where
  "explained ctr tr \<longleftrightarrow> (\<forall>q r. (Request q, Response r) \<in> set tr \<longrightarrow> foreign q \<and> exchanged ctr q r)"

definition linked_ok :: "codec \<Rightarrow> nat \<Rightarrow> world \<times> conn \<Rightarrow> bool" where
  "linked_ok X N s \<longleftrightarrow> world_ok X N (fst s) \<and> conn_ok (snd s) \<and> rostered (snd s)"

definition linked_rely :: "nat \<Rightarrow> world \<times> conn \<Rightarrow> world \<times> conn \<Rightarrow> bool" where
  "linked_rely k s s' \<longleftrightarrow>
     evolves (fst s) (fst s') \<and> conn_rely k (snd s) (snd s') \<and> roster_grows (snd s) (snd s')"

definition linked_guarantee ::
  "codec \<Rightarrow> nat \<Rightarrow> app_config \<Rightarrow> nat \<Rightarrow> (client_call, client_answer) trace
    \<Rightarrow> world \<times> conn \<Rightarrow> world \<times> conn \<Rightarrow> bool" where
  "linked_guarantee X N cfg k ctr s s' \<longleftrightarrow>
     (\<exists>tr. explained ctr tr \<and> permitted X N tr (fst s) (fst s')) \<and>
     conn_guarantee cfg k ctr (snd s) (snd s') \<and> roster_step (snd s) (snd s')"

definition linked_call_ok :: "client_call \<Rightarrow> world \<times> conn \<Rightarrow> bool" where
  "linked_call_ok call s \<longleftrightarrow>
     call_ok call (snd s) \<and> sent_on_roster (\<lambda>q. request_ok (Request q) (fst s)) call (snd s)"

abbreviation complies where
  "complies X N cfg k \<equiv> wp (linked_ok X N) (linked_rely k) (linked_guarantee X N cfg k) linked_call_ok"

abbreviation manages where
  "manages cfg k P \<equiv> wp (\<lambda>w. conn_ok w \<and> rostered w) (\<lambda>w w'. conn_rely k w w' \<and> roster_grows w w')
     (\<lambda>tr w w'. conn_guarantee cfg k tr w w' \<and> roster_step w w') (\<lambda>q w. call_ok q w \<and> sent_on_roster P q w)"

lemma linked_rely_refl [simp]: "linked_rely k s s"
  by (simp add: linked_rely_def)

lemma linked_rely_trans: "linked_rely k s s' \<Longrightarrow> linked_rely k s' s'' \<Longrightarrow> linked_rely k s s''"
  unfolding linked_rely_def by (blast intro: evolves_trans conn_rely_trans roster_grows_trans)

lemma explained_empty: "explained ctr []"
  by (simp add: explained_def)

lemma explained_extends: "explained ctr tr \<Longrightarrow> extends ctr ctr' \<Longrightarrow> explained ctr' tr"
  unfolding explained_def exchanged_def extends_def by blast

lemma explained_snoc:
  assumes "explained ctr tr" and "extends ctr ctr'"
    and "\<And>q' r. q = Request q' \<Longrightarrow> a = Response r \<Longrightarrow> foreign q' \<and> exchanged ctr' q' r"
  shows "explained ctr' (tr @ [(q, a)])"
  using explained_extends[OF assms(1,2)] assms(3) by (auto simp: explained_def)

lemma request_ok_foreign: "request_ok (Request q) w \<Longrightarrow> foreign q"
  by (auto simp: request_ok_def reads_def foreign_def bootstrap_commands_def simulate_request_def
      submit_request_def dest!: lookup_request_command)

lemma conn_guarantee_refl: "conn_ok w \<Longrightarrow> conn_guarantee cfg k tr w w"
  by (rule guarantee_same_clients) (auto simp: same_clients_def)

text \<open>A program of the manager, run for a service whose request stays allowed.\<close>

lemma complies_lift:
  assumes "manages cfg k P p Q E ctr c"
    and "\<And>q w'. evolves w w' \<Longrightarrow> world_ok X N w' \<Longrightarrow> P q \<Longrightarrow> request_ok (Request q) w'"
    and "\<And>x ctr' c' w'. extends ctr ctr' \<Longrightarrow> evolves w w' \<Longrightarrow> Q x ctr' c' \<Longrightarrow> Q' x ctr' (w', c')"
    and "\<And>e ctr' c' w'. extends ctr ctr' \<Longrightarrow> evolves w w' \<Longrightarrow> E e ctr' c' \<Longrightarrow> E' (exn_of e) ctr' (w', c')"
  shows "complies X N cfg k (lift_conn p) Q' E' ctr (w, c)"
  using assms
proof (induction p arbitrary: ctr w c)
  case (Atom g p)
  show ?case
    unfolding lift_conn.simps wp.simps
  proof (intro allI impI)
    fix fl and s1 :: "world \<times> conn"
    assume s1: "linked_rely k (w, c) s1" "linked_ok X N s1"
    then have w1: "evolves w (fst s1)" and I: "world_ok X N (fst s1)"
      and c1: "conn_guarantee cfg k ctr (snd s1) (g fl (snd s1)) \<and> roster_step (snd s1) (g fl (snd s1))"
      and m: "manages cfg k P (p fl (snd s1)) Q E ctr (g fl (snd s1))"
      using Atom.prems(1) by (auto simp: linked_rely_def linked_ok_def)
    have "complies X N cfg k (lift_conn (p fl (snd s1))) Q' E' ctr (fst s1, g fl (snd s1))"
      by (rule Atom.IH[OF m]) (use Atom.prems(2-4) evolves_trans[OF w1] in blast)+
    moreover have "permitted X N [] (fst s1) (fst s1)" by (rule permitted_refl[OF world_ok_store[OF I]])
    ultimately show "linked_guarantee X N cfg k ctr s1 (fst s1, g fl (snd s1)) \<and>
        complies X N cfg k (lift_conn (p fl (snd s1))) Q' E' ctr (fst s1, g fl (snd s1))"
      using c1 explained_empty by (auto simp: linked_guarantee_def)
  qed
next
  case (Call q p)
  have "complies X N cfg k (lift_conn (p a)) Q' E' (ctr @ [(q, a)]) (w, c)" for a
    by (rule Call.IH[of a "ctr @ [(q, a)]" c w]) (use Call.prems in \<open>auto simp: extends_def\<close>)
  moreover have "linked_call_ok q s1" if "linked_rely k (w, c) s1" "linked_ok X N s1" for s1
    using Call.prems(1,2) that
    by (fastforce simp: linked_rely_def linked_ok_def linked_call_ok_def sent_on_roster_def)
  ultimately show ?case by simp
qed (auto simp: extends_def)

lemma manages_both:
  assumes "obeys cfg k p (\<lambda>_ _ _. True) (\<lambda>_ _ _. True) ctr c" and "tracks P p Q (\<lambda>_ _ _. True) ctr c"
  shows "manages cfg k P p Q (\<lambda>_ _ _. True) ctr c"
  using wp_both[OF assms] by simp

lemma manages_perform:
  "manages cfg k (\<lambda>q. call = Request q) (perform k cfg call)
     (\<lambda>a ctr' c'. \<forall>q r. call = Request q \<longrightarrow> a = Response r \<longrightarrow> exchanged ctr' q r) (\<lambda>_ _ _. True) ctr c"
proof (cases call)
  case (Request q)
  show ?thesis
    unfolding Request perform.simps
    by (rule manages_both)
      (auto simp: wp_await wp_try_catch intro: obeys_request_ledger tracks_request_ledger)
next
  case (SwitchEndpoint reason)
  show ?thesis
    unfolding SwitchEndpoint perform.simps
    by (rule manages_both) (auto simp: wp_await wp_try_catch intro: obeys_switch_away
      intro!: roster_safe_then[OF safe_switch_away])
qed

text \<open>A handler of the services complies once it is linked.\<close>

lemma complies_link:
  assumes "meets X N p (\<lambda>_ _ _. True) (\<lambda>_ _ _. True) tr w" and "\<And>w1. evolves w w1 \<Longrightarrow> world_ok X N w1 \<Longrightarrow> explained ctr tr"
  shows "complies X N cfg k (link k cfg p) (\<lambda>_ _ _. True) (\<lambda>_ _ _. True) ctr (w, c)"
  using assms
proof (induction p arbitrary: tr ctr w c)
  case (Atom g p)
  have "linked_guarantee X N cfg k ctr s1 (g fl (fst s1), snd s1) \<and>
      complies X N cfg k (link k cfg (p fl (fst s1))) (\<lambda>_ _ _. True) (\<lambda>_ _ _. True) ctr (g fl (fst s1), snd s1)"
    if "linked_rely k (w, c) s1" "linked_ok X N s1" for fl s1
  proof
    have s1: "evolves w (fst s1)" "world_ok X N (fst s1)" "conn_ok (snd s1)"
      using that by (auto simp: linked_rely_def linked_ok_def)
    with Atom.prems have p: "permitted X N tr (fst s1) (g fl (fst s1))"
      and m: "meets X N (p fl (fst s1)) (\<lambda>_ _ _. True) (\<lambda>_ _ _. True) tr (g fl (fst s1))" by auto
    show "linked_guarantee X N cfg k ctr s1 (g fl (fst s1), snd s1)"
      using p Atom.prems(2)[OF s1(1,2)] conn_guarantee_refl[OF s1(3)] by (auto simp: linked_guarantee_def)
    show "complies X N cfg k (link k cfg (p fl (fst s1))) (\<lambda>_ _ _. True) (\<lambda>_ _ _. True) ctr (g fl (fst s1), snd s1)"
      by (rule Atom.IH[OF m]) (rule Atom.prems(2)[OF s1(1,2)])
  qed
  then show ?case unfolding link.simps wp.simps by blast
next
  case (Call q p)
  show ?case
    unfolding link.simps wp_await
  proof (rule complies_lift[OF manages_perform[of _ _ q]])
    fix q' w' assume "evolves w w'" "world_ok X N w'" "q = Request q'"
    then show "request_ok (Request q') w'" using Call.prems(1) by simp
  next
    fix a ctr' c' w'
    assume a: "extends ctr ctr'" "evolves w w'"
      "\<forall>q' r. q = Request q' \<longrightarrow> a = Response r \<longrightarrow> exchanged ctr' q' r"
    have m: "meets X N (p a) (\<lambda>_ _ _. True) (\<lambda>_ _ _. True) (tr @ [(q, a)]) w'"
      by (rule service.wp_weaken) (use Call.prems(1) a(2) in auto)
    show "complies X N cfg k (link k cfg (p a)) (\<lambda>_ _ _. True) (\<lambda>_ _ _. True) ctr' (w', c')"
    proof (rule Call.IH[OF m])
      fix w1 assume "evolves w' w1" and I: "world_ok X N w1"
      with a(2) have w1: "evolves w w1" by (blast intro: evolves_trans)
      have "foreign q'" if "q = Request q'" for q'
        using Call.prems(1) w1 I that by (auto intro: request_ok_foreign)
      then show "explained ctr' (tr @ [(q, a)])"
        using explained_snoc[OF Call.prems(2)[OF w1 I] a(1)] a(3) by blast
    qed
  qed simp
qed simp_all

lemma complies_callback:
  assumes "manager_callback cfg k p"
  shows "complies X N cfg k (lift_conn p) (\<lambda>_ _ _. True) (\<lambda>_ _ _. True) [] (w, c)"
proof -
  have "manages cfg k (\<lambda>_. False) p (\<lambda>_ _ _. True) (\<lambda>_ _ _. True) [] c"
    using conn_handler_obeys[OF callback_handler[OF assms]] safe_callback[OF assms]
    by (intro manages_both) (auto simp: roster_safe_def)
  then show ?thesis by (rule complies_lift) auto
qed

section \<open>The running whole\<close>

lemma linked_guarantee_ok: "linked_ok X N s \<Longrightarrow> linked_guarantee X N cfg k ctr s s' \<Longrightarrow> linked_ok X N s'"
  by (auto simp: linked_ok_def linked_guarantee_def conn_guarantee_def
      intro: permitted_world_ok roster_step_rostered)

lemma linked_start_ok: "linked_start s \<Longrightarrow> linked_ok X N s"
  by (simp add: linked_start_def linked_ok_def fresh_world_ok fresh_conn_ok)
    (simp add: rostered_def fresh_connection_def)

interpretation linked: owned_rely_guarantee "linked_handler X N cfg" linked_clock linked_restart
  linked_start "linked_ok X N" linked_rely "linked_guarantee X N cfg" linked_call_ok for X N cfg
proof unfold_locales
  fix s s' s'' :: "world \<times> conn" and k j ctr p
  show "linked_rely k s s" by simp
  show "linked_rely k s s' \<Longrightarrow> linked_rely k s' s'' \<Longrightarrow> linked_rely k s s''" by (rule linked_rely_trans)
  show "linked_start s \<Longrightarrow> linked_ok X N s" by (rule linked_start_ok)
  show "linked_ok X N s \<Longrightarrow> linked_ok X N (linked_restart s)"
    by (simp add: linked_ok_def linked_restart_def service.reset_inv fresh_conn_ok)
      (simp add: rostered_def fresh_connection_def)
  show "linked_clock s s' \<Longrightarrow> linked_ok X N s \<Longrightarrow> linked_ok X N s'"
    by (auto simp: linked_clock_def linked_ok_def intro: service.ambient_inv)
  show "linked_clock s s' \<Longrightarrow> linked_ok X N s \<Longrightarrow> linked_rely k s s'"
    by (auto simp: linked_clock_def linked_ok_def linked_rely_def intro: service.ambient_rely)
  show "linked_ok X N s \<Longrightarrow> linked_guarantee X N cfg k ctr s s' \<Longrightarrow> linked_ok X N s'"
    by (rule linked_guarantee_ok)
  show "linked_ok X N s \<Longrightarrow> linked_guarantee X N cfg k ctr s s' \<Longrightarrow> j \<noteq> k \<Longrightarrow> linked_rely j s s'"
    by (auto simp: linked_ok_def linked_guarantee_def linked_rely_def conn_guarantee_def
        intro: permitted_evolves roster_step_grows)
  show "linked_handler X N cfg k p \<Longrightarrow> linked_ok X N s \<Longrightarrow>
      complies X N cfg k p (\<lambda>_ _ _. True) (\<lambda>_ _ _. True) [] s"
    by (cases s) (auto elim!: linked_handler.cases
      intro: complies_link[OF handler_meets explained_empty] complies_callback)
qed

text \<open>One configuration for both: the network id of the intents is the one endpoints are vetted for.\<close>

abbreviation linked_reachable where
  "linked_reachable X cfg \<equiv>
     reachable (linked_handler X (xrpl_network_id cfg) cfg) linked_clock linked_restart linked_start"

definition linked_execution ::
  "codec \<Rightarrow> app_config \<Rightarrow> world \<times> conn \<Rightarrow> (world \<times> conn, client_call, client_answer) event list \<Rightarrow> bool" where
  "linked_execution X cfg s log \<longleftrightarrow> (\<exists>ts. linked_reachable X cfg (s, ts, log))"

lemma linked_sent:
  "linked_execution X cfg s log \<Longrightarrow> Sent q s1 \<in> set log \<Longrightarrow>
     linked_ok X (xrpl_network_id cfg) s1 \<and> linked_call_ok q s1"
  unfolding linked_execution_def by (blast dest: linked.reachable_sent)

lemma linked_committed:
  "linked_execution X cfg s log \<Longrightarrow> Committed ctr s1 s2 \<in> set log \<Longrightarrow>
     linked_ok X (xrpl_network_id cfg) s1 \<and> (\<exists>k. linked_guarantee X (xrpl_network_id cfg) cfg k ctr s1 s2)"
  unfolding linked_execution_def by (blast dest: linked.reachable_committed)

text \<open>No commit of the whole loses an intent.\<close>

lemma linked_row_stays:
  assumes "linked_execution X cfg s log" and "Committed ctr s1 s2 \<in> set log" and "find_row i (fst s1) = Some r"
  shows "\<exists>r'. find_row i (fst s2) = Some r'"
proof -
  from linked_committed[OF assms(1,2)] obtain tr where I: "world_ok X (xrpl_network_id cfg) (fst s1)"
      and G: "permitted X (xrpl_network_id cfg) tr (fst s1) (fst s2)"
    by (auto simp: linked_ok_def linked_guarantee_def)
  from find_row_SomeD[OF assms(3)] have r: "r \<in> set (intents (fst s1))" "intent_id r = i" by auto
  from known_find[OF known_evolves[OF known_row[OF I r(1)] permitted_evolves[OF I G]]] r(2) show ?thesis by simp
qed

lemma linked_start_execution: "linked_start s \<Longrightarrow> linked_execution X cfg s []"
  unfolding linked_execution_def by (blast intro: reachable.Start)

lemma linked_execution_handler:
  assumes "linked_execution X cfg s log"
    and "\<And>k. linked_handler X (xrpl_network_id cfg) cfg k (p k)"
    and "\<And>k. run env (p k) [] s = (res, ctr, s')"
  obtains k where "linked_execution X cfg s' (log @ run_events env (p k) [] s)"
proof -
  from assms(1) obtain ts where "linked_reachable X cfg (s, ts, log)" unfolding linked_execution_def by blast
  from reachable_handler[OF this assms(2,3)] show ?thesis using that unfolding linked_execution_def by blast
qed

end
