(* ===== verification/Provenance.thy ===== *)
theory Provenance
  imports History Linked
begin

text \<open>
  Which servers the running whole believes. Every endpoint on the roster was vetted since the last
  restart, so every request of a service goes to a vetted server and every change of a status rests
  on answers of vetted servers.
\<close>

definition vetted_since ::
  "app_config \<Rightarrow> (world \<times> conn, client_call, client_answer) event list \<Rightarrow> active_endpoint \<Rightarrow> bool" where
  "vetted_since cfg log e \<longleftrightarrow>
     (\<exists>ctr s1 s2. Committed ctr s1 s2 \<in> set (since_crash log) \<and> vetted cfg ctr e \<and>
        active (snd s1) = None \<and> active (snd s2) = Some e)"

definition roster_vetted ::
  "app_config \<Rightarrow> (world \<times> conn, client_call, client_answer) event list \<Rightarrow> conn \<Rightarrow> bool" where
  "roster_vetted cfg log w \<longleftrightarrow> (\<forall>e \<in> set (installed w). vetted_since cfg log e)"

definition sent_vetted ::
  "app_config \<Rightarrow> (world \<times> conn, client_call, client_answer) event list
    \<Rightarrow> (world \<times> conn, client_call, client_answer) event \<Rightarrow> bool" where
  "sent_vetted cfg pre e \<longleftrightarrow> (\<forall>q s. e = Sent q s \<longrightarrow> roster_vetted cfg pre (snd s))"

lemma vetted_since_more: "vetted_since cfg log e \<Longrightarrow> x \<noteq> Crashed \<Longrightarrow> vetted_since cfg (log @ [x]) e"
  unfolding vetted_since_def by fastforce

lemma vetted_since_mono:
  "vetted_since cfg log e \<Longrightarrow> set (since_crash log) \<subseteq> set (since_crash log') \<Longrightarrow> vetted_since cfg log' e"
  unfolding vetted_since_def by blast

lemma roster_commit:
  assumes "roster_vetted cfg log (snd s1)" and "linked_ok X N s1" and "linked_guarantee X N cfg k ctr s1 s2"
  shows "roster_vetted cfg (log @ [Committed ctr s1 s2]) (snd s2)"
  unfolding roster_vetted_def
proof
  fix e assume e: "e \<in> set (installed (snd s2))"
  have ok: "rostered (snd s1)" using assms(2) by (simp add: linked_ok_def)
  have step: "roster_step (snd s1) (snd s2)" "conn_guarantee cfg k ctr (snd s1) (snd s2)"
    using assms(3) by (simp_all add: linked_guarantee_def)
  show "vetted_since cfg (log @ [Committed ctr s1 s2]) e"
  proof (cases "e \<in> set (installed (snd s1))")
    case True
    with assms(1) have "vetted_since cfg log e" by (simp add: roster_vetted_def)
    then show ?thesis by (rule vetted_since_more) simp
  next
    case False
    then have "active (snd s1) \<noteq> Some e" "active (snd s2) = Some e"
      using e ok step(1) by (auto simp: rostered_def roster_step_def)
    moreover from this step(2) have "active (snd s1) = None \<and> vetted cfg ctr e"
      by (simp add: conn_guarantee_def)
    moreover have "Committed ctr s1 s2 \<in> set (since_crash (log @ [Committed ctr s1 s2]))" by simp
    ultimately show ?thesis unfolding vetted_since_def by blast
  qed
qed

lemma linked_roster:
  assumes "linked_reachable X cfg c"
  shows "roster_vetted cfg (snd (snd c)) (snd (fst c)) \<and> every_event (sent_vetted cfg) (snd (snd c))"
  using assms
proof (induction rule: reachable.induct)
  case (Start s)
  then show ?case by (simp add: roster_vetted_def linked_start_def fresh_connection_def)
next
  case (Step c c')
  from Step(2) Step.IH reachable.Step[OF Step(1,2)] show ?case
  proof (induction rule: pool_step.induct)
    case (Commit i ts ctr g p s log fl)
    have ev: "Committed ctr s (g fl s) \<in> set (log @ [Committed ctr s (g fl s)])" by simp
    from linked.reachable_committed[OF Commit.prems(2) ev]
    obtain k where "linked_ok X (xrpl_network_id cfg) s" "linked_guarantee X (xrpl_network_id cfg) cfg k ctr s (g fl s)" by blast
    with Commit.prems(1) roster_commit show ?case by (auto simp: every_event_snoc sent_vetted_def)
  next
    case (Send i ts tr q p s log a)
    then show ?case
      by (auto simp: every_event_snoc sent_vetted_def roster_vetted_def intro: vetted_since_more)
  next
    case (Ambient s s' ts log)
    then show ?case by (simp add: linked_clock_def)
  next
    case (Crash s ts log)
    then show ?case
      by (simp add: every_event_snoc sent_vetted_def roster_vetted_def linked_restart_def fresh_connection_def)
  qed simp
qed

lemma linked_sent_vetted:
  assumes "linked_execution X cfg s (pre @ Sent (ClientRequest c q) s1 # post)" and "foreign q"
  shows "request_ok (Request q) (fst s1) \<and> (\<exists>e. ep_client e = c \<and> vetted_since cfg pre e)"
proof -
  have "roster_vetted cfg pre (snd s1)"
    using assms(1) unfolding linked_execution_def
    by (cases s1) (auto simp: sent_vetted_def dest!: linked_roster every_eventD)
  moreover have "linked_call_ok (ClientRequest c q) s1"
    using linked_sent[OF assms(1)] by auto
  ultimately show ?thesis
    using assms(2) by (auto simp: linked_call_ok_def sent_on_roster_def roster_vetted_def)
qed

text \<open>An answer a committing handler holds came from a client vetted since the last restart.\<close>

lemma linked_evidence_vetted:
  assumes "linked_execution X cfg s (pre @ Committed ctr s1 s2 # post)"
    and "(ClientRequest c q, a) \<in> set ctr" and "foreign q"
  shows "\<exists>e. ep_client e = c \<and> vetted_since cfg pre e"
proof -
  from assms(1) obtain ts where
    "linked_reachable X cfg (s, ts, pre @ Committed ctr s1 s2 # post)"
    unfolding linked_execution_def by blast
  from committed_asked[OF this assms(2)] obtain s' where "Sent (ClientRequest c q) s' \<in> set (since_crash pre)" .
  then obtain pre' post' where p: "pre = pre' @ Sent (ClientRequest c q) s' # post'"
      "set (since_crash pre') \<subseteq> set (since_crash pre)"
    by (rule since_crash_split)
  have "linked_execution X cfg s (pre' @ Sent (ClientRequest c q) s' # (post' @ Committed ctr s1 s2 # post))"
    using assms(1) p(1) by simp
  from linked_sent_vetted[OF this assms(3)] vetted_since_mono[OF _ p(2)] show ?thesis by blast
qed

end
