(* ===== verification/Projection.thy ===== *)
theory Projection
  imports Linked
begin

text \<open>
  The running whole refines the pool of the services: seen through its database and memory, every
  execution of the whole is an execution of \<open>System\<close>, in which the manager is the environment. A
  service that waits for the manager has, in the abstract, not sent its request yet; it sends it,
  and is answered, at the moment the manager is done. Callbacks of the manager correspond to
  handlers that never move.
\<close>

section \<open>What the manager delivers\<close>

abbreviation freely where
  "freely \<equiv> wp (\<lambda>_. True) (\<lambda>_ _. True) (\<lambda>_ _ _. True) (\<lambda>_ _. True)"

definition delivers :: "env_call \<Rightarrow> (client_call, client_answer) trace \<Rightarrow> env_answer cm \<Rightarrow> bool" where
  "delivers call ctr m \<longleftrightarrow>
     (\<forall>w. freely m (\<lambda>a ctr' _. \<forall>q r. call = Request q \<longrightarrow> a = Response r \<longrightarrow> exchanged ctr' q r)
        (\<lambda>_ _ _. True) ctr w)"

lemma freely_any:
  "(\<And>x tr w. Q x tr w) \<Longrightarrow> (\<And>e tr w. E e tr w) \<Longrightarrow> freely p Q E tr w"
  by (induction p arbitrary: tr w) auto

lemma freely_forget:
  "freely p (\<lambda>x tr _. Q x tr) (\<lambda>_ _ _. True) tr w \<Longrightarrow> freely p (\<lambda>x tr _. Q x tr) (\<lambda>_ _ _. True) tr w'"
proof (induction p arbitrary: tr w w')
  case (Call q p tr w w')
  have "freely (p a) (\<lambda>x tr _. Q x tr) (\<lambda>_ _ _. True) (tr @ [(q, a)]) w'" for a
    by (rule Call.IH[where w = w]) (use Call.prems in auto)
  then show ?case by simp
qed auto

lemma delivers_atom: "delivers q ctr (Atom g p) \<Longrightarrow> delivers q ctr (p fl w)"
  unfolding delivers_def by (intro allI, rule freely_forget[where w = "g fl w"]) simp

lemma delivers_call: "delivers q ctr (Call call p) \<Longrightarrow> delivers q (ctr @ [(call, a)]) (p a)"
  unfolding delivers_def wp.simps by blast

lemma freely_attempt:
  assumes "\<And>r tr'. exchanged tr' q r \<Longrightarrow> Q (Some r) tr' w" and "\<And>tr'. Q None tr' w"
    and "\<And>x tr'. E x tr' w"
  shows "freely (attempt_request c q) Q E tr w"
proof -
  have "exchanged (tr @ [(ClientRequest c q, Answered r)]) q r" for r by (auto simp: exchanged_def)
  then show ?thesis
    by (auto simp: attempt_request_def client_request_def wp_await wp_try_catch assms
        split: client_answer.split conn_exn.split)
qed

lemma freely_request_ledger:
  assumes Q: "\<And>r tr' w'. exchanged tr' q r \<Longrightarrow> Q r tr' w'" and E: "\<And>x tr' w'. E x tr' w'"
  shows "freely (request_ledger k cfg q) Q E tr w"
proof -
  have last: "freely (await p (\<lambda>dropped. case dropped of None \<Rightarrow> Throw unavailable
      | Some c \<Rightarrow> await (disconnect_client c) (\<lambda>_.
          await (sync (\<lambda>w. (Inr (), schedule_reconnect w))) (\<lambda>_. Throw unavailable)))) Q E tr w"
    for p :: "nat option cm" and tr w
    unfolding wp_await[of _ _ _ _ p]
    by (rule freely_any)
      (auto simp: wp_await wp_sync E intro!: freely_any[where p = "disconnect_client c" for c] split: option.split)
  have second: "freely (second_attempt q e) Q E tr w" for e tr w
    unfolding second_attempt_def wp_await[of _ _ _ _ "attempt_request c q" for c]
    by (rule freely_attempt) (auto intro: last Q E)
  have retry: "freely (await (failover k cfg c) (second_attempt q)) Q E tr w" for c tr w
    unfolding wp_await by (rule freely_any) (auto intro: second E)
  show ?thesis
    unfolding request_ledger_second wp_await[of _ _ _ _ "connection k cfg"]
  proof (rule freely_any)
    show "freely (await (attempt_request (ep_client first) q) (\<lambda>answer. case answer of
        Some resp \<Rightarrow> Return resp | None \<Rightarrow> await (failover k cfg (ep_client first)) (second_attempt q)))
        Q E tr w" for first tr w
      unfolding wp_await[of _ _ _ _ "attempt_request c q" for c]
      by (rule freely_attempt) (auto intro: Q E retry)
  qed (rule E)
qed

lemma delivers_perform: "delivers call ctr (perform k cfg call)"
proof (cases call)
  case (Request q)
  show ?thesis
    unfolding Request delivers_def perform.simps wp_try_catch wp_await
    by (auto intro!: freely_request_ledger)
next
  case (SwitchEndpoint reason)
  show ?thesis
    unfolding SwitchEndpoint delivers_def perform.simps wp_try_catch wp_await by (auto intro!: freely_any)
qed

lemma perform_awaits: "\<exists>g h. perform k cfg call = Atom g h"
  by (cases call) (simp_all add: request_ledger_def connection_def switch_away_def sync_def)

section \<open>Corresponding tasks\<close>

inductive mirrors ::
  "nat \<Rightarrow> app_config \<Rightarrow> (world \<times> conn, exn, client_call, client_answer) task
    \<Rightarrow> (world, exn, env_call, env_answer) task \<Rightarrow> bool" for k cfg where
  Idle: "mirrors k cfg (ctr, lift_conn m) t"
| Running: "explained ctr tr \<Longrightarrow> mirrors k cfg (ctr, link k cfg p) (tr, p)"
| Asking: "explained ctr tr \<Longrightarrow> delivers q ctr m \<Longrightarrow> (\<And>a. m \<noteq> Return a) \<Longrightarrow>
     mirrors k cfg (ctr, await (lift_conn m) (\<lambda>a. link k cfg (p a))) (tr, Call q p)"

abbreviation service_reachable where
  "service_reachable X N \<equiv> reachable (\<lambda>_. service_handler X N) clock_moves restart fresh_database"

text \<open>When the manager is done, the service has sent its request and been answered.\<close>

lemma settle:
  assumes r: "service_reachable X N (w, ts, log)" and i: "i < length ts" "ts ! i = (tr, Call q p)"
    and x: "explained ctr tr" and d: "delivers q ctr m"
  shows "\<exists>t evs. service_reachable X N (w, ts[i := t], log @ evs) \<and>
     mirrors k cfg (ctr, await (lift_conn m) (\<lambda>a. link k cfg (p a))) t"
proof (cases "\<exists>a. m = Return a")
  case True
  then obtain a where a: "m = Return a" ..
  have r': "service_reachable X N (w, ts[i := (tr @ [(q, a)], p a)], log @ [Sent q w])"
    by (rule reachable.Step[OF r]) (rule Send[where p = p, OF i])
  have "foreign q' \<and> exchanged ctr q' b" if "q = Request q'" "a = Response b" for q' b
    using d that a service.reachable_sent[OF r', of "Request q'" w]
    by (auto simp: delivers_def intro: request_ok_foreign)
  with explained_snoc[OF x] have "explained ctr (tr @ [(q, a)])" by (auto simp: extends_def)
  with r' a show ?thesis by (auto intro: mirrors.Running)
next
  case False
  have "service_reachable X N (w, ts[i := ts ! i], log @ [])" using r by simp
  moreover have "mirrors k cfg (ctr, await (lift_conn m) (\<lambda>a. link k cfg (p a))) (ts ! i)"
    unfolding i(2) by (rule mirrors.Asking[OF x d]) (use False in blast)
  ultimately show ?thesis by blast
qed

lemma mirror_atom:
  assumes r: "service_reachable X N (fst s, ts, log)" and i: "i < length ts"
    and m: "mirrors k cfg (ctr, Atom g p) (ts ! i)"
  shows "\<exists>t evs. service_reachable X N (fst (g fl s), ts[i := t], log @ evs) \<and>
     mirrors k cfg (ctr, p fl s) t \<and>
     (fst (g fl s) = fst s \<or> (\<exists>tr. explained ctr tr \<and> Committed tr (fst s) (fst (g fl s)) \<in> set evs))"
proof -
  have ask: ?thesis
    if x: "explained ctr tr" and d: "delivers q ctr m"
      and eq: "Atom g p = await (lift_conn m) (\<lambda>a. link k cfg (q' a))" and n: "\<And>a. m \<noteq> Return a"
      and t: "ts ! i = (tr, Call q q')" for tr q m q'
  proof (cases m)
    case (Atom g' p')
    then have g: "fst (g fl s) = fst s"
      and p: "p fl s = await (lift_conn (p' fl (snd s))) (\<lambda>a. link k cfg (q' a))" using eq by auto
    have "delivers q ctr (p' fl (snd s))" using d Atom by (simp add: delivers_atom)
    from settle[OF r i t x this] g p show ?thesis by auto
  qed (use eq n in auto)
  from m show ?thesis
  proof cases
    case (Idle m)
    have "service_reachable X N (fst s, ts[i := ts ! i], log @ [])" using r by simp
    moreover have "fst (g fl s) = fst s \<and> mirrors k cfg (ctr, p fl s) (ts ! i)"
      using Idle by (cases m) (auto intro: mirrors.Idle)
    ultimately show ?thesis by (metis (no_types, lifting))
  next
    case (Running tr p')
    show ?thesis
    proof (cases p')
      case (Atom g' p'')
      then have g: "g fl s = (g' fl (fst s), snd s)" and p: "p fl s = link k cfg (p'' fl (fst s))"
        using Running by auto
      have "service_reachable X N (g' fl (fst s), ts[i := (tr, p'' fl (fst s))],
          log @ [Committed tr (fst s) (g' fl (fst s))])"
        by (rule reachable.Step[OF r], rule Commit) (use i Running Atom in auto)
      then show ?thesis using g p Running(3) mirrors.Running[OF Running(3)] by fastforce
    next
      case (Call q p'')
      have "perform k cfg q \<noteq> Return a" for a using perform_awaits[of k cfg q] by auto
      with ask[OF Running(3) delivers_perform[of q ctr k cfg], of p''] Running(1,2) Call show ?thesis by simp
    qed (use Running in auto)
  next
    case (Asking tr q m p')
    then show ?thesis using ask by blast
  qed
qed

lemma mirror_call:
  assumes r: "service_reachable X N (w, ts, log)" and i: "i < length ts"
    and m: "mirrors k cfg (ctr, Call call p) (ts ! i)"
  shows "\<exists>t evs. service_reachable X N (w, ts[i := t], log @ evs) \<and>
     mirrors k cfg (ctr @ [(call, a)], p a) t"
  using m
proof cases
  case (Idle m)
  have "service_reachable X N (w, ts[i := ts ! i], log @ [])" using r by simp
  moreover have "mirrors k cfg (ctr @ [(call, a)], p a) (ts ! i)"
    using Idle by (cases m) (auto intro: mirrors.Idle)
  ultimately show ?thesis by blast
next
  case (Running tr p')
  show ?thesis
  proof (cases p')
    case (Call q p'')
    obtain g h where "perform k cfg q = Atom g h" using perform_awaits by blast
    with Running Call show ?thesis by simp
  qed (use Running in auto)
next
  case (Asking tr q m p')
  then obtain p'' where c: "m = Call call p''" and p: "p a = await (lift_conn (p'' a)) (\<lambda>a. link k cfg (p' a))"
    by (cases m) auto
  have "explained (ctr @ [(call, a)]) tr" using Asking by (auto intro: explained_extends simp: extends_def)
  moreover have "delivers q (ctr @ [(call, a)]) (p'' a)" using Asking c by (simp add: delivers_call)
  ultimately show ?thesis using settle[OF r i Asking(2)] p by simp
qed

section \<open>Corresponding executions\<close>

text \<open>Every commit of the whole that changes database or memory is one of the services.\<close>

definition commits_match ::
  "(world \<times> conn, client_call, client_answer) event list \<Rightarrow> (world, env_call, env_answer) event list \<Rightarrow> bool" where
  "commits_match log log' \<longleftrightarrow>
     (\<forall>ctr s1 s2. Committed ctr s1 s2 \<in> set log \<longrightarrow> fst s2 \<noteq> fst s1 \<longrightarrow>
        (\<exists>tr. explained ctr tr \<and> Committed tr (fst s1) (fst s2) \<in> set log'))"

lemma commits_match_snoc:
  assumes "commits_match log log'"
    and "\<And>ctr s1 s2. e = Committed ctr s1 s2 \<Longrightarrow> fst s2 \<noteq> fst s1 \<Longrightarrow>
      \<exists>tr. explained ctr tr \<and> Committed tr (fst s1) (fst s2) \<in> set evs"
  shows "commits_match (log @ [e]) (log' @ evs)"
  unfolding commits_match_def
proof (intro allI impI)
  fix ctr s1 s2 assume e: "Committed ctr s1 s2 \<in> set (log @ [e])" and ne: "fst s2 \<noteq> fst s1"
  then consider "Committed ctr s1 s2 \<in> set log" | "e = Committed ctr s1 s2" by auto
  then show "\<exists>tr. explained ctr tr \<and> Committed tr (fst s1) (fst s2) \<in> set (log' @ evs)"
  proof cases
    case 1
    then show ?thesis using assms(1) ne unfolding commits_match_def set_append by blast
  next
    case 2
    then show ?thesis using assms(2) ne unfolding set_append by blast
  qed
qed

definition pools_match ::
  "app_config \<Rightarrow> (world \<times> conn, exn, client_call, client_answer) pool
    \<Rightarrow> (world, exn, env_call, env_answer) pool \<Rightarrow> bool" where
  "pools_match cfg c c' \<longleftrightarrow>
     (case (c, c') of ((s, ts, log), (w, ts', log')) \<Rightarrow>
        w = fst s \<and> length ts' = length ts \<and> (\<forall>i < length ts. mirrors i cfg (ts ! i) (ts' ! i)) \<and>
        commits_match log log')"

lemma mirrors_update:
  assumes "\<forall>i < length ts. mirrors i cfg (ts ! i) (ts' ! i)" and "length ts' = length ts"
    and "mirrors i cfg u u'"
  shows "\<forall>j < length (ts[i := u]). mirrors j cfg (ts[i := u] ! j) (ts'[i := u'] ! j)"
proof (intro allI impI)
  fix j assume "j < length (ts[i := u])"
  with assms show "mirrors j cfg (ts[i := u] ! j) (ts'[i := u'] ! j)"
    by (cases "j = i") auto
qed

lemma mirrors_spawn:
  assumes "linked_handler X N cfg k p"
  obtains p' where "service_handler X N p'" "mirrors k cfg ([], p) ([], p')"
  using assms
proof cases
  case (Service c)
  have "service_handler X N (handler X N c)" unfolding service_handler_def by blast
  moreover have "mirrors k cfg ([], p) ([], handler X N c)"
    unfolding Service by (rule mirrors.Running[OF explained_empty])
  ultimately show ?thesis by (rule that)
next
  case (Callback m)
  have "service_handler X N (handler X N CallCycle)" unfolding service_handler_def by blast
  moreover have "mirrors k cfg ([], p) ([], handler X N CallCycle)"
    unfolding Callback(1) by (rule mirrors.Idle)
  ultimately show ?thesis by (rule that)
qed

lemma projection_step:
  assumes "pool_step (linked_handler X N cfg) linked_clock linked_restart c d"
    and "service_reachable X N c'" and "pools_match cfg c c'"
  shows "\<exists>d'. service_reachable X N d' \<and> pools_match cfg d d'"
proof -
  obtain w' ts' log' where c': "c' = (w', ts', log')" by (cases c') auto
  show ?thesis
    using assms(1,3)
  proof (induction rule: pool_step.induct)
    case (Spawn ts p s log)
    obtain p' where p': "service_handler X N p'" "mirrors (length ts) cfg ([], p) ([], p')"
      using Spawn(1) by (rule mirrors_spawn)
    have "service_reachable X N (w', ts' @ [([], p')], log')"
      by (rule reachable.Step[OF assms(2)[unfolded c']]) (rule pool_step.Spawn, rule p'(1))
    moreover have "pools_match cfg (s, ts @ [([], p)], log) (w', ts' @ [([], p')], log')"
      using Spawn(2) p'(2) by (auto simp: pools_match_def c' nth_append less_Suc_eq)
    ultimately show ?case by blast
  next
    case (Commit i ts ctr g p s log fl)
    then have i: "i < length ts'" and m: "mirrors i cfg (ctr, Atom g p) (ts' ! i)"
      and all: "\<forall>i < length ts. mirrors i cfg (ts ! i) (ts' ! i)" "length ts' = length ts"
      and log: "commits_match log log'" and w: "w' = fst s"
      by (auto simp: pools_match_def c' dest: spec[of _ i])
    from mirror_atom[OF assms(2)[unfolded c' w] i m, of fl] obtain t evs where
      t: "service_reachable X N (fst (g fl s), ts'[i := t], log' @ evs)" "mirrors i cfg (ctr, p fl s) t"
        "fst (g fl s) = fst s \<or> (\<exists>tr. explained ctr tr \<and> Committed tr (fst s) (fst (g fl s)) \<in> set evs)"
      by blast
    have "commits_match (log @ [Committed ctr s (g fl s)]) (log' @ evs)"
      by (rule commits_match_snoc[OF log]) (use t(3) in auto)
    with t(1) mirrors_update[OF all t(2)] all(2) show ?case
      by (intro exI[of _ "(fst (g fl s), ts'[i := t], log' @ evs)"]) (simp add: pools_match_def)
  next
    case (Send i ts ctr q p s log a)
    then have i: "i < length ts'" and m: "mirrors i cfg (ctr, Call q p) (ts' ! i)"
      and all: "\<forall>i < length ts. mirrors i cfg (ts ! i) (ts' ! i)" "length ts' = length ts"
      and log: "commits_match log log'" and w: "w' = fst s"
      by (auto simp: pools_match_def c' dest: spec[of _ i])
    from mirror_call[OF assms(2)[unfolded c' w] i m, of a] obtain t evs where
      t: "service_reachable X N (fst s, ts'[i := t], log' @ evs)" "mirrors i cfg (ctr @ [(q, a)], p a) t"
      by blast
    have "commits_match (log @ [Sent q s]) (log' @ evs)" by (rule commits_match_snoc[OF log]) simp
    with t(1) mirrors_update[OF all t(2)] all(2) show ?case
      by (intro exI[of _ "(fst s, ts'[i := t], log' @ evs)"]) (simp add: pools_match_def)
  next
    case (Ambient s s' ts log)
    then have "service_reachable X N (fst s', ts', log')"
      by (intro reachable.Step[OF assms(2)[unfolded c']] pool_step.Ambient)
        (simp add: linked_clock_def pools_match_def c')
    with Ambient(2) show ?case
      by (intro exI[of _ "(fst s', ts', log')"]) (simp add: pools_match_def c')
  next
    case (Crash s ts log)
    have "service_reachable X N (restart w', [], log' @ [Crashed])"
      by (rule reachable.Step[OF assms(2)[unfolded c']]) (rule pool_step.Crash)
    moreover have "commits_match (log @ [Crashed]) (log' @ [Crashed])"
      by (rule commits_match_snoc) (use Crash in \<open>auto simp: pools_match_def c'\<close>)
    ultimately show ?case
      using Crash by (intro exI[of _ "(restart w', [], log' @ [Crashed])"])
        (simp add: pools_match_def c' linked_restart_def)
  qed
qed

lemma projection:
  assumes "reachable (linked_handler X N cfg) linked_clock linked_restart linked_start c"
  shows "\<exists>c'. service_reachable X N c' \<and> pools_match cfg c c'"
  using assms
proof (induction rule: reachable.induct)
  case (Start s)
  then have "service_reachable X N (fst s, [], [])" by (auto simp: linked_start_def intro: reachable.Start)
  then show ?case by (intro exI[of _ "(fst s, [], [])"]) (simp add: pools_match_def commits_match_def)
next
  case (Step c c')
  then show ?case using projection_step by blast
qed

lemma linked_projection:
  assumes "linked_execution X cfg s log"
  obtains log' where "execution X (xrpl_network_id cfg) (fst s) log'" and "commits_match log log'"
proof -
  obtain ts where "linked_reachable X cfg (s, ts, log)" using assms by (auto simp: linked_execution_def)
  from projection[OF this] obtain c' where c': "service_reachable X (xrpl_network_id cfg) c'"
      "pools_match cfg (s, ts, log) c'" by blast
  obtain w' ts' log' where "c' = (w', ts', log')" by (cases c') auto
  with c' have "execution X (xrpl_network_id cfg) (fst s) log' \<and> commits_match log log'"
    by (auto simp: execution_def pools_match_def)
  then show ?thesis using that by blast
qed

end
