(* ===== verification/Whole.thy ===== *)
theory Whole
  imports Provenance Projection Bounds
begin

text \<open>
  What the parts guarantee together, once the services run on the connection manager and only the
  clients, the database and the clock are left outside.
\<close>

section \<open>Runs on a steady connection\<close>

lemma run_lift_conn:
  "run env (lift_conn p) ctr s =
     (case run env p ctr (snd s) of
        (Inl e, ctr', c') \<Rightarrow> (Inl (exn_of e), ctr', (fst s, c'))
      | (Inr x, ctr', c') \<Rightarrow> (Inr x, ctr', (fst s, c')))"
  by (induction p arbitrary: ctr s) (auto split: prod.split sum.split)

text \<open>The exchange of a service, as its client sees it.\<close>

fun relay :: "nat \<Rightarrow> (env_call, env_answer) trace \<Rightarrow> (client_call, client_answer) trace" where
  "relay c [] = []"
| "relay c ((Request q, Response r) # tr) = (ClientRequest c q, Answered r) # relay c tr"
| "relay c (x # tr) = relay c tr"

lemma relay_append: "relay c (tr @ tr') = relay c tr @ relay c tr'"
  by (induction c tr rule: relay.induct) auto

lemma run_request_steady:
  assumes "active w = Some e" and "env ctr (ClientRequest (ep_client e) q) = Answered r"
  shows "run env (lift_conn (perform k cfg (Request q))) ctr (v, w) =
    (Inr (Response r), ctr @ [(ClientRequest (ep_client e) q, Answered r)], (v, w))"
  using assms
  by (simp add: run_lift_conn run_simps request_ledger_def connection_def decide_connection_def
      attempt_request_def)

lemma run_extends_trace:
  "run env p tr w = (res, tr', w') \<Longrightarrow> \<exists>evs. tr' = tr @ evs"
proof (induction p arbitrary: tr w)
  case (Atom g p)
  from Atom.IH[of NoFault w tr "g NoFault w"] Atom.prems show ?case by simp
next
  case (Call q p)
  from Call.IH[of "env tr q" "tr @ [(q, env tr q)]" w] Call.prems show ?case by auto
qed auto

lemma run_link_steady:
  assumes "active c = Some e"
    and "\<And>tr q. \<exists>r. senv tr (Request q) = Response r \<and>
      env (relay (ep_client e) tr) (ClientRequest (ep_client e) q) = Answered r"
    and "run senv p tr w = (res, tr', w')" and "\<forall>x \<in> set tr'. \<not> is_switch (fst x)"
  shows "run env (link k cfg p) (relay (ep_client e) tr) (w, c) = (res, relay (ep_client e) tr', (w', c))"
  using assms(3,4)
proof (induction p arbitrary: tr w)
  case (Call q p)
  let ?a = "senv tr q"
  have run: "run senv (p ?a) (tr @ [(q, ?a)]) w = (res, tr', w')" using Call.prems(1) by simp
  obtain evs where "tr' = (tr @ [(q, ?a)]) @ evs" using run_extends_trace[OF run] by blast
  with Call.prems(2) have "\<not> is_switch q" by simp
  then obtain q' where q: "q = Request q'" by (cases q) (auto simp: is_switch_def)
  obtain r where r: "senv tr (Request q') = Response r"
      "env (relay (ep_client e) tr) (ClientRequest (ep_client e) q') = Answered r"
    using assms(2) by blast
  note asked = run_request_steady[where env = env, OF assms(1) r(2), of k cfg w]
  have "relay (ep_client e) (tr @ [(q, ?a)]) =
      relay (ep_client e) tr @ [(ClientRequest (ep_client e) q', Answered r)]"
    by (simp add: q r(1) relay_append)
  with Call.IH[OF run Call.prems(2)] show ?case
    unfolding link.simps q run_await asked by (simp add: q r(1))
next
  case (Atom g p)
  have "run senv (p NoFault w) tr (g NoFault w) = (res, tr', w')" using Atom.prems(1) by simp
  from Atom.IH[OF this Atom.prems(2)] show ?case by simp
qed simp_all

text \<open>What a program never sends is not in its exchange.\<close>

lemma run_never_sends:
  "run env p tr w = (res, tr @ evs, w') \<Longrightarrow> at_most_calls P 0 p \<Longrightarrow> x \<in> set evs \<Longrightarrow> \<not> P (fst x)"
proof (induction p arbitrary: tr w evs)
  case (Atom g p)
  from Atom.IH[of NoFault w tr "g NoFault w" evs] Atom.prems show ?case
    by (simp add: at_most_calls_def costs_at_most_def)
next
  case (Call q p)
  let ?a = "env tr q"
  have run: "run env (p ?a) (tr @ [(q, ?a)]) w = (res, tr @ evs, w')" using Call.prems(1) by simp
  from run_extends_trace[OF this] obtain evs' where evs: "evs = (q, ?a) # evs'" by auto
  have c: "\<not> P q" "at_most_calls P 0 (p ?a)"
    using Call.prems(2) by (auto simp: at_most_calls_def costs_at_most_def split: if_splits)
  from Call.IH[of ?a "tr @ [(q, ?a)]" w evs'] run evs c(2) Call.prems(3)
  have "x = (q, ?a) \<or> \<not> P (fst x)" by auto
  with c(1) show ?case by auto
qed auto

lemma run_without_switch:
  assumes "run env p [] w = (res, tr, w')" and "at_most_calls is_switch 0 p"
  shows "\<forall>x \<in> set tr. \<not> is_switch (fst x)"
  using run_never_sends[of env p "[]" w res tr w' is_switch] assms by auto

lemma price_switch: "(\<lambda>q. if is_switch q then 1 else 0) = price 0 0 1"
proof (rule ext)
  show "(if is_switch q then 1 else 0) = price 0 0 1 q" for q by (cases q) (simp_all add: is_switch_def)
qed

lemma never_switches:
  "at_most_calls is_switch 0 (handler X N (CallCreate uuid key dto))"
  "at_most_calls is_switch 0 (handler X N (CallPrepare i))"
  "at_most_calls is_switch 0 (handler X N (CallSignature i b))"
  unfolding at_most_calls_def price_switch by (simp_all add: costs_forget affordable)

section \<open>A concrete history of the whole\<close>

definition standing :: "conn \<Rightarrow> bool" where
  "standing w \<longleftrightarrow>
     (\<exists>e. active w = Some e \<and> ep_client e < created_clients w) \<and> switching w = None \<and> \<not> destroyed w"

definition client_env :: "demo_ledger \<Rightarrow> (client_call, client_answer) answers" where
  "client_env l ctr call =
     (case call of ClientRequest c q \<Rightarrow> Answered (demo_answer l q) | _ \<Rightarrow> Rejected unavailable)"

lemma demo_network [simp]: "xrpl_network_id demo_config = 2"
  by (simp add: demo_config_def)

lemma linked_connected:
  obtains c log e where "linked_execution demo_codec demo_config (empty_world, c) log" "active c = Some e"
    "ep_client e = 0" "standing c"
proof -
  obtain c e ctr where c: "switched Primary e [ep_client e] c" "ep_client e = 0" "created_clients c = 1"
      "\<not> destroyed c" "run (breaking 2) (ensure_connected 0 demo_config) [] fresh_connection = (Inr (), ctr, c)"
    by (rule reachable_connected)
  have "linked_start (empty_world, fresh_connection)"
    by (simp add: linked_start_def fresh_database_def empty_world_def)
  then have r: "linked_reachable demo_codec demo_config ((empty_world, fresh_connection), [], [])"
    by (rule reachable.Start)
  have h: "linked_handler demo_codec (xrpl_network_id demo_config) demo_config (length ([] :: (world \<times> conn, exn, client_call, client_answer) task list))
      (lift_conn (ensure_connected 0 demo_config))"
    by (simp add: linked_handler.Callback manager_callback.intros(1))
  have "run (breaking 2) (lift_conn (ensure_connected 0 demo_config)) [] (empty_world, fresh_connection) =
      (Inr (), ctr, (empty_world, c))"
    using c(5) by (simp add: run_lift_conn)
  from reachable_handler[OF r h this] obtain log where
    "linked_execution demo_codec demo_config (empty_world, c) log"
    unfolding linked_execution_def by blast
  then show ?thesis by (rule that) (use c in \<open>auto simp: switched_def standing_def\<close>)
qed

text \<open>A handler of the service run in the whole, on the active endpoint.\<close>

lemma linked_move:
  assumes e: "linked_execution demo_codec demo_config (w, c) log" and a: "active c = Some e"
    and r: "run (demo_env l) (handler demo_codec 2 call) [] w = (res, tr, w')"
    and n: "\<forall>x \<in> set tr. \<not> is_switch (fst x)"
  obtains k where "linked_execution demo_codec demo_config (w', c)
      (log @ run_events (client_env l) (link k demo_config (handler demo_codec 2 call)) [] (w, c))"
    and "run (client_env l) (link k demo_config (handler demo_codec 2 call)) [] (w, c) =
      (res, relay (ep_client e) tr, (w', c))"
proof -
  have run: "run (client_env l) (link k demo_config (handler demo_codec 2 call)) [] (w, c) =
      (res, relay (ep_client e) tr, (w', c))" for k
    using run_link_steady[OF a _ r n, of "client_env l"] by (simp add: demo_env_def client_env_def)
  obtain k where "linked_execution demo_codec demo_config (w', c)
      (log @ run_events (client_env l) (link k demo_config (handler demo_codec 2 call)) [] (w, c))"
    by (rule linked_execution_handler[where p = "\<lambda>k. link k demo_config (handler demo_codec 2 call)", OF e _ run])
      (simp_all only: demo_network linked_handler.Service)
  with run that show ?thesis by blast
qed

definition linked_history :: "intent_row \<Rightarrow> bool" where
  "linked_history r \<longleftrightarrow>
     (\<exists>w c log e. linked_execution demo_codec demo_config (w, c) log \<and> demo_state w r True \<and>
        active c = Some e \<and> ep_client e = 0 \<and> standing c)"

lemma linked_history_step:
  assumes "linked_history r"
    and "\<And>w. demo_state w r True \<Longrightarrow> \<exists>tr w'. run (demo_env l) (handler demo_codec 2 call) [] w = (Inr (), tr, w') \<and>
      demo_state w' r' True"
    and "at_most_calls is_switch 0 (handler demo_codec 2 call)"
  shows "linked_history r'"
proof -
  obtain w c log e where w: "linked_execution demo_codec demo_config (w, c) log" "demo_state w r True" "active c = Some e"
      "ep_client e = 0" "standing c"
    using assms(1) unfolding linked_history_def by blast
  obtain tr w' where r: "run (demo_env l) (handler demo_codec 2 call) [] w = (Inr (), tr, w')" "demo_state w' r' True"
    using assms(2)[OF w(2)] by blast
  have n: "\<forall>x \<in> set tr. \<not> is_switch (fst x)" by (rule run_without_switch[OF r(1) assms(3)])
  from linked_move[OF w(1,3) r(1) n] obtain log' where "linked_execution demo_codec demo_config (w', c) log'" by metis
  with r(2) w(3-) show ?thesis unfolding linked_history_def by blast
qed

lemma linked_created: "linked_history demo_created"
proof -
  obtain c log e where 0: "linked_execution demo_codec demo_config (empty_world, c) log" "active c = Some e"
      "ep_client e = 0" "standing c" by (rule linked_connected)
  obtain tr w where 1: "run (demo_env (at_ledger 100)) (handler demo_codec 2 (CallCreate ''id1'' ''key1'' demo_payment)) []
      empty_world = (Inr (), tr, w)" "demo_state w demo_created False"
    using demo_create by blast
  have n: "\<forall>x \<in> set tr. \<not> is_switch (fst x)"
    by (rule run_without_switch[OF 1(1) never_switches(1)])
  obtain log2 where 2: "linked_execution demo_codec demo_config (w, c) log2" using linked_move[OF 0(1,2) 1(1) n] by blast
  obtain w2 where 3: "run (demo_env (at_ledger 100)) (handler demo_codec 2 CallCycle) [] w =
      (Inr (), [asked (at_ledger 100) validated_ledger_request], w2)" "demo_state w2 demo_created True"
    using demo_recover[OF 1(2), of "at_ledger 100"] by (auto simp: demo_ok_def max_safe_integer_def)
  have "\<forall>x \<in> set [asked (at_ledger 100) validated_ledger_request]. \<not> is_switch (fst x)"
    by (simp add: asked_def is_switch_def)
  from linked_move[OF 2 0(2) 3(1) this] obtain log3 where "linked_execution demo_codec demo_config (w2, c) log3" by metis
  with 3(2) 0(2-) show ?thesis unfolding linked_history_def by blast
qed

lemma linked_awaiting: "linked_history demo_awaiting"
  by (rule linked_history_step[OF linked_created demo_prepare never_switches(2)])

lemma linked_signed: "linked_history demo_signed"
  by (rule linked_history_step[OF linked_awaiting demo_sign never_switches(3)])

section \<open>Properties\<close>

text \<open>
  C10. The whole refines the services: seen through database and memory, every execution of the
  services on the connection manager, with its failovers, callbacks and shared switches, is an
  execution in which the manager is the environment, and every commit there is one of a service that
  was answered only what some client answered. What holds of the services' executions therefore
  holds of the whole.
\<close>

theorem linked_refines_services:
  assumes "linked_execution X cfg s log"
  shows "\<exists>log'. execution X (xrpl_network_id cfg) (fst s) log' \<and>
    (\<forall>ctr s1 s2. Committed ctr s1 s2 \<in> set log \<longrightarrow> fst s2 \<noteq> fst s1 \<longrightarrow>
       (\<exists>tr. Committed tr (fst s1) (fst s2) \<in> set log' \<and>
          (\<forall>q r. (Request q, Response r) \<in> set tr \<longrightarrow> (\<exists>c. (ClientRequest c q, Answered r) \<in> set ctr))))"
proof -
  obtain log' where log': "execution X (xrpl_network_id cfg) (fst s) log'" "commits_match log log'"
    using assms by (rule linked_projection)
  have "\<exists>tr. Committed tr (fst s1) (fst s2) \<in> set log' \<and>
      (\<forall>q r. (Request q, Response r) \<in> set tr \<longrightarrow> (\<exists>c. (ClientRequest c q, Answered r) \<in> set ctr))"
    if c: "Committed ctr s1 s2 \<in> set log" "fst s2 \<noteq> fst s1" for ctr s1 s2
  proof -
    from log'(2) c obtain tr where
      "explained ctr tr" "Committed tr (fst s1) (fst s2) \<in> set log'"
      unfolding commits_match_def by blast
    then show ?thesis unfolding explained_def exchanged_def by blast
  qed
  with log'(1) show ?thesis by blast
qed

theorem linked_refines_services_witness:
  "\<exists>s log log'. linked_execution demo_codec demo_config s log \<and> active (snd s) \<noteq> None \<and>
     execution demo_codec 2 (fst s) log' \<and> intents (fst s) = [demo_signed]"
proof -
  obtain w c log e where w: "linked_execution demo_codec demo_config (w, c) log" "demo_state w demo_signed True"
      "active c = Some e"
    using linked_signed unfolding linked_history_def by blast
  from linked_refines_services[OF w(1)] obtain log' where "execution demo_codec 2 w log'" by auto
  with w show ?thesis by (intro exI[of _ "(w, c)"]) (auto simp: demo_state_def)
qed

text \<open>
  C11. In the whole, whatever failed over, restarted or ran beside it: a submit command is sent to
  a client only after recovery, with the signed blob of a stored intent whose prepared transaction
  it signs; and that client is the one of an endpoint that was vetted since the last restart, for
  the configured network.
\<close>

theorem submissions_reach_vetted_servers:
  assumes "linked_execution X cfg s (pre @ Sent (ClientRequest c req) s1 # post)"
    and "command req = ''submit''"
  shows "recovered (fst s1) \<and>
    (\<exists>r \<in> set (intents (fst s1)). \<exists>p fee seq ledger tx pb v.
       req = submit_request (vb_tx_blob v) \<and> signed_tx_blob r = Some (vb_tx_blob v) \<and>
       intent_payload r = JObj (payload_object p) \<and>
       prepared_as X (xrpl_network_id cfg) p fee seq ledger tx pb \<and>
       prepared_tx_blob r = Some pb \<and> verify X (vb_tx_blob v) pb = Inr v \<and>
       simulation_engine_result r = Some ''tesSUCCESS'') \<and>
    (\<exists>e. ep_client e = c \<and> vetted_since cfg pre e)"
proof -
  have f: "foreign req" using assms(2) by (simp add: foreign_def bootstrap_commands_def)
  have "world_ok X (xrpl_network_id cfg) (fst s1)"
    using linked_sent[OF assms(1), of "ClientRequest c req" s1] by (simp add: linked_ok_def)
  with linked_sent_vetted[OF assms(1) f] submit_artifacts[OF _ _ assms(2)] show ?thesis by blast
qed

theorem submissions_reach_vetted_servers_witness:
  "\<exists>s pre c s1 post e. linked_execution demo_codec demo_config s
       (pre @ Sent (ClientRequest c (submit_request ''ABCDEF'')) s1 # post) \<and>
     recovered (fst s1) \<and> ep_client e = c \<and> vetted_since demo_config pre e"
proof -
  let ?q = "submit_request ''ABCDEF''" and ?l = "at_ledger 102"
  obtain w c log e where w: "linked_execution demo_codec demo_config (w, c) log" "demo_state w demo_signed True"
      "active c = Some e"
    using linked_signed unfolding linked_history_def by blast
  obtain w' where r: "run (demo_env ?l) (handler demo_codec 2 (CallSubmit ''id1'')) [] w =
      (Inr (), [asked ?l validated_ledger_request, asked ?l ?q], w')"
    using demo_submit_run[OF w(2)] by blast
  then obtain k where m: "linked_execution demo_codec demo_config (w', c)
        (log @ run_events (client_env ?l) (link k demo_config (handler demo_codec 2 (CallSubmit ''id1''))) [] (w, c))"
      "run (client_env ?l) (link k demo_config (handler demo_codec 2 (CallSubmit ''id1''))) [] (w, c) =
        (Inr (), relay (ep_client e) [asked ?l validated_ledger_request, asked ?l ?q], (w', c))"
    by (rule linked_move[OF w(1,3)]) (simp_all add: asked_def is_switch_def)
  let ?evs = "run_events (client_env ?l) (link k demo_config (handler demo_codec 2 (CallSubmit ''id1''))) [] (w, c)"
  have "(ClientRequest (ep_client e) ?q, Answered (demo_answer ?l ?q)) \<in>
      set (relay (ep_client e) [asked ?l validated_ledger_request, asked ?l ?q])"
    by (simp add: asked_def)
  from run_events_sent[OF m(2) this] obtain s1 where s1: "Sent (ClientRequest (ep_client e) ?q) s1 \<in> set ?evs" by auto
  then obtain evs post where "?evs = evs @ Sent (ClientRequest (ep_client e) ?q) s1 # post"
    by (meson split_list)
  with m(1) have x: "linked_execution demo_codec demo_config (w', c)
      ((log @ evs) @ Sent (ClientRequest (ep_client e) ?q) s1 # post)" by simp
  have "command ?q = ''submit''" by (simp add: submit_request_def)
  from submissions_reach_vetted_servers[OF x this] x show ?thesis by blast
qed

text \<open>
  C12. In the whole, every committed change of an intent's status is one of the specified steps, and
  each answer of a ledger it rests on was given, within the committing handler, by a client whose
  endpoint was vetted since the last restart: the servers behind an outcome named the configured
  network, a working state and a fresh validated ledger.
\<close>

theorem status_changes_rest_on_vetted_servers:
  assumes "linked_execution X cfg s (pre @ Committed ctr s1 s2 # post)"
    and "find_row i (fst s1) = Some r" and "find_row i (fst s2) = Some r'" and "status r' \<noteq> status r"
  shows "\<exists>tr reason. row_step X (xrpl_network_id cfg) tr reason r r' \<and>
    (\<forall>q a. (Request q, Response a) \<in> set tr \<longrightarrow>
       (\<exists>e. (ClientRequest (ep_client e) q, Answered a) \<in> set ctr \<and> vetted_since cfg pre e))"
proof -
  obtain log' where log': "execution X (xrpl_network_id cfg) (fst s) log'"
      "commits_match (pre @ Committed ctr s1 s2 # post) log'"
    using assms(1) by (rule linked_projection)
  have "fst s2 \<noteq> fst s1" using assms(2-4) by auto
  with log'(2) obtain tr where tr: "explained ctr tr" "Committed tr (fst s1) (fst s2) \<in> set log'"
    unfolding commits_match_def by (meson in_set_conv_decomp)
  from commit_status_change[OF log'(1) tr(2) assms(2-4)] obtain reason where
    "row_step X (xrpl_network_id cfg) tr reason r r'" by blast
  moreover have "\<exists>e. (ClientRequest (ep_client e) q, Answered a) \<in> set ctr \<and> vetted_since cfg pre e"
    if q: "(Request q, Response a) \<in> set tr" for q a
  proof -
    from tr(1) q obtain c where c: "(ClientRequest c q, Answered a) \<in> set ctr" "foreign q"
      unfolding explained_def exchanged_def by blast
    from linked_evidence_vetted[OF assms(1) c] c(1) show ?thesis by blast
  qed
  ultimately show ?thesis by blast
qed

theorem status_changes_rest_on_vetted_servers_witness:
  "\<exists>s pre ctr s1 s2 post r r' q a e. linked_execution demo_codec demo_config s (pre @ Committed ctr s1 s2 # post) \<and>
     find_row ''id1'' (fst s1) = Some r \<and> find_row ''id1'' (fst s2) = Some r' \<and> status r = CREATED \<and>
     status r' = PREPARED \<and> (ClientRequest (ep_client e) q, Answered a) \<in> set ctr \<and>
     vetted_since demo_config pre e"
proof -
  obtain w c log e where w: "linked_execution demo_codec demo_config (w, c) log" "demo_state w demo_created True"
      "active c = Some e"
    using linked_created unfolding linked_history_def by blast
  let ?h = "handler demo_codec 2 (CallPrepare ''id1'')" and ?env = "client_env (at_ledger 100)"
  obtain tr w' where r: "run (demo_env (at_ledger 100)) ?h [] w = (Inr (), tr, w')" "demo_state w' demo_awaiting True"
    using demo_prepare[OF w(2)] by blast
  obtain k where m: "linked_execution demo_codec demo_config (w', c) (log @ run_events ?env (link k demo_config ?h) [] (w, c))"
      "run ?env (link k demo_config ?h) [] (w, c) = (Inr (), relay (ep_client e) tr, (w', c))"
    by (rule linked_move[OF w(1,3) r(1) run_without_switch[OF r(1) never_switches(2)]])
  let ?P = "\<lambda>s :: world \<times> conn. \<exists>r. find_row ''id1'' (fst s) = Some r \<and> status r = CREATED"
  have "find_row ''id1'' w = Some demo_created" "find_row ''id1'' w' = Some demo_awaiting"
    using w(2) r(2) by (auto simp: demo_state_def demo_created_def new_row_def intro!: find_single)
  then have "?P (w, c)" "\<not> ?P (w', c)" by (simp_all add: demo_created_def new_row_def)
  from run_events_change[OF m(2), of ?P, OF this] obtain ctr s1 s2 where
    c: "Committed ctr s1 s2 \<in> set (run_events ?env (link k demo_config ?h) [] (w, c))" "?P s1" "\<not> ?P s2"
    by blast
  then have c': "Committed ctr s1 s2 \<in> set (log @ run_events ?env (link k demo_config ?h) [] (w, c))" by simp
  obtain r1 where r1: "find_row ''id1'' (fst s1) = Some r1" "status r1 = CREATED" using c(2) by blast
  obtain r2 where r2: "find_row ''id1'' (fst s2) = Some r2" using linked_row_stays[OF m(1) c' r1(1)] by blast
  with c(3) r1(2) have ne: "status r2 \<noteq> status r1" by auto
  obtain pre post where split: "log @ run_events ?env (link k demo_config ?h) [] (w, c) = pre @ Committed ctr s1 s2 # post"
    using c' by (meson split_list)
  note x = m(1)[unfolded split]
  from status_changes_rest_on_vetted_servers[OF x r1(1) r2 ne] obtain tr' reason where
    s: "row_step demo_codec 2 tr' reason r1 r2"
      "\<And>q a. (Request q, Response a) \<in> set tr' \<Longrightarrow>
        \<exists>e. (ClientRequest (ep_client e) q, Answered a) \<in> set ctr \<and> vetted_since demo_config pre e"
    by auto
  from s(1) r1(2) have "status r2 = PREPARED \<and> (\<exists>fee. answered tr' fee_request read_open_ledger_fee fee)"
    by (cases rule: row_step.cases) (auto simp: moved_def status_groups)
  then obtain a where "status r2 = PREPARED" "(Request fee_request, Response a) \<in> set tr'"
    by (auto simp: answered_def)
  moreover from s(2)[OF this(2)] obtain e' where
    "(ClientRequest (ep_client e') fee_request, Answered a) \<in> set ctr" "vetted_since demo_config pre e'" by blast
  ultimately show ?thesis using x r1 r2 by (intro exI conjI) assumption+
qed

end
