(* ===== verification/Resilience.thy ===== *)
theory Resilience
  imports Whole
begin

text \<open>
  The service on failing connections. As long as each request has one endpoint of the two that
  answers it, a handler ends in the whole exactly as it does alone against those answers: retries,
  failovers and changes of the endpoint are invisible to it.
\<close>

section \<open>What a service and its clients heard\<close>

definition told :: "(env_call, env_answer) trace \<Rightarrow> (ledger_request \<times> ledger_response) list" where
  "told = List.map_filter (\<lambda>x. case x of (Request q, Response r) \<Rightarrow> Some (q, r) | _ \<Rightarrow> None)"

definition heard :: "(client_call, client_answer) trace \<Rightarrow> (ledger_request \<times> ledger_response) list" where
  "heard = List.map_filter (\<lambda>x. case x of
     (ClientRequest c q, Answered r) \<Rightarrow> if foreign q then Some (q, r) else None | _ \<Rightarrow> None)"

lemma told_simps [simp]:
  "told [] = []" "told (tr @ tr') = told tr @ told tr'" "told [(Request q, Response r)] = [(q, r)]"
  "told [(SwitchEndpoint reason, a)] = []"
  by (simp_all add: told_def map_filter_def)

lemma heard_simps [simp]:
  "heard [] = []" "heard (tr @ tr') = heard tr @ heard tr'"
  "heard [(ClientRequest c q, Answered r)] = (if foreign q then [(q, r)] else [])"
  "heard [(call, Rejected x)] = []"
  by (cases call; simp add: heard_def map_filter_def)+

text \<open>The ledger answers from what it was asked before; which client carries the question is all one.\<close>

type_synonym ledger_answers = "(ledger_request \<times> ledger_response) list \<Rightarrow> ledger_request \<Rightarrow> ledger_response"

fun service_env :: "ledger_answers \<Rightarrow> (env_call, env_answer) answers" where
  "service_env reply tr (Request q) = Response (reply (told tr) q)"
| "service_env reply tr (SwitchEndpoint reason) = Response (RespOk [])"

text \<open>
  Clients that may break: \<open>breaks c q\<close> says that the client \<open>c\<close> fails the request \<open>q\<close>. Servers
  stay usable, and a client made after one that failed a request carries it.
\<close>

definition flaky_clients ::
  "app_config \<Rightarrow> (nat \<Rightarrow> ledger_request \<Rightarrow> bool) \<Rightarrow> ledger_answers \<Rightarrow> (client_call, client_answer) answers \<Rightarrow> bool" where
  "flaky_clients cfg breaks reply env \<longleftrightarrow>
     (\<exists>raw_info raw_definitions info. \<forall>name c. serves_well cfg env name c raw_info raw_definitions info) \<and>
     (\<forall>ctr c q. foreign q \<longrightarrow>
        (if breaks c q then \<exists>m. env ctr (ClientRequest c q) = Rejected (TransportFailure m)
         else env ctr (ClientRequest c q) = Answered (reply (heard ctr) q))) \<and>
     (\<forall>c c' q. breaks c q \<longrightarrow> c < c' \<longrightarrow> \<not> breaks c' q)"

section \<open>A failover is silent\<close>

lemma map_filter_none: "(\<And>x. x \<in> set xs \<Longrightarrow> f x = None) \<Longrightarrow> List.map_filter f xs = []"
  by (induction xs) (simp_all add: map_filter_def)

lemma silent_heard:
  assumes "\<And>q. foreign q \<Longrightarrow> at_most_calls (sends q) 0 p" and "run env p ctr w = (res, ctr', w')"
  shows "heard ctr' = heard ctr"
proof -
  obtain evs where evs: "ctr' = ctr @ evs" using run_extends_trace[OF assms(2)] by blast
  have "\<not> sends q (fst x)" if "x \<in> set evs" "foreign q" for x q
    using run_never_sends[OF assms(2)[unfolded evs] assms(1)[OF that(2)] that(1)] .
  then have "heard evs = []"
    unfolding heard_def by (intro map_filter_none) (fastforce simp: sends_def split: client_call.split client_answer.split)
  then show ?thesis by (simp add: evs)
qed

lemma run_failover_standing:
  assumes f: "flaky_clients cfg breaks reply env" and w: "standing w" and e: "active w = Some e"
  obtains e' ctr' w' where "run env (failover k cfg (ep_client e)) ctr w = (Inr e', ctr', w')"
    "heard ctr' = heard ctr" "standing w'" "active w' = Some e'" "ep_client e < ep_client e'"
proof -
  obtain raw_info raw_definitions info where s: "\<And>name c. serves_well cfg env name c raw_info raw_definitions info"
    using f unfolding flaky_clients_def by blast
  have a: "switching w = None" "\<not> destroyed w" "ep_client e < created_clients w"
    using w e by (auto simp: standing_def)
  from run_failover[OF e refl a(1,2) s refl, of k ctr] obtain e' ctr' w' where
    r: "run env (failover k cfg (ep_client e)) ctr w = (Inr e', ctr', w')" "active w' = Some e'"
      "switching w' = None" "created_clients w' = Suc (created_clients w)" "\<not> destroyed w'"
      "ep_client e' = created_clients w"
    by (auto simp: switched_def endpoint_of_def)
  moreover have "heard ctr' = heard ctr" by (rule silent_heard[OF silent_sync_carry_out(2) r(1)])
  ultimately show ?thesis using that a(3) by (simp add: standing_def)
qed

lemma run_perform_request:
  assumes f: "flaky_clients cfg breaks reply env" and w: "standing w" and q: "foreign q"
  obtains ctr' w' where "run env (perform k cfg (Request q)) ctr w = (Inr (Response (reply (heard ctr) q)), ctr', w')"
    "heard ctr' = heard ctr @ [(q, reply (heard ctr) q)]" "standing w'"
proof -
  obtain e where e: "active w = Some e" using w by (auto simp: standing_def)
  have answers: "env ctr (ClientRequest c q) = Answered (reply (heard ctr) q)" if "\<not> breaks c q" for c ctr
    using f q that by (auto simp: flaky_clients_def)
  have conn: "run env (connection k cfg) ctr w = (Inr e, ctr, w)"
    using e by (simp add: connection_def decide_connection_def run_simps)
  show ?thesis
  proof (cases "breaks (ep_client e) q")
    case False
    from answers[OF False] conn have "run env (perform k cfg (Request q)) ctr w =
        (Inr (Response (reply (heard ctr) q)), ctr @ [(ClientRequest (ep_client e) q, Answered (reply (heard ctr) q))], w)"
      by (simp add: request_ledger_def attempt_request_def run_simps)
    then show ?thesis by (rule that) (simp_all add: q w)
  next
    case True
    then obtain m where m: "env ctr (ClientRequest (ep_client e) q) = Rejected (TransportFailure m)"
      using f q unfolding flaky_clients_def by meson
    let ?ctr = "ctr @ [(ClientRequest (ep_client e) q, Rejected (TransportFailure m))]"
    obtain e' ctr2 w' where fo: "run env (failover k cfg (ep_client e)) ?ctr w = (Inr e', ctr2, w')"
        "heard ctr2 = heard ctr" "standing w'" "ep_client e < ep_client e'"
      using run_failover_standing[OF f w e, of k ?ctr] by (metis append_Nil2 heard_simps(2,4))
    have "\<not> breaks (ep_client e') q" using f True fo(4) unfolding flaky_clients_def by blast
    from answers[OF this, of ctr2] fo(1,2) conn m have "run env (perform k cfg (Request q)) ctr w =
        (Inr (Response (reply (heard ctr) q)), ctr2 @ [(ClientRequest (ep_client e') q, Answered (reply (heard ctr) q))], w')"
      by (simp add: request_ledger_def attempt_request_def run_simps)
    then show ?thesis by (rule that) (simp_all add: q fo)
  qed
qed

lemma run_perform_switch:
  assumes f: "flaky_clients cfg breaks reply env" and w: "standing w"
  obtains ctr' w' where "run env (perform k cfg (SwitchEndpoint reason)) ctr w = (Inr (Response (RespOk [])), ctr', w')"
    "heard ctr' = heard ctr" "standing w'"
proof -
  obtain e where e: "active w = Some e" using w by (auto simp: standing_def)
  obtain e' ctr' w' where fo: "run env (failover k cfg (ep_client e)) ctr w = (Inr e', ctr', w')"
      "heard ctr' = heard ctr" "standing w'"
    by (rule run_failover_standing[OF f w e])
  have "run env (switch_away k cfg) ctr w = (Inr (), ctr', w')"
    using fo(1) e by (simp add: switch_away_def failover_def run_simps split: prod.splits)
  then show ?thesis using that fo by (simp add: run_simps)
qed

section \<open>The service does not notice\<close>

lemma run_link_flaky:
  assumes f: "flaky_clients cfg breaks reply env"
    and "run (service_env reply) p tr w = (res, tr', w')" and "standing c" and "heard ctr = told tr"
    and "\<And>q a. (Request q, a) \<in> set tr' \<Longrightarrow> foreign q"
  shows "\<exists>ctr' c'. run env (link k cfg p) ctr (w, c) = (res, ctr', (w', c')) \<and> heard ctr' = told tr' \<and> standing c'"
  using assms(2-)
proof (induction p arbitrary: tr w ctr c)
  case (Atom g p)
  have "run (service_env reply) (p NoFault w) tr (g NoFault w) = (res, tr', w')" using Atom.prems(1) by simp
  from Atom.IH[OF this Atom.prems(2-4)] show ?case by simp
next
  case (Call q p)
  let ?a = "service_env reply tr q"
  have run: "run (service_env reply) (p ?a) (tr @ [(q, ?a)]) w = (res, tr', w')" using Call.prems(1) by simp
  obtain evs where "tr' = (tr @ [(q, ?a)]) @ evs" using run_extends_trace[OF run] by blast
  then have foreign: "foreign q'" if "q = Request q'" for q' using Call.prems(4)[of q' ?a] that by simp
  have "\<exists>ctr1 c1. run env (lift_conn (perform k cfg q)) ctr (w, c) = (Inr ?a, ctr1, (w, c1)) \<and>
      heard ctr1 = told (tr @ [(q, ?a)]) \<and> standing c1"
  proof (cases q)
    case (Request q')
    obtain ctr1 c1 where "run env (perform k cfg (Request q')) ctr c = (Inr (Response (reply (heard ctr) q')), ctr1, c1)"
        "heard ctr1 = heard ctr @ [(q', reply (heard ctr) q')]" "standing c1"
      by (rule run_perform_request[OF f Call.prems(2) foreign[OF Request], of k ctr])
    with Call.prems(3) show ?thesis by (simp add: Request run_lift_conn del: perform.simps)
  next
    case (SwitchEndpoint reason)
    obtain ctr1 c1 where "run env (perform k cfg (SwitchEndpoint reason)) ctr c = (Inr (Response (RespOk [])), ctr1, c1)"
        "heard ctr1 = heard ctr" "standing c1"
      by (rule run_perform_switch[OF f Call.prems(2), of k reason ctr])
    with Call.prems(3) show ?thesis by (simp add: SwitchEndpoint run_lift_conn del: perform.simps)
  qed
  then obtain ctr1 c1 where 1: "run env (lift_conn (perform k cfg q)) ctr (w, c) = (Inr ?a, ctr1, (w, c1))"
      "heard ctr1 = told (tr @ [(q, ?a)])" "standing c1" by blast
  from Call.IH[OF run 1(3,2) Call.prems(4)] show ?case by (simp add: run_await 1(1) del: perform.simps)
qed auto

section \<open>Properties\<close>

text \<open>A service asks the ledger nothing that the bootstrap asks.\<close>

lemma service_asks_foreign:
  assumes "execution X N w log" and "run env (handler X N call) [] w = (res, tr, w')" and "(Request q, a) \<in> set tr"
  shows "foreign q"
proof -
  obtain w1 where "Sent (Request q) w1 \<in> set (run_events env (handler X N call) [] w)"
    using run_events_sent[OF assms(2,3)] by auto
  with execution_sent[OF execution_handler[OF assms(1,2)], of "Request q" w1] show ?thesis
    by (auto intro: request_ok_foreign)
qed

text \<open>
  C27. Failovers are invisible to the services. In any state the whole may come to with an endpoint
  up and no switch under way: if each request that a client fails is carried by the clients made
  after it, a handler ends in the whole with the result, and the database and memory, with which it
  ends alone against the same ledger; what its clients answered is, in order, what it was told; and the
  connection stands again.
\<close>

theorem failovers_are_invisible:
  assumes "linked_execution X cfg (w, c) log" and "standing c" and "flaky_clients cfg breaks reply env"
    and "run (service_env reply) (handler X (xrpl_network_id cfg) call) [] w = (res, tr, w')"
  shows "\<exists>ctr c'. run env (link k cfg (handler X (xrpl_network_id cfg) call)) [] (w, c) = (res, ctr, (w', c')) \<and>
    heard ctr = told tr \<and> standing c'"
proof -
  obtain log' where e: "execution X (xrpl_network_id cfg) w log'"
    using linked_projection[OF assms(1)] by auto
  show ?thesis
    by (rule run_link_flaky[OF assms(3,4,2)]) (simp_all add: service_asks_foreign[OF e assms(4)])
qed

definition flaky_demo :: "demo_ledger \<Rightarrow> (client_call, client_answer) answers" where
  "flaky_demo l ctr call =
     (case call of
        ClientRequest c q \<Rightarrow>
          if \<not> foreign q then breaking 0 ctr call
          else if c = 0 then Rejected (TransportFailure ''gone'') else Answered (demo_answer l q)
      | _ \<Rightarrow> breaking 0 ctr call)"

lemma flaky_demo_flaky:
  "flaky_clients demo_config (\<lambda>c q. c = 0) (\<lambda>_. demo_answer l) (flaky_demo l)"
proof -
  obtain info where "\<And>n name c. serves_well demo_config (breaking n) name c demo_info demo_definitions info"
    using breaking_serves by blast
  then have "serves_well demo_config (flaky_demo l) name c demo_info demo_definitions info" for name c
    by (simp add: serves_well_def flaky_demo_def foreign_def bootstrap_commands_def)
  then show ?thesis unfolding flaky_clients_def by (auto simp: flaky_demo_def)
qed

theorem failovers_are_invisible_witness:
  "\<exists>w c e ctr w' c'. active c = Some e \<and> ep_client e = 0 \<and>
     run (flaky_demo (at_ledger 102)) (link 5 demo_config (handler demo_codec 2 (CallSubmit ''id1''))) [] (w, c) =
       (Inr (), ctr, (w', c')) \<and>
     map fst (heard ctr) = [validated_ledger_request, submit_request ''ABCDEF''] \<and> intents w' = [demo_sent]"
proof -
  obtain w c log e where w: "linked_execution demo_codec demo_config (w, c) log" "demo_state w demo_signed True"
      "active c = Some e" "ep_client e = 0" "standing c"
    using linked_signed unfolding linked_history_def by blast
  obtain w' where r: "run (demo_env (at_ledger 102)) (handler demo_codec 2 (CallSubmit ''id1'')) [] w =
      (Inr (), [asked (at_ledger 102) validated_ledger_request,
                asked (at_ledger 102) (submit_request ''ABCDEF'')], w')" "demo_state w' demo_sent True"
    using demo_submit_run[OF w(2)] by blast
  have "service_env (\<lambda>_. demo_answer l) tr q = demo_env l tr q" for l tr q
    by (cases q) (simp_all add: demo_env_def)
  then have "service_env (\<lambda>_. demo_answer l) = demo_env l" for l by (intro ext)
  then have "run (service_env (\<lambda>_. demo_answer (at_ledger 102))) (handler demo_codec (xrpl_network_id demo_config) (CallSubmit ''id1'')) [] w =
      (Inr (), [asked (at_ledger 102) validated_ledger_request,
                asked (at_ledger 102) (submit_request ''ABCDEF'')], w')"
    using r(1) by simp
  from failovers_are_invisible[OF w(1,5) flaky_demo_flaky this, of 5] obtain ctr c' where
    "run (flaky_demo (at_ledger 102)) (link 5 demo_config (handler demo_codec 2 (CallSubmit ''id1''))) [] (w, c) =
      (Inr (), ctr, (w', c'))"
    "heard ctr = told ([asked (at_ledger 102) validated_ledger_request] @ [asked (at_ledger 102) (submit_request ''ABCDEF'')])"
    by auto
  with w(3,4) r(2) show ?thesis
    by (intro exI[of _ w] exI[of _ c] exI[of _ e] exI[of _ ctr] exI[of _ w'] exI[of _ c'])
      (simp add: demo_state_def asked_def told_def map_filter_def)
qed

end
