(* ===== verification/Journey.thy ===== *)
theory Journey
  imports Resilience Outcome
begin

text \<open>
  The whole way of an intent through the whole system: the four calls from CREATED to VALIDATED, on
  connections that may fail at every request.
\<close>

text \<open>A method of a service, run in the whole on failing connections.\<close>

lemma run_method_flaky:
  assumes e: "execution X N w log" and h: "handler X N call = forget p" and c: "standing c"
    and f: "flaky_clients cfg breaks reply env" and r: "run (service_env reply) p [] w = (Inr x, tr, w')"
  obtains ctr c' log' where "run env (link k cfg p) [] (w, c) = (Inr x, ctr, (w', c'))" "heard ctr = told tr"
    "standing c'" "execution X N w' log'"
proof -
  have h': "run (service_env reply) (handler X N call) [] w = (Inr (), tr, w')"
    using r by (simp add: h run_forget)
  have "\<exists>ctr c'. run env (link k cfg p) [] (w, c) = (Inr x, ctr, (w', c')) \<and> heard ctr = told tr \<and> standing c'"
    by (rule run_link_flaky[OF f r c]) (simp_all add: service_asks_foreign[OF e h'])
  then obtain ctr c' where
    "run env (link k cfg p) [] (w, c) = (Inr x, ctr, (w', c'))" "heard ctr = told tr" "standing c'" by auto
  with execution_run[OF e h r] that show ?thesis by blast
qed

lemma told_requests:
  "map fst tr = map Request qs \<Longrightarrow> (\<And>q a. (Request q, a) \<in> set tr \<Longrightarrow> \<exists>r. a = Response r) \<Longrightarrow>
     map fst (told tr) = qs"
proof (induction tr arbitrary: qs)
  case (Cons x tr)
  then obtain q qs' a where x: "x = (Request q, a)" "qs = q # qs'" "map fst tr = map Request qs'"
    by (cases x; cases qs) auto
  moreover obtain r where "a = Response r" using Cons.prems(2)[of q a] x(1) by auto
  moreover have "map fst (told tr) = qs'" by (rule Cons.IH[OF x(3)]) (use Cons.prems(2) in auto)
  ultimately show ?case by (simp add: told_def map_filter_def)
qed simp

lemma service_env_answers:
  "run (service_env reply) p tr w = (res, tr', w') \<Longrightarrow> (\<And>q a. (Request q, a) \<in> set tr \<Longrightarrow> \<exists>r. a = Response r) \<Longrightarrow>
     (Request q, a) \<in> set tr' \<Longrightarrow> \<exists>r. a = Response r"
proof (induction p arbitrary: tr w)
  case (Atom g p)
  have "run (service_env reply) (p NoFault w) tr (g NoFault w) = (res, tr', w')" using Atom.prems(1) by simp
  then show ?case using Atom.IH Atom.prems(2,3) by blast
next
  case (Call call p)
  have run: "run (service_env reply) (p (service_env reply tr call)) (tr @ [(call, service_env reply tr call)]) w =
      (res, tr', w')" using Call.prems(1) by simp
  show ?case
    using Call.prems(2) by (intro Call.IH[OF run _ Call.prems(3)]) auto
qed auto

section \<open>Properties\<close>

text \<open>
  C15. The whole way of a payment, in the whole. For a created intent whose account has no other
  active intent, on connections of which each request is carried by one or the client made after it,
  four calls take it to its end: \<open>prepare\<close> against a cooperating ledger, \<open>attachSignature\<close> with a blob that
  verifies and an authorized key, \<open>submit\<close> inside the window, and a finality cycle once the ledger has
  included the transaction. The intent is VALIDATED with the result of the ledger and holds the blob of
  the client, and that blob was answered exactly once, after the validated ledger. The cycle may have any
  number of other active intents to deal with.
\<close>

theorem an_intent_comes_to_its_outcome_in_the_whole:
  assumes "linked_execution X cfg (w, c) log" and "standing c" and N: "N = xrpl_network_id cfg"
    and flaky: "\<And>j :: nat. j < 4 \<Longrightarrow> flaky_clients cfg (breaks j) (reply j) (env j)"
    and "recovered w" and "find_row i w = Some r" and "status r = CREATED"
    and "intent_payload r = JObj (payload_object p)" and "submission_attempt_count r < 2147483647"
    and "\<And>q. q \<in> set (intents w) \<Longrightarrow> status q \<in> set sequence_active_statuses \<Longrightarrow>
      source_account q \<noteq> source_account r"
    and "0 < n" and "prepared_as X N p fee seq n tx blob"
    and "cooperates X (service_env (reply 0)) (account p) n seq fee tx"
    and "verify X b blob = Inr v" and "hash64 (vb_transaction_hash v)"
    and "\<And>q. q \<in> set (intents w) \<Longrightarrow> intent_id q \<noteq> i \<Longrightarrow> transaction_hash q \<noteq> Some (vb_transaction_hash v)"
    and "authorizes X (service_env (reply 1)) (vb_signing_pub_key v) (source_account r) n2 seq"
    and "n2 \<le> last_ledger_sequence_for n"
    and "takes_submission (service_env (reply 2)) (upper b) n3 res raw" and "n3 \<le> last_ledger_sequence_for n"
    and "\<not> starts_with ''tem'' (sub_engine_result res)"
    and "responsive (service_env (reply 3)) n4"
    and "shows_included (service_env (reply 3)) (vb_transaction_hash v) n (last_ledger_sequence_for n) final idx"
  shows "\<exists>r1 ctr1 w1 c1 r2 ctr2 w2 c2 r3 ctr3 w3 c3 ctr4 w4 c4 r4.
    run (env 0) (link k1 cfg (prepare X N i)) [] (w, c) = (Inr r1, ctr1, (w1, c1)) \<and>
    run (env 1) (link k2 cfg (attach_signature X i b)) [] (w1, c1) = (Inr r2, ctr2, (w2, c2)) \<and>
    run (env 2) (link k3 cfg (submit i)) [] (w2, c2) = (Inr r3, ctr3, (w3, c3)) \<and>
    map fst (heard ctr3) = [validated_ledger_request, submit_request (upper b)] \<and>
    run (env 3) (link k4 cfg cycle) [] (w3, c3) = (Inr (), ctr4, (w4, c4)) \<and> standing c4 \<and>
    find_row i w4 = Some r4 \<and> status r4 = VALIDATED \<and> final_result r4 = Some final \<and>
    final_ledger_index r4 = Some idx \<and> signed_tx_blob r4 = Some (upper b)"
proof -
  obtain log0 where e0: "execution X N w log0" using linked_projection[OF assms(1)] N by auto
  have "\<exists>r1 tr1 w1 r2 tr2 w2 r3 tr3 w3 tr4 w4 r4.
      run (service_env (reply 0)) (prepare X N i) [] w = (Inr r1, tr1, w1) \<and>
      run (service_env (reply 1)) (attach_signature X i b) [] w1 = (Inr r2, tr2, w2) \<and>
      run (service_env (reply 2)) (submit i) [] w2 = (Inr r3, tr3, w3) \<and>
      map fst tr3 = [Request validated_ledger_request, Request (submit_request (upper b))] \<and>
      run (service_env (reply 3)) cycle [] w3 = (Inr (), tr4, w4) \<and>
      find_row i w4 = Some r4 \<and> status r4 = VALIDATED \<and> final_result r4 = Some final \<and>
      final_ledger_index r4 = Some idx \<and> signed_tx_blob r4 = Some (upper b)"
    by (rule an_intent_comes_to_its_outcome[OF e0 assms(5-23)])
  then obtain r1 tr1 w1 r2 tr2 w2 r3 tr3 w3 tr4 w4 r4 where
    s1: "run (service_env (reply 0)) (prepare X N i) [] w = (Inr r1, tr1, w1)" and
    s2: "run (service_env (reply 1)) (attach_signature X i b) [] w1 = (Inr r2, tr2, w2)" and
    s3: "run (service_env (reply 2)) (submit i) [] w2 = (Inr r3, tr3, w3)"
      "map fst tr3 = map Request [validated_ledger_request, submit_request (upper b)]" and
    s4: "run (service_env (reply 3)) cycle [] w3 = (Inr (), tr4, w4)" and
    done4: "find_row i w4 = Some r4" "status r4 = VALIDATED" "final_result r4 = Some final"
      "final_ledger_index r4 = Some idx" "signed_tx_blob r4 = Some (upper b)"
    by auto
  obtain ctr1 c1 log1 where l1: "run (env 0) (link k1 cfg (prepare X N i)) [] (w, c) = (Inr r1, ctr1, (w1, c1))"
      "standing c1" "execution X N w1 log1"
    by (rule run_method_flaky[OF e0 _ assms(2) flaky s1, of "CallPrepare i"]) simp_all
  obtain ctr2 c2 log2 where l2: "run (env 1) (link k2 cfg (attach_signature X i b)) [] (w1, c1) = (Inr r2, ctr2, (w2, c2))"
      "standing c2" "execution X N w2 log2"
    by (rule run_method_flaky[OF l1(3) _ l1(2) flaky s2, of "CallSignature i b"]) simp_all
  obtain ctr3 c3 log3 where l3: "run (env 2) (link k3 cfg (submit i)) [] (w2, c2) = (Inr r3, ctr3, (w3, c3))"
      "heard ctr3 = told tr3" "standing c3" "execution X N w3 log3"
    by (rule run_method_flaky[OF l2(3) _ l2(2) flaky s3(1), of "CallSubmit i"]) simp_all
  have h4: "run (service_env (reply 3)) (handler X N CallCycle) [] w3 = (Inr (), tr4, w4)" using s4 by simp
  have "\<exists>ctr c'. run (env 3) (link k4 cfg cycle) [] (w3, c3) = (Inr (), ctr, (w4, c')) \<and> heard ctr = told tr4 \<and> standing c'"
    by (rule run_link_flaky[OF flaky s4 l3(3)]) (simp_all add: service_asks_foreign[OF l3(4) h4])
  then obtain ctr4 c4 where l4: "run (env 3) (link k4 cfg cycle) [] (w3, c3) = (Inr (), ctr4, (w4, c4))" "standing c4"
    by auto
  have "map fst (heard ctr3) = [validated_ledger_request, submit_request (upper b)]"
    unfolding l3(2) by (rule told_requests) (use s3 service_env_answers[OF s3(1)] in auto)
  note results = l1(1) l2(1) l3(1) this l4 done4
  show ?thesis by (intro exI conjI) (rule results)+
qed

section \<open>A witness\<close>

definition journey_ledgers :: "nat \<Rightarrow> demo_ledger" where
  "journey_ledgers j =
     (if j = 0 then at_ledger 100 else if j = 1 then at_ledger 101 else if j = 2 then at_ledger 102 else demo_including)"

lemma service_env_demo: "service_env (\<lambda>_. demo_answer l) = demo_env l"
proof (intro ext)
  show "service_env (\<lambda>_. demo_answer l) tr q = demo_env l tr q" for tr q
    by (cases q) (simp_all add: demo_env_def)
qed

theorem an_intent_comes_to_its_outcome_in_the_whole_witness:
  "\<exists>w c e r1 ctr1 w1 c1 r2 ctr2 w2 c2 r3 ctr3 w3 c3 ctr4 w4 c4 r4.
     intents w = [demo_created] \<and> active c = Some e \<and> ep_client e = 0 \<and>
     run (flaky_demo (journey_ledgers 0)) (link 5 demo_config (prepare demo_codec 2 ''id1'')) [] (w, c) = (Inr r1, ctr1, (w1, c1)) \<and>
     run (flaky_demo (journey_ledgers 1)) (link 5 demo_config (attach_signature demo_codec ''id1'' ''abcdef'')) [] (w1, c1) =
       (Inr r2, ctr2, (w2, c2)) \<and>
     run (flaky_demo (journey_ledgers 2)) (link 5 demo_config (submit ''id1'')) [] (w2, c2) = (Inr r3, ctr3, (w3, c3)) \<and>
     run (flaky_demo (journey_ledgers 3)) (link 5 demo_config cycle) [] (w3, c3) = (Inr (), ctr4, (w4, c4)) \<and>
     find_row ''id1'' w4 = Some r4 \<and> status r4 = VALIDATED \<and> final_result r4 = Some ''tesSUCCESS''"
proof -
  obtain w c log e where e: "linked_execution demo_codec demo_config (w, c) log" "standing c" and w: "demo_state w demo_created True"
    and c: "active c = Some e" "ep_client e = 0"
    using linked_created unfolding linked_history_def by blast
  note demo = demo_created_facts[OF w]
  have id2: "2 = xrpl_network_id demo_config" by (simp add: demo_config_def)
  have up: "upper ''abcdef'' = ''ABCDEF''" by code_simp
  have tes: "\<not> starts_with ''tem'' (sub_engine_result (demo_submitted (at_ledger 102)))"
    by (simp add: demo_submitted_def starts_with_def)
  let ?v = "\<lparr>vb_tx_blob = ''ABCDEF'', vb_transaction_hash = demo_hash, vb_signing_pub_key = ''ED01''\<rparr>"
  let ?reply = "\<lambda>j _. demo_answer (journey_ledgers j)"
  have env: "service_env (?reply 0) = demo_env (at_ledger 100)" "service_env (?reply 1) = demo_env (at_ledger 101)"
      "service_env (?reply 2) = demo_env (at_ledger 102)" "service_env (?reply 3) = demo_env demo_including"
    unfolding service_env_demo by (simp_all add: journey_ledgers_def)
  have fresh: "transaction_hash q \<noteq> Some (vb_transaction_hash ?v)"
    if "q \<in> set (intents w)" "intent_id q \<noteq> ''id1''" for q
    using that w by (simp add: demo_state_def demo_created_def new_row_def)
  have count: "submission_attempt_count demo_created < 2147483647" by (simp add: demo_created_def new_row_def)
  have takes: "takes_submission (demo_env (at_ledger 102)) (upper ''abcdef'') 102 (demo_submitted (at_ledger 102))
     [(''engine_result'', JStr ''tesSUCCESS'')]"
    using demo_takes_submission by (simp add: up)
  have auth: "authorizes demo_codec (demo_env (at_ledger 101)) (vb_signing_pub_key ?v) (source_account demo_created) 101 7"
    using demo_authorizes demo(6) by simp
  have n: "0 < (100::nat)" "101 \<le> last_ledger_sequence_for 100" "102 \<le> last_ledger_sequence_for 100"
      "hash64 (vb_transaction_hash ?v)"
    by (simp_all add: demo_last_ledger demo_hash_ok)
  have inc: "shows_included (demo_env demo_including) (vb_transaction_hash ?v) 100 (last_ledger_sequence_for 100)
      ''tesSUCCESS'' 105"
    using demo_including_answers(2) by (simp add: demo_last_ledger)
  have flaky: "flaky_clients demo_config (\<lambda>c q. c = 0) (?reply j) (flaky_demo (journey_ledgers j))" for j
    by (rule flaky_demo_flaky)
  from an_intent_comes_to_its_outcome_in_the_whole[where reply = ?reply and ?k1.0 = 5 and ?k2.0 = 5 and ?k3.0 = 5 and ?k4.0 = 5, unfolded env, OF e id2 flaky demo(1-4) count
      demo(5) n(1) demo(7,8) demo_verify n(4) fresh auth n(2) takes n(3) tes demo_including_answers(1) inc] w c show ?thesis
    unfolding demo_state_def by blast
qed

end
