(* ===== verification/Backoff.thy ===== *)
theory Backoff
  imports Failover
begin

text \<open>
  When no endpoint can be reached: the timer of the connection manager, its growing delays, and the
  way back once a server is usable again.
\<close>

section \<open>A round that fails\<close>

definition unreachable ::
  "app_config \<Rightarrow> (client_call, client_answer) answers \<Rightarrow> nat \<Rightarrow> bool" where
  "unreachable cfg env c \<longleftrightarrow> (\<forall>tr name. \<exists>x. env tr (ConnectClient c (endpoint_url cfg name)) = Rejected x)"

lemma run_bootstrap_unreachable:
  assumes "unreachable cfg env (created_clients w)"
  shows "\<exists>x tr'. run env (bootstrap cfg name) tr w =
    (Inl x, tr', w\<lparr>created_clients := created_clients w + 1,
       opened := removeAll (created_clients w) (opened w),
       closing := removeAll (created_clients w) (closing w)\<rparr>)"
proof -
  let ?c = "created_clients w"
  obtain x where x: "env tr (ConnectClient ?c (endpoint_url cfg name)) = Rejected x"
    using assms by (auto simp: unreachable_def)
  then show ?thesis
    by (simp add: bootstrap_def create_client_def handshake_def connect_client_def abandon_client_def run_simps x)
qed

text \<open>Nothing is up and nothing is on its way.\<close>

definition down :: "conn \<Rightarrow> bool" where
  "down w \<longleftrightarrow>
     active w = None \<and> switching w = None \<and> \<not> destroyed w \<and>
     (\<forall>c \<in> set (opened w). c < created_clients w) \<and> set (closing w) \<subseteq> set (opened w)"

lemma down_fresh_client:
  "down w \<Longrightarrow> created_clients w \<le> c \<Longrightarrow>
     removeAll c (opened w) = opened w \<and> removeAll c (closing w) = closing w"
  unfolding down_def by (meson leD removeAll_id subsetD)

text \<open>What one failed round changes: two clients come and go, and the timer is set.\<close>

definition failed_round :: "conn \<Rightarrow> conn" where
  "failed_round w =
     w\<lparr>created_clients := created_clients w + 2,
       reconnect_timer := Some (reconnect_delay_ms (reconnect_attempt w)),
       reconnect_attempt := reconnect_attempt w + 1\<rparr>"

lemma run_connection_unreachable:
  assumes w: "down w" "reconnect_timer w = None"
    and u: "unreachable cfg env (created_clients w)" "unreachable cfg env (Suc (created_clients w))"
  shows "\<exists>tr'. run env (connection k cfg) tr w = (Inl unavailable, tr', failed_round w)"
proof -
  let ?c = "created_clients w"
  let ?w0 = "w\<lparr>switching := Some k\<rparr>"
  let ?w1 = "?w0\<lparr>created_clients := Suc ?c\<rparr>" and ?w2 = "?w0\<lparr>created_clients := Suc (Suc ?c)\<rparr>"
  have a: "active w = None" "switching w = None" "\<not> destroyed w" using w by (auto simp: down_def)
  note same = down_fresh_client[OF w(1)]
  have "\<exists>x tr'. run env (bootstrap cfg name) tr ?w0 = (Inl x, tr', ?w1)" for name tr
    using run_bootstrap_unreachable[of cfg env ?w0 name tr] u(1) same[of ?c] by simp
  then obtain x1 tr1 where b1: "run env (bootstrap cfg (preferred w)) tr ?w0 = (Inl x1, tr1, ?w1)" by blast
  have "\<exists>x tr'. run env (bootstrap cfg name) tr ?w1 = (Inl x, tr', ?w2)" for name tr
    using run_bootstrap_unreachable[of cfg env ?w1 name tr] u(2) same[of "Suc ?c"] by simp
  then obtain x2 tr2 where b2: "run env (bootstrap cfg (other_endpoint (preferred w))) tr1 ?w1 = (Inl x2, tr2, ?w2)"
    by blast
  have "run env (connection k cfg) tr w = (Inl unavailable, tr2, failed_round w)"
    using a w(2)
    by (simp add: connection_def decide_connection_def run_simps track_def b1 b2
        give_up_connecting_def schedule_reconnect_def failed_round_def)
  then show ?thesis by blast
qed

section \<open>The timer\<close>

definition fire :: "app_config \<Rightarrow> (client_call, client_answer) answers \<Rightarrow> conn \<Rightarrow> conn" where
  "fire cfg env w = snd (snd (run env (timer_fires 0 cfg) [] w))"

lemma fire_is_a_connection:
  assumes "reconnect_timer w = Some d"
  shows "fire cfg env w = snd (snd (run env (connection 0 cfg) [] (w\<lparr>reconnect_timer := None\<rparr>)))"
  using assms
  by (simp add: fire_def timer_fires_def connection_def ignore_failure_def run_simps split: prod.split sum.split)

lemma down_timer [simp]: "down (w\<lparr>reconnect_timer := t\<rparr>) = down w"
  by (simp add: down_def)

lemma down_failed_round: "down w \<Longrightarrow> down (failed_round w)"
  by (auto simp: down_def failed_round_def)

lemma fire_unreachable:
  assumes "down w" "reconnect_timer w = Some d"
    and "unreachable cfg env (created_clients w)" "unreachable cfg env (Suc (created_clients w))"
  shows "fire cfg env w = failed_round w"
  using run_connection_unreachable[of "w\<lparr>reconnect_timer := None\<rparr>" cfg env 0 "[]"] assms
  by (auto simp: fire_is_a_connection failed_round_def)

lemma fire_serves:
  assumes "down w" "reconnect_timer w = Some d"
    and "serves_well cfg env (preferred w) (created_clients w) raw_info raw_definitions info"
  shows "switched (preferred w) (endpoint_of cfg (preferred w) (created_clients w) info
      (parse_server_definitions raw_definitions)) (created_clients w # opened w) (fire cfg env w)"
  using run_connection[of "w\<lparr>reconnect_timer := None\<rparr>" cfg env raw_info raw_definitions info _ 0 "[]", OF _ _ _ _ refl] assms
  by (auto simp: fire_is_a_connection down_def)

text \<open>Any number of rounds in vain.\<close>

lemma rounds_in_vain:
  assumes "down w" "reconnect_timer w = Some d"
    and "\<And>c. created_clients w \<le> c \<Longrightarrow> c < created_clients w + 2 * n \<Longrightarrow> unreachable cfg env c" and "i \<le> n"
  shows "down ((fire cfg env ^^ i) w) \<and>
    reconnect_timer ((fire cfg env ^^ i) w) =
      Some (if i = 0 then d else reconnect_delay_ms (reconnect_attempt w + i - 1)) \<and>
    reconnect_attempt ((fire cfg env ^^ i) w) = reconnect_attempt w + i \<and>
    created_clients ((fire cfg env ^^ i) w) = created_clients w + 2 * i \<and>
    opened ((fire cfg env ^^ i) w) = opened w \<and> preferred ((fire cfg env ^^ i) w) = preferred w"
  using assms(4)
proof (induction i)
  case 0
  then show ?case using assms(1,2) by simp
next
  case (Suc i)
  let ?w = "(fire cfg env ^^ i) w"
  have IH: "down ?w" "reconnect_timer ?w \<noteq> None" "reconnect_attempt ?w = reconnect_attempt w + i"
      "created_clients ?w = created_clients w + 2 * i" "opened ?w = opened w" "preferred ?w = preferred w"
    using Suc by auto
  then obtain d' where d': "reconnect_timer ?w = Some d'" by blast
  have "fire cfg env ?w = failed_round ?w"
    by (rule fire_unreachable[OF IH(1) d']) (use Suc.prems assms(3) IH(4) in auto)
  then show ?case using IH down_failed_round[OF IH(1)] by (simp add: failed_round_def)
qed

section \<open>Properties\<close>


definition reachable_later :: "nat \<Rightarrow> (client_call, client_answer) answers" where
  "reachable_later n tr call =
     (case call of
        ConnectClient c url \<Rightarrow> if c < n then Rejected (TransportFailure ''refused'') else Answered (RespOk [])
      | _ \<Rightarrow> breaking 0 tr call)"


end
