(* ===== verification/Spec2Isabelle.thy ===== *)
theory Spec2Isabelle
  imports Idempotency Failover ClientAdapter Scheduler Paging Duplicates Bounds Outcome Acceptance Signer Startup Journey Backoff
begin

text \<open>
  A transaction orchestrator for the XRP Ledger. Clients post payment and trust-line intents; the
  service builds, encodes and simulates the transaction, accepts an externally made signature,
  submits the signed blob and follows it to a validated outcome. It never holds a key. This library
  models the TypeScript implementation under \<open>src/\<close> and proves what it promises; this root theory
  holds the guarantees of the service as a whole.

  \<^bold>\<open>How the code is modelled.\<close> An \<open>async\<close> method is a program (\<open>Effects\<close>): a tree of atomic steps
  and requests. A step is one awaited database statement or one synchronous piece of memory access;
  a request goes to the environment, which answers it as it likes. \<open>run\<close> executes a program alone,
  against an environment that is a function of the exchange so far. \<open>Pool\<close> executes any number of
  programs interleaved step by step, with a moving clock, database statements that are lost before
  or acknowledged too late (\<open>fault\<close>), and restarts that lose every running program and all memory.
  \<open>wp\<close> is the proof rule for both: the locales \<open>rely_guarantee\<close> and \<open>owned_rely_guarantee\<close> turn
  the contracts of single programs into invariants of all executions. Exceptions are values of
  \<open>exn\<close>; a JSON value is \<open>json\<close>, an object an association list in insertion order; a JavaScript number
  that the code has checked to be a safe integer is a \<open>nat\<close>, and the one sum that may leave that range is
  rounded as a double is (\<open>js_add\<close>).

  \<^bold>\<open>Theories and source files.\<close>
  \<^item> \<open>Prelude\<close>, \<open>Js\<close>: lists, strings, numbers; narrowing of JSON values (first part of \<open>xrpl/types.ts\<close>).
  \<^item> \<open>IntentState\<close>: \<open>intents/intent-state.ts\<close>, with the ranked state machine as a locale.
  \<^item> \<open>Errors\<close>: \<open>common/errors/\<close>, \<open>isUniqueViolation\<close>.
  \<^item> \<open>Payload\<close>, \<open>Requests\<close>: \<open>intents/intent-payload.ts\<close>, the request classes, the text that is hashed.
  \<^item> \<open>Codec\<close>: \<open>xrpl/codec.ts\<close>, \<open>preparation/*.builder.ts\<close>, \<open>preparation-params.ts\<close>.
  \<^item> \<open>Schema\<close>, \<open>Store\<close>, \<open>StoreLaws\<close>: \<open>database/schema.ts\<close>, the repositories, and what they keep true
    whoever calls them (locale \<open>intent_store\<close>).
  \<^item> \<open>Ledger\<close>: \<open>xrpl/ledger.service.ts\<close> and the parsers of its answers. \<open>Artifacts\<close>: fee cap, comparison
    of the simulation, verification of a signed blob, authority of a key.
  \<^item> \<open>Lifecycle\<close>, \<open>LifecycleLaws\<close>: the abstract specification of an intent: what its row holds in each
    status (\<open>row_ok\<close>), which changes are allowed and on what evidence (\<open>row_step\<close>, \<open>row_touch\<close>), what no
    change undoes (\<open>row_evolves\<close>).
  \<^item> \<open>Contract\<close>: the invariant \<open>world_ok\<close>, the rely \<open>evolves\<close>, the guarantee \<open>permitted\<close>, the requests that
    may be sent \<open>request_ok\<close>, and \<open>known X N r w\<close>: \<open>r\<close> is an earlier state of a row of \<open>w\<close>. \<open>meets X N p Q E\<close>
    says that the program \<open>p\<close> obeys this contract and ends in \<open>Q\<close> or throws into \<open>E\<close>.
  \<^item> \<open>Finality\<close>, \<open>Preparation\<close>, \<open>Signing\<close>, \<open>Submission\<close>, \<open>Intents\<close>: the services of those names.
  \<^item> \<open>System\<close>: all of them as one pool; \<open>execution X N w log\<close> says that the state \<open>w\<close> is reached with the
    history \<open>log\<close>. \<open>Scenario\<close>: concrete executions through every status, which the witnesses use.
  \<^item> \<open>Scheduler\<close>: \<open>runCycle\<close> and \<open>finality/finality.scheduler.ts\<close> as a step relation.
  \<^item> \<open>Config\<close>, \<open>Endpoint\<close>, \<open>Connection\<close>, \<open>ConnectionLaws\<close>, \<open>Failover\<close>, \<open>ClientAdapter\<close>:
    \<open>config.validation.ts\<close>, \<open>capability.service.ts\<close>, \<open>connection-manager.service.ts\<close> with a pool of its
    own, and \<open>xrpl-ledger.client.ts\<close>.
  \<^item> \<open>Vetting\<close>, \<open>Linked\<close>: the services on their connection. \<open>link\<close> puts the programs of the connection
    manager in the place of the requests of a service (\<open>xrpl.module.ts\<close>), and one pool runs the linked handlers and the callbacks of
    the manager over both states; \<open>linked_execution X cfg s log\<close> is its \<open>execution\<close>. \<open>History\<close>: what had happened
    before an event. \<open>Provenance\<close>, \<open>Projection\<close>, \<open>Whole\<close>, \<open>Resilience\<close>, \<open>Journey\<close>: what follows. \<open>Backoff\<close>: the reconnection timer.
  \<^item> \<open>Dates\<close>, \<open>JsonText\<close>, \<open>Cursor\<close>, \<open>Paging\<close>: \<open>intents/cursor.ts\<close> with \<open>toISOString\<close>, \<open>JSON.parse\<close> and base64url
    down to the characters, and the walk through the pages.
  \<^item> \<open>Validation\<close>, \<open>Presenter\<close>, \<open>Http\<close>, \<open>Health\<close>: request validation, views, routes with the exception
    filter, liveness, readiness and status.
  \<^item> \<open>Startup\<close>: \<open>config.module.ts\<close>, \<open>config.service.ts\<close>, \<open>request-id.ts\<close>, \<open>app.setup.ts\<close>, \<open>database/migrate.ts\<close>.
  \<^item> \<open>Signer\<close>: \<open>examples/testnet-signer/sign.ts\<close>, the client that holds the key, as a program whose requests
    are HTTP calls; \<open>converse\<close> runs it against the routes of \<open>Http\<close>.
  \<^item> \<open>MethodContracts\<close>, \<open>Settlement\<close>, \<open>Progress\<close>, \<open>Delivery\<close>, \<open>Outcome\<close>, \<open>Acceptance\<close>, \<open>Duplicates\<close>,
    \<open>Budget\<close>, \<open>Bounds\<close>, \<open>Idempotency\<close>, \<open>Paging\<close>: no code of their own, but what follows from the parts above together.

  \<^bold>\<open>How the parts interact.\<close> The routes of \<open>Http\<close> and the cycle call the services; these call the
  repositories (atomic steps on \<open>world\<close>) and the ledger commands (requests). To the services the
  connection manager is at first the environment, so what is proved of them holds for whatever a server
  answers; \<open>Connection\<close> takes the clients as its environment and shows which server may be active. Then the
  two are put together (\<open>Linked\<close>): their contracts are joined (\<open>wp_both\<close>), a handler that meets the contract of
  the services complies with the joint one once linked (\<open>complies_link\<close>), and every execution of the whole, its
  connection forgotten, is one of the services (\<open>Projection\<close>).

  \<^bold>\<open>What is proved.\<close> Here: nothing but the prepared and simulated transaction is ever submitted; one
  active intent per account; the audit trail is a path of the state machine; every status change is
  one of the specified steps with its evidence; VALIDATED and EXPIRED are recorded only on proof;
  signatures only from authorized keys; preparation only while the account is quiescent; no commit undoes
  another. \<open>MethodContracts\<close>: what each method's answer means under interference. \<open>Settlement\<close>,
  \<open>Progress\<close>, \<open>Delivery\<close> and \<open>Outcome\<close>: the service gets there: a cycle settles every intent whose window
  has passed, \<open>prepare\<close> reaches AWAITING_SIGNATURE, a good signature is attached, \<open>submit\<close> sends the blob once and
  records the answer, a cycle records every included transaction, and four calls take an intent from
  CREATED to VALIDATED. \<open>Acceptance\<close>: a good request becomes an intent.
  \<open>Duplicates\<close>: what happens when two intents have one transaction. \<open>Whole\<close>: the whole refines the services,
  submissions go only to servers vetted since the last restart, and so do the questions every change of a status
  rests on. \<open>Resilience\<close>: failovers do not change what a handler does.
  \<open>Journey\<close>: the whole way of an intent, on connections that fail.
  \<open>Backoff\<close>: how the manager comes back when nothing can be reached.
  \<open>Bounds\<close>: every handler ends, and how many steps, submissions and switches it may take, by budgets
  (\<open>Budget\<close>). \<open>Signer\<close>: the signer signs only what it has checked, and service and signer understand each
  other. \<open>Idempotency\<close>, \<open>Paging\<close>, \<open>Cursor\<close>, \<open>Presenter\<close>, \<open>Validation\<close>, \<open>Http\<close>,
  \<open>Health\<close>, \<open>Scheduler\<close>, \<open>Failover\<close>, \<open>Endpoint\<close>, \<open>Config\<close>: the properties of those parts.

  \<^bold>\<open>Bounds.\<close> The loops of \<open>prepare\<close> and \<open>submit\<close> take at most 8 and 3 rounds, the numbers of the code. After 8
  \<open>prepare\<close> throws, as the code does, and three suffice from CREATED when nobody interferes
  (\<open>Progress\<close>). \<open>submit\<close> never runs out of its three, whoever interferes: each lost race leaves the
  intent in a later status (\<open>MethodContracts\<close>). With statements, reads of memory and requests counted as steps, no
  handler takes more than \<open>max_steps\<close>, 65 for \<open>prepare\<close> and 28 for \<open>submit\<close>, a task sends at most three
  submissions, and a cycle switches the endpoint at most once (\<open>Bounds\<close>). The walk up the causes of an
  error ends as in the code. Every other recursion is structural or has a measure.

  \<^bold>\<open>Parameters and assumptions.\<close> \<open>codec\<close> holds the functions of the XRPL package, SHA-256 included;
  \<open>url_protocol\<close> is the URL class, \<open>valid_address\<close> the address check, \<open>validator\<close> class-transformer and
  class-validator, \<open>valid_uuid\<close> the UUID pipe. Nothing is assumed of them except where a theorem says
  so: \<open>validator_sound\<close> in \<open>Validation\<close>, \<open>complete_ledger\<close> in \<open>Settlement\<close>, \<open>cooperates\<close> in \<open>Progress\<close>,
  \<open>authorizes\<close> and \<open>takes_submission\<close> in \<open>Delivery\<close>, \<open>responsive\<close> and \<open>shows_included\<close> in \<open>Outcome\<close> state
  documented behaviour of the library and of the servers, as does \<open>flaky_clients\<close> in \<open>Resilience\<close>. PostgreSQL is modelled by its
  tables: a transaction is atomic, constraints and unique indexes are enforced at the statement.
  Waiting for the promise of a running endpoint switch may return, at any time, any failure or any endpoint that a switch
  has made active, which covers the promise.

  \<^bold>\<open>Not modelled.\<close> The declarations of modules and constructors, \<open>main.ts\<close>, the framework's routing and
  calling of hooks, logging and console output, the settings of the linter: they hold no decision of
  the program. Timeouts are answers of the environment; the length of a backoff delay is modelled,
  the passing of time is not.
\<close>
section \<open>Nothing but the prepared transaction is ever submitted\<close>

text \<open>
  C1. Whatever requests, cycles, crashes and lost acknowledgements preceded it: a submit command
  that leaves the service carries the signed blob of a stored intent. That blob verifies against
  the prepared blob of the intent, which encodes the transaction built from the client's payload
  with a capped fee; its simulation returned tesSUCCESS; and startup recovery had completed.
\<close>

theorem submit_only_prepared_artifacts:
  assumes "execution X N w log" and "Sent (Request req) w1 \<in> set log"
    and "command req = ''submit''"
  shows "recovered w1 \<and>
    (\<exists>r \<in> set (intents w1). \<exists>p fee seq ledger tx pb v.
       req = submit_request (vb_tx_blob v) \<and> signed_tx_blob r = Some (vb_tx_blob v) \<and>
       intent_payload r = JObj (payload_object p) \<and> prepared_as X N p fee seq ledger tx pb \<and>
       prepared_tx_blob r = Some pb \<and> verify X (vb_tx_blob v) pb = Inr v \<and>
       simulation_engine_result r = Some ''tesSUCCESS'')"
  by (rule submit_artifacts) (use execution_sent[OF assms(1,2)] assms(3) in simp_all)

theorem submit_only_prepared_artifacts_witness:
  "\<exists>w log w1 r. execution demo_codec 2 w log \<and>
     Sent (Request (submit_request ''ABCDEF'')) w1 \<in> set log \<and> recovered w1 \<and>
     r \<in> set (intents w1) \<and> (\<exists>p. intent_payload r = JObj (payload_object p)) \<and>
     (\<exists>pb v. prepared_tx_blob r = Some pb \<and> verify demo_codec ''ABCDEF'' pb = Inr v)"
proof -
  obtain w log w1 where e: "execution demo_codec 2 w log"
      "Sent (Request (submit_request ''ABCDEF'')) w1 \<in> set log"
    using submission_sent by blast
  have c: "command (submit_request ''ABCDEF'') = ''submit''" by (simp add: submit_request_def)
  from submit_only_prepared_artifacts[OF e c] obtain r p pb v where
    "recovered w1" "r \<in> set (intents w1)" "intent_payload r = JObj (payload_object p)"
    "prepared_tx_blob r = Some pb" "verify demo_codec (vb_tx_blob v) pb = Inr v"
    "submit_request ''ABCDEF'' = submit_request (vb_tx_blob v)"
    by blast
  moreover from this(6) have "vb_tx_blob v = ''ABCDEF''" by (simp add: submit_request_def)
  ultimately show ?thesis using e by (intro exI[of _ w] exI[of _ log] exI[of _ w1] exI[of _ r]) auto
qed

text \<open>
  C2. At every moment, of one account on one network at most one intent owns the account's next
  Sequence: between PREPARED and the end of its life.
\<close>

theorem one_active_intent_per_account:
  assumes "execution X N w log" and "r1 \<in> set (intents w)" and "r2 \<in> set (intents w)"
    and "status r1 \<in> set sequence_active_statuses" and "status r2 \<in> set sequence_active_statuses"
    and "network_id r1 = network_id r2" and "source_account r1 = source_account r2"
  shows "r1 = r2"
proof -
  have I: "world_ok X N w" by (rule execution_world_ok[OF assms(1)])
  have "row_clash r1 r2"
    using assms(4-7) by (simp add: row_clash_iff same_sequence_owner_def is_sequence_active_def)
  with I assms(2,3) show ?thesis
    by (auto simp: world_ok_def store_ok_def intro: table_ok_no_clash)
qed

theorem one_active_intent_per_account_witness:
  "\<exists>w log r. execution demo_codec 2 w log \<and> r \<in> set (intents w) \<and>
     status r \<in> set sequence_active_statuses \<and> (\<forall>r2 \<in> set (intents w).
       status r2 \<in> set sequence_active_statuses \<and> network_id r = network_id r2 \<and>
       source_account r = source_account r2 \<longrightarrow> r = r2)"
proof -
  obtain w log where w: "execution demo_codec 2 w log" "demo_state w demo_signed True"
    using arrival_history[OF arrival_signed] unfolding history_def by blast
  have r: "demo_signed \<in> set (intents w)" "status demo_signed \<in> set sequence_active_statuses"
    using w(2) by (simp_all add: demo_state_def status_groups)
  from one_active_intent_per_account[OF w(1) r(1) _ r(2)] w(1) r show ?thesis by blast
qed

text \<open>
  C3. The audit trail of every intent is complete and legal: its entries start at CREATED, follow
  the transition table without a gap, end at the current status and are at most seven.
\<close>

theorem audit_trail_is_a_lifecycle:
  assumes "execution X N w log" and "r \<in> set (intents w)"
  shows "let ts = trail_of (intent_id r) w; path_taken = map to_status ts
    in hd path_taken = CREATED \<and> last path_taken = status r \<and> path can_transition path_taken \<and>
       map from_status ts = None # map Some (butlast path_taken) \<and>
       distinct path_taken \<and> length path_taken \<le> 7 \<and>
       sorted_wrt (<) (map transition_id ts)"
proof -
  let ?ts = "trail_of (intent_id r) w"
  let ?path = "map to_status ?ts"
  have ok: "trail_ok w" using execution_world_ok[OF assms(1)] by (simp add: world_ok_def store_ok_def)
  then have t: "path can_transition ?path" "hd ?path = CREATED" "last ?path = status r"
      "map from_status ?ts = None # map Some (butlast ?path)"
    using assms(2) by (auto simp: trail_ok_def intent_trail_ok_def Let_def)
  have "length ?path \<le> 7"
    using lifecycle.path_climbs[OF t(1)] t(2) status_rank_bound[of "last ?path"] by simp
  moreover have "sorted_wrt (<) (map transition_id ?ts)"
    using ok by (auto simp: trail_ok_def trail_of_def sorted_wrt_map sorted_wrt_filter)
  ultimately show ?thesis
    using t lifecycle.path_visits_once[OF t(1)] by (simp add: Let_def)
qed

theorem audit_trail_is_a_lifecycle_witness:
  "\<exists>w. last (map to_status (trail_of ''id1'' w)) = SIGNED \<and>
     hd (map to_status (trail_of ''id1'' w)) = CREATED \<and> length (trail_of ''id1'' w) \<le> 7"
proof -
  obtain w log where w: "execution demo_codec 2 w log" "demo_state w demo_signed True"
    using arrival_history[OF arrival_signed] unfolding history_def by blast
  then have "demo_signed \<in> set (intents w)" by (simp add: demo_state_def)
  from audit_trail_is_a_lifecycle[OF w(1) this] show ?thesis by (auto simp: Let_def)
qed

text \<open>
  C4. A committed change of an intent's status is one of the specified steps, justified by what
  the committing handler was answered and by the row found at the commit; the same transaction
  appends exactly the audit entry that names the step.
\<close>

theorem status_changes_are_justified:
  assumes "execution X N w log" and "Committed tr w1 w2 \<in> set log"
    and "find_row i w1 = Some r" and "find_row i w2 = Some r'" and "status r' \<noteq> status r"
  shows "\<exists>reason details. row_step X N tr reason r r' \<and>
     trail w2 = trail w1 @
       [\<lparr>transition_id = next_transition_id w1, transition_intent = i,
         from_status = Some (status r), to_status = status r', reason_code = reason,
         transition_details = details, transition_created_at = clock w1\<rparr>]"
proof -
  from commit_status_change[OF assms] obtain reason d where
    "row_step X N tr reason r r'"
    "w2 = insert_transition i (Some (status r)) (status r') reason d (put_row r' w1)"
    by blast
  then show ?thesis by (auto simp: insert_transition_def put_row_def)
qed

theorem status_changes_are_justified_witness:
  "\<exists>tr r r' reason. row_step demo_codec 2 tr reason r r' \<and> status r' = SIGNED"
proof -
  obtain w log tr1 w1 w2 r1 r2 where
    e: "execution demo_codec 2 w log" "Committed tr1 w1 w2 \<in> set log" "find_row ''id1'' w1 = Some r1"
      "find_row ''id1'' w2 = Some r2" and s: "status r1 \<noteq> SIGNED" "status r2 = SIGNED"
    using arrival_signed by (rule arrivalE) simp_all
  from status_changes_are_justified[OF e] s show ?thesis by auto
qed

text \<open>
  C5. VALIDATED is reached only from a signed state, by an answer to the lookup of the intent's own
  hash over its own ledger range that reports the transaction validated, with that hash, inside
  (preparedLedgerIndex, LastLedgerSequence], with a tes or tec result; the row records that
  result and that ledger.
\<close>

theorem validated_only_on_ledger_evidence:
  assumes "execution X N w log" and "Committed tr w1 w2 \<in> set log"
    and "find_row i w1 = Some r" and "find_row i w2 = Some r'"
    and "status r \<noteq> VALIDATED" and "status r' = VALIDATED"
  shows "status r \<in> {SIGNED, SUBMITTED} \<and>
    (\<exists>h low high lk raw idx res.
       transaction_hash r = Some h \<and> prepared_ledger_index r = Some low \<and>
       last_ledger_sequence r = Some high \<and>
       answered tr (tx_request h (js_add low 1) high) read_tx (Found lk raw) \<and>
       lk_validated lk \<and> map_option upper (lk_hash lk) = Some h \<and>
       lk_ledger_index lk = Some idx \<and> low < idx \<and> idx \<le> high \<and>
       lk_transaction_result lk = Some res \<and> (starts_with ''tes'' res \<or> starts_with ''tec'' res) \<and>
       final_result r' = Some res \<and> final_ledger_index r' = Some idx)"
proof -
  from commit_status_change[OF assms(1-4)] assms(5,6) obtain reason where
    "row_step X N tr reason r r'" by auto
  then show ?thesis
    using assms(6)
    by (cases rule: row_step.cases)
      (auto simp: moved_def found_validated_def consistent_lookup_def lookup_request_def tes_or_tec_def
         status_groups split: option.splits)
qed

theorem validated_only_on_ledger_evidence_witness:
  "\<exists>tr h low high lk raw. answered tr (tx_request h (js_add low 1) high) read_tx (Found lk raw) \<and>
     lk_validated lk \<and> map_option upper (lk_hash lk) = Some h"
proof -
  obtain raw where a: "arrival demo_sent (demo_final raw)" using arrival_validated by blast
  have s: "status (demo_final raw) = VALIDATED" by (simp add: demo_final_def moved_def)
  obtain w log tr1 w1 w2 r1 r2 where
    "execution demo_codec 2 w log" "Committed tr1 w1 w2 \<in> set log" "find_row ''id1'' w1 = Some r1"
      "find_row ''id1'' w2 = Some r2" "status r1 \<noteq> VALIDATED" "status r2 = VALIDATED"
    using a by (rule arrivalE) (simp_all add: s)
  from validated_only_on_ledger_evidence[OF this] show ?thesis by blast
qed

text \<open>
  C6. A signed intent expires only when it provably can no longer be included: a server that
  searched the whole range does not know the hash, the account was read from a validated ledger
  beyond LastLedgerSequence, and the intent's Sequence is still unused there.
\<close>

theorem signed_intent_expires_only_when_proven_absent:
  assumes "execution X N w log" and "Committed tr w1 w2 \<in> set log"
    and "find_row i w1 = Some r" and "find_row i w2 = Some r'"
    and "status r \<in> {SIGNED, SUBMITTED}" and "status r' = EXPIRED"
  shows "\<exists>h low high a n.
       transaction_hash r = Some h \<and> prepared_ledger_index r = Some low \<and>
       last_ledger_sequence r = Some high \<and>
       answered tr (tx_request h (js_add low 1) high) read_tx (NotFound True) \<and>
       answered tr (validated_account_request (source_account r)) read_validated_account (Some a) \<and>
       ai_ledger_index a = Some n \<and> high < n \<and> sequence r = Some (ai_sequence a)"
proof -
  from commit_status_change[OF assms(1-4)] assms(5,6) obtain reason where
    "row_step X N tr reason r r'" by auto
  then show ?thesis
    using assms(5,6)
    by (cases rule: row_step.cases)
      (auto simp: moved_def proven_absent_def account_beyond_def lookup_request_def status_groups
         split: option.splits)
qed

theorem signed_intent_expires_only_when_proven_absent_witness:
  "\<exists>w log tr w1 w2 r h a n. execution demo_codec 2 w log \<and> Committed tr w1 w2 \<in> set log \<and>
     find_row ''id1'' w1 = Some r \<and> transaction_hash r = Some h \<and>
     answered tr (validated_account_request (source_account r)) read_validated_account (Some a) \<and>
     ai_ledger_index a = Some n \<and> sequence r = Some (ai_sequence a)"
proof -
  obtain w log tr1 w1 w2 r1 r2 where
    e: "execution demo_codec 2 w log" "Committed tr1 w1 w2 \<in> set log" "find_row ''id1'' w1 = Some r1"
      "find_row ''id1'' w2 = Some r2" and s: "row_evolves demo_sent r1" "status r1 \<noteq> EXPIRED"
      "status r2 = EXPIRED"
    using arrival_expired by (rule arrivalE) (simp_all add: demo_expired_def moved_def)
  have "can_transition (status r1) (status r2)"
    using commit_status_change[OF e] s(2,3) row_step_status by fastforce
  then have "status r1 \<in> {SIGNED, SUBMITTED}"
    using s path_from_signed[of "status demo_sent" "status r1"]
    by (auto simp: row_evolves_def)
  from signed_intent_expires_only_when_proven_absent[OF e this s(3)] obtain h a n where
    "transaction_hash r1 = Some h"
    "answered tr1 (validated_account_request (source_account r1)) read_validated_account (Some a)"
    "ai_ledger_index a = Some n" "sequence r1 = Some (ai_sequence a)"
    by blast
  with e show ?thesis
    by (intro exI[of _ w] exI[of _ log] exI[of _ tr1] exI[of _ w1] exI[of _ w2] exI[of _ r1]
        exI[of _ h] exI[of _ a] exI[of _ n]) simp
qed

text \<open>
  C7. A signature is attached only to an intent that awaits one, only if the blob verifies against
  the prepared blob found at the commit, its key may sign for the source account according to a
  validated ledger (the enabled master key or the regular key), the account's Sequence there is
  the prepared one, and a validated ledger no later than LastLedgerSequence was seen.
\<close>

theorem signature_only_from_an_authorized_key:
  assumes "execution X N w log" and "Committed tr w1 w2 \<in> set log"
    and "find_row i w1 = Some r" and "find_row i w2 = Some r'"
    and "status r \<noteq> SIGNED" and "status r' = SIGNED"
  shows "status r = AWAITING_SIGNATURE \<and>
    (\<exists>b pb v a signer high n.
       prepared_tx_blob r = Some pb \<and> verify X b pb = Inr v \<and>
       signed_tx_blob r' = Some (upper b) \<and> transaction_hash r' = Some (vb_transaction_hash v) \<and>
       answered tr (validated_account_request (source_account r)) read_validated_account (Some a) \<and>
       x_derive_address X (vb_signing_pub_key v) = Inr signer \<and>
       (if signer = source_account r then \<not> ai_disable_master_key a
        else ai_regular_key a = Some signer) \<and>
       sequence r = Some (ai_sequence a) \<and>
       last_ledger_sequence r = Some high \<and> seen_ledger tr n \<and> n \<le> high)"
proof -
  from commit_status_change[OF assms(1-4)] assms(5,6) obtain reason where
    "row_step X N tr reason r r'" by auto
  then show ?thesis
  proof (cases rule: row_step.cases)
    case (Sign pb b v a high n t now)
    obtain signer where signer: "x_derive_address X (vb_signing_pub_key v) = Inr signer"
       "if signer = source_account r then \<not> ai_disable_master_key a
        else ai_regular_key a = Some signer"
      using Sign(7) by (auto simp: assert_authorized_Inr_iff)
    have "signed_tx_blob r' = Some (upper b)" "transaction_hash r' = Some (vb_transaction_hash v)"
      using Sign(2) verify_tx_blob[OF Sign(5)] by (simp_all add: moved_def)
    with Sign(3-11) signer show ?thesis
      by (intro conjI exI[of _ b] exI[of _ pb] exI[of _ v] exI[of _ a] exI[of _ signer] exI[of _ high] exI[of _ n])
        simp_all
  qed (use assms(6) in \<open>auto simp: moved_def\<close>)
qed

theorem signature_only_from_an_authorized_key_witness:
  "\<exists>w log tr w1 w2 r b pb v a. execution demo_codec 2 w log \<and> Committed tr w1 w2 \<in> set log \<and>
     find_row ''id1'' w1 = Some r \<and> status r = AWAITING_SIGNATURE \<and> verify demo_codec b pb = Inr v \<and>
     answered tr (validated_account_request (source_account r)) read_validated_account (Some a) \<and>
     sequence r = Some (ai_sequence a)"
proof -
  obtain w log tr1 w1 w2 r1 r2 where
    e: "execution demo_codec 2 w log" "Committed tr1 w1 w2 \<in> set log" "find_row ''id1'' w1 = Some r1"
      "find_row ''id1'' w2 = Some r2" "status r1 \<noteq> SIGNED" "status r2 = SIGNED"
    using arrival_signed by (rule arrivalE) simp_all
  from signature_only_from_an_authorized_key[OF e] obtain b pb v a where
    "status r1 = AWAITING_SIGNATURE" "verify demo_codec b pb = Inr v"
    "answered tr1 (validated_account_request (source_account r1)) read_validated_account (Some a)"
    "sequence r1 = Some (ai_sequence a)"
    by blast
  with e show ?thesis
    by (intro exI[of _ w] exI[of _ log] exI[of _ tr1] exI[of _ w1] exI[of _ w2] exI[of _ r1]
        exI[of _ b] exI[of _ pb] exI[of _ v] exI[of _ a]) simp
qed

text \<open>
  C8. An intent is prepared only while its account is quiescent: validated and current Sequence
  agree and nothing is queued, by the answers of the same handler; the stored transaction is the
  one built from the payload with that Sequence, the node's fee if it is within the cap, and
  LastLedgerSequence twenty ledgers past the validated one.
\<close>

theorem prepared_only_while_quiescent:
  assumes "execution X N w log" and "Committed tr w1 w2 \<in> set log"
    and "find_row i w1 = Some r" and "find_row i w2 = Some r'"
    and "status r = CREATED" and "status r' \<noteq> CREATED"
  shows "status r' = PREPARED \<and>
    (\<exists>p seq ledger fee tx blob.
       intent_payload r = JObj (payload_object p) \<and> quiescent tr (account p) seq \<and>
       answered tr validated_ledger_request read_validated_ledger ledger \<and>
       answered tr fee_request read_open_ledger_fee fee \<and>
       prepared_as X N p fee seq ledger tx blob \<and>
       prepared_tx_json r' = Some (JObj tx) \<and> prepared_tx_blob r' = Some blob \<and>
       sequence r' = Some seq \<and> fee_drops r' = Some fee \<and> prepared_ledger_index r' = Some ledger \<and>
       last_ledger_sequence r' = Some (last_ledger_sequence_for ledger))"
proof -
  from commit_status_change[OF assms(1-4)] assms(5,6) obtain reason where
    "row_step X N tr reason r r'" by auto
  then show ?thesis
  proof (cases rule: row_step.cases)
    case (Prepare p v c ledger fee tx blob t now)
    then have "quiescent tr (account p) (ai_sequence v)" unfolding quiescent_def by blast
    with Prepare show ?thesis by (auto simp: moved_def)
  qed (use assms(5) in \<open>auto simp: status_groups\<close>)
qed

theorem prepared_only_while_quiescent_witness:
  "\<exists>w log tr w1 w2 r' acct seq. execution demo_codec 2 w log \<and> Committed tr w1 w2 \<in> set log \<and>
     find_row ''id1'' w2 = Some r' \<and> status r' = PREPARED \<and> sequence r' = Some seq \<and>
     quiescent tr acct seq"
proof -
  obtain w log tr w1 w2 r r' where
    e: "execution demo_codec 2 w log" "Committed tr w1 w2 \<in> set log" "find_row ''id1'' w1 = Some r"
      "find_row ''id1'' w2 = Some r'" "status r = CREATED" "status r' \<noteq> CREATED"
    by (rule departure_created)
  from prepared_only_while_quiescent[OF e] obtain p seq where
    "status r' = PREPARED" "quiescent tr (account p) seq" "sequence r' = Some seq"
    by blast
  with e show ?thesis
    by (intro exI[of _ w] exI[of _ log] exI[of _ tr] exI[of _ w1] exI[of _ w2] exI[of _ r']
        exI[of _ "account p"] exI[of _ seq]) simp
qed

text \<open>
  C9. No commit deletes an intent, changes its identity, overwrites a prepared, simulated, signed
  or final column once it is set, moves its status against the table, or changes anything of an
  intent in a terminal status.
\<close>

theorem commits_are_monotone:
  assumes "execution X N w log" and "Committed tr w1 w2 \<in> set log" and "find_row i w1 = Some r"
  shows "\<exists>r'. find_row i w2 = Some r' \<and> row_evolves r r'"
proof -
  from execution_committed[OF assms(1,2)] have I: "world_ok X N w1" and G: "permitted X N tr w1 w2"
    by auto
  have r: "r \<in> set (intents w1)" "intent_id r = i" using find_row_SomeD[OF assms(3)] by auto
  have I2: "world_ok X N w2" by (rule permitted_world_ok[OF I G])
  have known: "known X N r w2" by (rule known_evolves[OF known_row[OF I r(1)] permitted_evolves[OF I G]])
  then obtain r' where "find_row i w2 = Some r'" using known_find r(2) by blast
  with known_now(1)[OF known I2] r(2) show ?thesis by auto
qed

theorem commits_are_monotone_witness:
  "\<exists>w log tr w1 w2 r r'. execution demo_codec 2 w log \<and> Committed tr w1 w2 \<in> set log \<and>
     find_row ''id1'' w1 = Some r \<and> find_row ''id1'' w2 = Some r' \<and> row_evolves r r' \<and>
     status r \<noteq> status r'"
proof -
  obtain w log tr w1 w2 r r0 where
    e: "execution demo_codec 2 w log" "Committed tr w1 w2 \<in> set log" "find_row ''id1'' w1 = Some r"
      "find_row ''id1'' w2 = Some r0" "status r \<noteq> SIGNED" "status r0 = SIGNED"
    using arrival_signed by (rule arrivalE) simp_all
  from commits_are_monotone[OF e(1,2,3)] e show ?thesis
    by (intro exI[of _ w] exI[of _ log] exI[of _ tr] exI[of _ w1] exI[of _ w2] exI[of _ r] exI[of _ r0]) auto
qed

end
